(* ===== verification/Prelude.thy ===== *)
theory Prelude
  imports Complex_Main "HOL-Library.AList" "HOL-Library.Multiset" "HOL-Library.Sublist"
begin

text \<open>
  The JavaScript run-time vocabulary the components share: decimal printing, the string
  operations \<open>trim\<close>, \<open>split\<close> and \<open>join\<close>, insertion-ordered \<open>Set\<close> and \<open>Map\<close>, the stable
  \<open>Array.prototype.sort\<close> with a comparator, and the error value a \<open>throw\<close> or a rejected
  promise becomes. Strings are lists of code units restricted to one byte; every operation
  below only inspects ASCII characters.
\<close>

named_theorems js_defs \<open>definitions of small run-time helpers, unfolded on demand\<close>

datatype js_error = JSError string

type_synonym 'a result = "js_error + 'a"

section \<open>Truthiness and defaults\<close>

text \<open>An optional field that is \<open>undefined\<close> or \<open>null\<close> is \<open>None\<close>. The operator \<open>a ?? d\<close>
  replaces only those; \<open>a || d\<close> on a string also replaces the empty string.\<close>

definition nullish :: "'a option \<Rightarrow> 'a \<Rightarrow> 'a" where
  "nullish a d = (case a of None \<Rightarrow> d | Some x \<Rightarrow> x)"

definition truthy_str :: "string option \<Rightarrow> bool" where
  "truthy_str s = (case s of None \<Rightarrow> False | Some x \<Rightarrow> x \<noteq> [])"

definition str_or :: "string option \<Rightarrow> string \<Rightarrow> string" where
  "str_or s d = (case s of None \<Rightarrow> d | Some x \<Rightarrow> if x = [] then d else x)"

definition truthy_bool :: "bool option \<Rightarrow> bool" where
  "truthy_bool b = (b = Some True)"

lemma nullish_simps [simp]: "nullish None d = d" "nullish (Some x) d = x"
  by (simp_all add: nullish_def)

lemma truthy_str_simps [simp]: "\<not> truthy_str None" "truthy_str (Some x) \<longleftrightarrow> x \<noteq> []"
  by (simp_all add: truthy_str_def)

lemma str_or_simps [simp]: "str_or None d = d" "str_or (Some x) d = (if x = [] then d else x)"
  by (simp_all add: str_or_def)

lemma truthy_bool_simps [simp]: "\<not> truthy_bool None" "truthy_bool (Some b) = b"
  by (simp_all add: truthy_bool_def)

lemma truthy_str_iff: "truthy_str s \<longleftrightarrow> (\<exists>x. s = Some x \<and> x \<noteq> [])"
  by (cases s) auto

section \<open>Decimal printing\<close>

definition digit_char :: "nat \<Rightarrow> char" where
  "digit_char d = char_of (48 + d)"

fun nat_to_string :: "nat \<Rightarrow> string" where
  "nat_to_string n =
     (if n < 10 then [digit_char n]
      else nat_to_string (n div 10) @ [digit_char (n mod 10)])"

declare nat_to_string.simps [simp del]

definition int_to_string :: "int \<Rightarrow> string" where
  "int_to_string i = (if i < 0 then CHR ''-'' # nat_to_string (nat (- i)) else nat_to_string (nat i))"

definition digit_val :: "char \<Rightarrow> nat" where
  "digit_val c = of_char c - 48"

definition string_val :: "string \<Rightarrow> nat" where
  "string_val s = foldl (\<lambda>a c. 10 * a + digit_val c) 0 s"

definition is_digit :: "char \<Rightarrow> bool" where
  "is_digit c \<longleftrightarrow> 48 \<le> (of_char c :: nat) \<and> (of_char c :: nat) \<le> 57"

lemma digit_val_digit_char [simp]: "d < 10 \<Longrightarrow> digit_val (digit_char d) = d"
  by (simp add: digit_val_def digit_char_def)

lemma is_digit_digit_char [simp]: "d < 10 \<Longrightarrow> is_digit (digit_char d)"
  by (simp add: is_digit_def digit_char_def)

lemma string_val_nat_to_string [simp]: "string_val (nat_to_string n) = n"
proof (induction n rule: nat_to_string.induct)
  case (1 n)
  show ?case
  proof (cases "n < 10")
    case True
    then show ?thesis by (simp add: nat_to_string.simps [of n] string_val_def)
  next
    case False
    then have "string_val (nat_to_string n) = 10 * string_val (nat_to_string (n div 10)) + n mod 10"
      by (simp add: nat_to_string.simps [of n] string_val_def)
    with 1 False show ?thesis by simp
  qed
qed

lemma nat_to_string_inj [simp]: "nat_to_string m = nat_to_string n \<longleftrightarrow> m = n"
  by (metis string_val_nat_to_string)

lemma nat_to_string_not_Nil [simp]: "nat_to_string n \<noteq> []"
  by (subst nat_to_string.simps) simp

lemma nat_to_string_digits: "c \<in> set (nat_to_string n) \<Longrightarrow> is_digit c"
proof (induction n rule: nat_to_string.induct)
  case (1 n)
  then show ?case
    by (cases "n < 10") (auto simp: nat_to_string.simps [of n])
qed

lemma minus_not_digit [simp]: "\<not> is_digit (CHR ''-'')"
  by (simp add: is_digit_def)

lemma nat_to_string_no_minus [simp]:
  "nat_to_string n \<noteq> CHR ''-'' # s" "CHR ''-'' # s \<noteq> nat_to_string n"
  by (metis list.set_intros(1) minus_not_digit nat_to_string_digits)+

lemma int_to_string_inj [simp]: "int_to_string i = int_to_string j \<longleftrightarrow> i = j"
  by (auto simp: int_to_string_def)

lemma int_to_string_not_Nil [simp]: "int_to_string i \<noteq> []"
  by (simp add: int_to_string_def)

section \<open>Trim, split, join\<close>

definition is_ws :: "char \<Rightarrow> bool" where
  "is_ws c \<longleftrightarrow> (of_char c :: nat) \<in> {9, 10, 11, 12, 13, 32, 160}"

definition js_trim :: "string \<Rightarrow> string" where
  "js_trim s = rev (dropWhile is_ws (rev (dropWhile is_ws s)))"

fun js_split :: "char \<Rightarrow> string \<Rightarrow> string list" where
  "js_split sep [] = [[]]"
| "js_split sep (c # cs) =
     (if c = sep then [] # js_split sep cs
      else (case js_split sep cs of [] \<Rightarrow> [[c]] | w # ws \<Rightarrow> (c # w) # ws))"

fun js_join :: "string \<Rightarrow> string list \<Rightarrow> string" where
  "js_join sep [] = []"
| "js_join sep [w] = w"
| "js_join sep (w # v # ws) = w @ sep @ js_join sep (v # ws)"

definition js_endsWith :: "string \<Rightarrow> string \<Rightarrow> bool" where
  "js_endsWith s t = suffix t s"

lemma js_split_not_Nil [simp]: "js_split sep s \<noteq> []"
  by (induction s) (auto split: list.splits)

lemma js_split_no_sep: "w \<in> set (js_split sep s) \<Longrightarrow> sep \<notin> set w"
proof (induction s arbitrary: w)
  case (Cons c cs)
  then show ?case by (cases "js_split sep cs") (auto split: if_splits)
qed simp

lemma js_join_split [simp]: "js_join [sep] (js_split sep s) = s"
proof (induction s)
  case (Cons c cs)
  then show ?case
    by (cases "js_split sep cs"; cases "tl (js_split sep cs)") auto
qed simp

lemma js_split_append_no_sep: "sep \<notin> set w \<Longrightarrow> js_split sep (w @ sep # s) = w # js_split sep s"
  by (induction w) auto

lemma js_split_single: "sep \<notin> set w \<Longrightarrow> js_split sep w = [w]"
  by (induction w) auto

lemma js_split_join:
  assumes "ws \<noteq> []" and "\<forall>w\<in>set ws. sep \<notin> set w"
  shows "js_split sep (js_join [sep] ws) = ws"
  using assms
proof (induction "[sep]" ws rule: js_join.induct)
  case (2 w)
  then show ?case by (simp add: js_split_single)
next
  case (3 w v ws)
  then show ?case by (simp add: js_split_append_no_sep)
qed simp

lemma js_trim_hd: "js_trim s \<noteq> [] \<Longrightarrow> \<not> is_ws (hd (js_trim s))"
proof -
  assume ne: "js_trim s \<noteq> []"
  let ?d = "dropWhile is_ws s"
  obtain t where t: "?d = js_trim s @ t"
    unfolding js_trim_def
    by (metis append_Nil2 rev_append rev_rev_ident takeWhile_dropWhile_id)
  with ne have "?d \<noteq> []" and "hd ?d = hd (js_trim s)" by auto
  then show ?thesis by (metis hd_dropWhile)
qed

lemma js_trim_last: "js_trim s \<noteq> [] \<Longrightarrow> \<not> is_ws (last (js_trim s))"
  unfolding js_trim_def by (metis hd_dropWhile last_rev rev_is_Nil_conv)

lemma js_trim_id:
  assumes "s = [] \<or> (\<not> is_ws (hd s) \<and> \<not> is_ws (last s))"
  shows "js_trim s = s"
proof (cases "s = []")
  case False
  with assms have "dropWhile is_ws s = s" and "dropWhile is_ws (rev s) = rev s"
    by (simp_all add: dropWhile_eq_self_iff hd_rev)
  then show ?thesis by (simp add: js_trim_def)
qed (simp add: js_trim_def)

lemma js_trim_idem [simp]: "js_trim (js_trim s) = js_trim s"
  by (metis js_trim_hd js_trim_id js_trim_last)

lemma js_trim_subset: "set (js_trim s) \<subseteq> set s"
  unfolding js_trim_def by (metis set_dropWhileD set_rev subsetI)

section \<open>Insertion-ordered sets and maps\<close>

text \<open>\<open>Array.from(new Set(arr))\<close> keeps the first occurrence of every element.\<close>

fun dedup_seen :: "'a list \<Rightarrow> 'a list \<Rightarrow> 'a list" where
  "dedup_seen seen [] = []"
| "dedup_seen seen (x # xs) =
     (if x \<in> set seen then dedup_seen seen xs else x # dedup_seen (x # seen) xs)"

lemma set_dedup_seen [simp]: "set (dedup_seen seen xs) = set xs - set seen"
  by (induction xs arbitrary: seen) auto

lemma distinct_dedup_seen [simp]: "distinct (dedup_seen seen xs)"
  by (induction xs arbitrary: seen) auto

lemma dedup_seen_id: "distinct xs \<Longrightarrow> set xs \<inter> set seen = {} \<Longrightarrow> dedup_seen seen xs = xs"
  by (induction xs arbitrary: seen) auto

lemma subseq_dedup_seen: "subseq (dedup_seen seen xs) xs"
  by (induction xs arbitrary: seen) auto

text \<open>A \<open>Map\<close> is an association list: \<open>set\<close> overwrites in place or appends.\<close>

lemma map_of_update [simp]: "map_of (AList.update k v al) = (map_of al)(k \<mapsto> v)"
  by (rule update_conv')

lemma map_of_init:
  "map_of (fold (\<lambda>p m. AList.update p s m) ps m0) q = (if q \<in> set ps then Some s else map_of m0 q)"
  by (induction ps arbitrary: m0) auto

lemma keys_update: "map fst (AList.update k v al) =
  (if k \<in> set (map fst al) then map fst al else map fst al @ [k])"
  by (induction al) auto

lemma distinct_keys_update [simp]:
  "distinct (map fst al) \<Longrightarrow> distinct (map fst (AList.update k v al))"
  by (auto simp: keys_update)

section \<open>Array sort\<close>

text \<open>\<open>Array.prototype.sort\<close> is stable. Insertion sort from the right is the stable sort for
  any comparator; for a comparator that compares integer keys it is \<open>sort_key\<close>.\<close>

fun js_insert :: "('a \<Rightarrow> 'a \<Rightarrow> int) \<Rightarrow> 'a \<Rightarrow> 'a list \<Rightarrow> 'a list" where
  "js_insert cmp x [] = [x]"
| "js_insert cmp x (y # ys) = (if cmp x y \<le> 0 then x # y # ys else y # js_insert cmp x ys)"

definition js_sort :: "('a \<Rightarrow> 'a \<Rightarrow> int) \<Rightarrow> 'a list \<Rightarrow> 'a list" where
  "js_sort cmp xs = foldr (js_insert cmp) xs []"

lemma js_insert_key: "js_insert (\<lambda>a b. f a - f b) x ys = insort_key f x ys"
  by (induction ys) auto

lemma js_sort_key: "js_sort (\<lambda>a b. f a - f b) xs = sort_key f xs"
proof -
  have "js_insert (\<lambda>a b. f a - f b) = insort_key f"
    by (intro ext) (rule js_insert_key)
  then show ?thesis by (simp add: js_sort_def sort_key_def)
qed

lemma mset_js_insert [simp]: "mset (js_insert cmp x ys) = add_mset x (mset ys)"
  by (induction ys) auto

lemma mset_js_sort [simp]: "mset (js_sort cmp xs) = mset xs"
  by (induction xs) (auto simp: js_sort_def)

lemma set_js_sort [simp]: "set (js_sort cmp xs) = set xs"
  by (metis mset_js_sort set_mset_mset)

lemma length_js_sort [simp]: "length (js_sort cmp xs) = length xs"
  by (metis mset_js_sort size_mset)

lemma distinct_js_sort [simp]: "distinct (js_sort cmp xs) = distinct xs"
  by (metis mset_js_sort mset_eq_imp_distinct_iff)

lemma sorted_js_sort_key: "sorted (map f (js_sort (\<lambda>a b. f a - f b) xs))"
  by (simp add: js_sort_key)

lemma js_insert_cong: "(\<And>y. y \<in> set ys \<Longrightarrow> cmp x y = cmp' x y) \<Longrightarrow> js_insert cmp x ys = js_insert cmp' x ys"
  by (induction ys) auto

lemma js_sort_cong:
  "(\<And>x y. x \<in> set xs \<Longrightarrow> y \<in> set xs \<Longrightarrow> cmp x y = cmp' x y) \<Longrightarrow> js_sort cmp xs = js_sort cmp' xs"
proof (induction xs)
  case (Cons x xs)
  then have e: "js_sort cmp xs = js_sort cmp' xs" by simp
  have "js_insert cmp x (js_sort cmp' xs) = js_insert cmp' x (js_sort cmp' xs)"
    using Cons.prems by (intro js_insert_cong) simp
  with e show ?case by (simp add: js_sort_def)
qed (simp add: js_sort_def)

lemma sort_key_sort_key_append: "sort_key f (sort_key f xs @ ys) = sort_key f (xs @ ys)"
proof (rule properties_for_sort_key [symmetric])
  fix k
  have e: "(\<lambda>x. f k = f x) = (\<lambda>x. f x = f k)" by auto
  show "filter (\<lambda>x. f k = f x) (sort_key f (sort_key f xs @ ys)) = filter (\<lambda>x. f k = f x) (xs @ ys)"
    by (simp only: e sort_key_stable filter_append)
qed simp_all

lemma sorted_le_last: "sorted xs \<Longrightarrow> x \<in> set xs \<Longrightarrow> x \<le> last xs"
  by (induction xs) (auto intro: order_trans)

lemma last_sort_key:
  assumes "xs \<noteq> []" shows "f (last (sort_key f xs)) = Max (f ` set xs)"
proof -
  let ?ys = "sort_key f xs"
  from assms have ne: "?ys \<noteq> []" by (metis length_0_conv length_sort)
  have "f y \<le> f (last ?ys)" if "y \<in> set ?ys" for y
    using that sorted_le_last [of "map f ?ys" "f y"] ne by (simp add: last_map)
  moreover have "last ?ys \<in> set xs" using ne by (metis last_in_set set_sort)
  ultimately show ?thesis by (intro Max_eqI [symmetric]) auto
qed

section \<open>Parsing integers, letter case\<close>

text \<open>\<open>parseInt(s, 10)\<close>: leading white space, an optional sign, then as many digits as there
  are; \<open>NaN\<close>, here \<open>None\<close>, if there is no digit. Anything after the digits is ignored.\<close>

definition js_parseInt :: "string \<Rightarrow> int option" where
  "js_parseInt s =
     (let t = dropWhile is_ws s;
          neg = (t \<noteq> [] \<and> hd t = CHR ''-'');
          u = (if t \<noteq> [] \<and> (hd t = CHR ''-'' \<or> hd t = CHR ''+'') then tl t else t);
          ds = takeWhile is_digit u
      in if ds = [] then None
         else Some (if neg then - int (string_val ds) else int (string_val ds)))"

lemma is_digit_not_ws: "is_digit c \<Longrightarrow> \<not> is_ws c"
  by (auto simp: is_digit_def is_ws_def)

lemma takeWhile_digits [simp]: "takeWhile is_digit (nat_to_string n) = nat_to_string n"
  by (simp add: nat_to_string_digits takeWhile_eq_all_conv)

lemma js_parseInt_nat [simp]: "js_parseInt (nat_to_string n) = Some (int n)"
proof -
  have hd: "is_digit (hd (nat_to_string n))"
    by (rule nat_to_string_digits [of _ n]) simp
  then have "dropWhile is_ws (nat_to_string n) = nat_to_string n"
    by (simp add: dropWhile_eq_self_iff is_digit_not_ws)
  moreover have "hd (nat_to_string n) \<noteq> CHR ''-''" "hd (nat_to_string n) \<noteq> CHR ''+''"
    using hd by (auto simp: is_digit_def)
  ultimately show ?thesis by (simp add: js_parseInt_def Let_def)
qed

definition to_lower_char :: "char \<Rightarrow> char" where
  "to_lower_char c =
     (if 65 \<le> (of_char c :: nat) \<and> (of_char c :: nat) \<le> 90 then char_of (of_char c + 32 :: nat) else c)"

definition to_upper_char :: "char \<Rightarrow> char" where
  "to_upper_char c =
     (if 97 \<le> (of_char c :: nat) \<and> (of_char c :: nat) \<le> 122 then char_of (of_char c - 32 :: nat) else c)"

definition js_toLowerCase :: "string \<Rightarrow> string" where
  "js_toLowerCase = map to_lower_char"

definition js_toUpperCase :: "string \<Rightarrow> string" where
  "js_toUpperCase = map to_upper_char"

lemma length_js_toLowerCase [simp]: "length (js_toLowerCase s) = length s"
  by (simp add: js_toLowerCase_def)

lemma to_lower_idem [simp]: "to_lower_char (to_lower_char c) = to_lower_char c"
  by (auto simp: to_lower_char_def)

lemma js_toLowerCase_idem [simp]: "js_toLowerCase (js_toLowerCase s) = js_toLowerCase s"
  by (simp add: js_toLowerCase_def comp_def)

lemma js_toLowerCase_append [simp]: "js_toLowerCase (s @ t) = js_toLowerCase s @ js_toLowerCase t"
  by (simp add: js_toLowerCase_def)

text \<open>The comma-separated inputs of the forms: \<open>dedup(s.split(",")).map(trim).filter(nonempty)\<close>.\<close>

definition js_dedup :: "'a list \<Rightarrow> 'a list" where
  "js_dedup arr = dedup_seen [] arr"

lemma set_js_dedup [simp]: "set (js_dedup xs) = set xs"
  by (simp add: js_dedup_def)

lemma distinct_js_dedup [simp]: "distinct (js_dedup xs)"
  by (simp add: js_dedup_def)

lemma js_dedup_id: "distinct xs \<Longrightarrow> js_dedup xs = xs"
  by (simp add: js_dedup_def dedup_seen_id)

section \<open>Grouping by key\<close>

text \<open>The client's accumulators all have the same shape: look the group of an item up, create it
  if it is missing, add the item, store the group back. \<open>upsert\<close> is that step and
  \<open>group_by\<close> its fold.\<close>

definition upsert :: "('s \<Rightarrow> 'e \<Rightarrow> 's) \<Rightarrow> 's \<Rightarrow> 'k \<Rightarrow> 'e \<Rightarrow> ('k \<times> 's) list \<Rightarrow> ('k \<times> 's) list" where
  "upsert step s0 k e m = AList.update k (step (nullish (map_of m k) s0) e) m"

definition group_by :: "('s \<Rightarrow> 'e \<Rightarrow> 's) \<Rightarrow> ('e \<Rightarrow> 's) \<Rightarrow> ('e \<Rightarrow> 'k) \<Rightarrow> 'e list \<Rightarrow> ('k \<times> 's) list" where
  "group_by step s0 key es = foldl (\<lambda>m e. upsert step (s0 e) (key e) e m) [] es"

lemma group_by_Nil [simp]: "group_by step s0 key [] = []"
  by (simp add: group_by_def)

lemma group_by_snoc [simp]:
  "group_by step s0 key (es @ [e]) = upsert step (s0 e) (key e) e (group_by step s0 key es)"
  by (simp add: group_by_def)

lemma map_of_upsert:
  "map_of (upsert step s0 k e m) = (map_of m)(k \<mapsto> step (nullish (map_of m k) s0) e)"
  by (simp add: upsert_def)

lemma keys_upsert: "map fst (upsert step s0 k e m) =
  (if k \<in> set (map fst m) then map fst m else map fst m @ [k])"
  by (simp add: upsert_def keys_update)

lemma map_of_group_by:
  "map_of (group_by step s0 key es) k =
     (let g = filter (\<lambda>e. key e = k) es in if g = [] then None else Some (foldl step (s0 (hd g)) g))"
proof (induction es rule: rev_induct)
  case (snoc e es)
  then show ?case
    by (cases "filter (\<lambda>e. key e = k) es") (auto simp: map_of_upsert Let_def)
qed simp

lemma dedup_seen_snoc:
  "dedup_seen seen (xs @ [x]) =
     (if x \<in> set xs \<union> set seen then dedup_seen seen xs else dedup_seen seen xs @ [x])"
  by (induction xs arbitrary: seen) auto

lemma keys_group_by: "map fst (group_by step s0 key es) = js_dedup (map key es)"
proof (induction es rule: rev_induct)
  case (snoc e es)
  then have "fst ` set (group_by step s0 key es) = key ` set es"
    by (metis list.set_map set_js_dedup)
  with snoc show ?case by (simp add: keys_upsert js_dedup_def dedup_seen_snoc)
qed (simp add: js_dedup_def)

lemma distinct_keys_group_by [simp]: "distinct (map fst (group_by step s0 key es))"
  by (simp add: keys_group_by)

end
