(* ===== verification/Ip_Addr.thy ===== *)
theory Ip_Addr
  imports Prelude "HOL-Library.Word"
begin

unbundle bit_operations_syntax

text \<open>
  \<^verbatim>\<open>web/utls/ipaddr.ts\<close> and the \<open>IPAddrLike\<close> interface of \<^verbatim>\<open>web/utls/router.ts\<close>: an address
  is a byte array with a family tag, \<open>getMaskedValue\<close> reads a run of bits of it as a big
  integer and \<open>toMask\<close> clears everything after a prefix. The interface is the locale
  \<open>ip_addr_like\<close>; its law says which bits \<open>getMaskedValue\<close> reads.
\<close>

section \<open>The class IPAddr\<close>

datatype IPAddressFamily = IPv4 | IPv6

record IPAddr =
  data :: "8 word list"
  family :: IPAddressFamily

definition getFamily :: "IPAddr \<Rightarrow> IPAddressFamily" where
  "getFamily a = family a"

definition getBytes :: "IPAddr \<Rightarrow> 8 word list" where
  "getBytes a = data a"

text \<open>The two local masks of \<open>getMaskedValue\<close>: \<open>revmask n\<close> has the \<open>n\<close> high bits of a byte
  clear, \<open>mask n\<close> has only those set.\<close>

definition revmask8 :: "nat \<Rightarrow> int" where
  "revmask8 n = push_bit (8 - n) 1 - 1"

definition hsbmask8 :: "nat \<Rightarrow> int" where
  "hsbmask8 n = 0xff - (push_bit (8 - n) 1 - 1)"

text \<open>The loop over the bytes: \<open>i\<close> is the loop index, the accumulators are \<open>value\<close> and the
  number of bits still to read.\<close>

primrec getMaskedValue_loop :: "8 word list \<Rightarrow> nat \<Rightarrow> nat \<Rightarrow> nat \<Rightarrow> int \<Rightarrow> nat \<Rightarrow> int" where
  "getMaskedValue_loop [] i byteOffset bitOffset v nbits = v"
| "getMaskedValue_loop (b # bs) i byteOffset bitOffset v nbits =
     (if i < byteOffset then getMaskedValue_loop bs (Suc i) byteOffset bitOffset v nbits
      else if i = byteOffset then
        (let v1 = uint b AND revmask8 bitOffset;
             bitsRead = min (8 - bitOffset) nbits;
             v2 = v1 AND hsbmask8 (bitOffset + bitsRead);
             v3 = drop_bit (8 - bitOffset - bitsRead) v2
         in getMaskedValue_loop bs (Suc i) byteOffset bitOffset v3 (nbits - bitsRead))
      else if nbits > 0 then
        (let bitsRead = min 8 nbits;
             v1 = push_bit bitsRead v;
             v2 = v1 OR drop_bit (8 - bitsRead) (uint b AND hsbmask8 bitsRead)
         in getMaskedValue_loop bs (Suc i) byteOffset bitOffset v2 (nbits - bitsRead))
      else getMaskedValue_loop bs (Suc i) byteOffset bitOffset v nbits)"

definition getMaskedValue :: "IPAddr \<Rightarrow> nat \<Rightarrow> nat \<Rightarrow> int" where
  "getMaskedValue a bitOffset nbits =
     (if nbits = 0 then 0
      else getMaskedValue_loop (data a) 0 (bitOffset div 8) (bitOffset mod 8) 0 nbits)"

text \<open>\<open>toMask\<close>: \<open>1 << k\<close> is JavaScript's 32-bit shift, here only used with \<open>k < 8\<close>.\<close>

primrec toMask_loop :: "8 word list \<Rightarrow> nat \<Rightarrow> int \<Rightarrow> 8 word list" where
  "toMask_loop [] i prefixLen = []"
| "toMask_loop (b # bs) i prefixLen =
     (let bitsOffset = int i * 8 in
      (if bitsOffset \<ge> prefixLen then 0
       else (let nbits = min 8 (prefixLen - bitsOffset);
                 m = 0xff - (push_bit (nat (8 - nbits)) 1 - 1)
             in word_of_int (uint b AND m)) :: 8 word)
      # toMask_loop bs (Suc i) prefixLen)"

definition toMask :: "IPAddr \<Rightarrow> int \<Rightarrow> IPAddr" where
  "toMask a prefixLen = a\<lparr>data := toMask_loop (data a) 0 prefixLen\<rparr>"

text \<open>\<open>fromString\<close> rests on the package \<open>ipaddr.js\<close>: its \<open>isValid\<close> and \<open>parse\<close> (with the
  address' kind and bytes) are parameters.\<close>

definition fromString ::
  "(string \<Rightarrow> bool) \<Rightarrow> (string \<Rightarrow> IPAddressFamily \<times> 8 word list) \<Rightarrow> string \<Rightarrow> IPAddr option" where
  "fromString isValid parse addr =
     (if isValid addr
      then Some \<lparr>data = snd (parse addr),
                 family = (if fst (parse addr) = IPv4 then IPv4 else IPv6)\<rparr>
      else None)"

section \<open>Bits of an address\<close>

definition bits_of_byte :: "8 word \<Rightarrow> bool list" where
  "bits_of_byte b = map (bit b) [7, 6, 5, 4, 3, 2, 1, 0]"

definition addr_bits :: "IPAddr \<Rightarrow> bool list" where
  "addr_bits a = concat (map bits_of_byte (data a))"

fun bits_val :: "bool list \<Rightarrow> int" where
  "bits_val [] = 0"
| "bits_val (b # bs) = of_bool b * 2 ^ length bs + bits_val bs"

lemma length_bits_of_byte [simp]: "length (bits_of_byte b) = 8"
  by (simp add: bits_of_byte_def)

lemma length_concat_bits [simp]: "length (concat (map bits_of_byte bs)) = 8 * length bs"
  by (induction bs) auto

lemma length_addr_bits [simp]: "length (addr_bits a) = 8 * length (data a)"
  by (simp add: addr_bits_def)

lemma bits_val_append: "bits_val (xs @ ys) = bits_val xs * 2 ^ length ys + bits_val ys"
  by (induction xs) (auto simp: power_add algebra_simps)

lemma bits_val_bounds: "0 \<le> bits_val xs \<and> bits_val xs < 2 ^ length xs"
  by (induction xs) auto

lemma bits_val_nonneg [simp]: "0 \<le> bits_val xs" and bits_val_less: "bits_val xs < 2 ^ length xs"
  using bits_val_bounds by auto

lemma bits_val_drop: "bits_val (drop n xs) = bits_val xs mod 2 ^ (length xs - n)"
proof -
  have "bits_val xs = bits_val (take n xs) * 2 ^ length (drop n xs) + bits_val (drop n xs)"
    by (metis append_take_drop_id bits_val_append)
  moreover have "bits_val (drop n xs) < 2 ^ (length xs - n)"
    by (metis bits_val_less length_drop)
  ultimately show ?thesis by simp
qed

lemma bits_val_take: "bits_val (take n xs) = bits_val xs div 2 ^ (length xs - n)"
proof -
  have "bits_val xs = bits_val (take n xs) * 2 ^ (length xs - n) + bits_val (drop n xs)"
    by (metis append_take_drop_id bits_val_append length_drop)
  moreover have "bits_val (drop n xs) < 2 ^ (length xs - n)"
    by (metis bits_val_less length_drop)
  ultimately show ?thesis by (simp add: div_add1_eq)
qed

lemma bits_val_inj: "length xs = length ys \<Longrightarrow> bits_val xs = bits_val ys \<longleftrightarrow> xs = ys"
proof (induction xs ys rule: list_induct2)
  case (Cons x xs y ys)
  have "bits_val xs < 2 ^ length ys" "bits_val ys < 2 ^ length ys"
    and "0 \<le> bits_val xs" "0 \<le> bits_val ys"
    using bits_val_bounds [of xs] bits_val_bounds [of ys] Cons.hyps by auto
  with Cons show ?case by (cases x; cases y) (auto simp del: bits_val_nonneg)
qed simp

lemma bits_val_horner: "bits_val xs = horner_sum of_bool 2 (rev xs)"
  by (induction xs rule: rev_induct) (auto simp: bits_val_append)

lemma bits_val_of_byte [simp]: "bits_val (bits_of_byte b) = uint b"
proof -
  have "rev (bits_of_byte b) = map (bit b) [0..<8]"
    by (simp add: bits_of_byte_def upt_rec numeral_eq_Suc)
  also have "\<dots> = map (bit (uint b)) [0..<8]"
    by (simp add: bit_uint_iff)
  finally show ?thesis
    by (simp add: bits_val_horner horner_sum_bit_eq_take_bit uint_word_of_int_eq
        take_bit_int_eq_self uint_lt2p [where 'a = 8, simplified])
qed

section \<open>What one byte contributes\<close>

lemma drop_bit_hsbmask8:
  assumes "k \<le> 8" "0 \<le> x" "x < 256"
  shows "drop_bit (8 - k) (x AND hsbmask8 k) = drop_bit (8 - k) x"
proof -
  let ?j = "8 - k"
  have "(256::int) = 2 ^ ?j * 2 ^ k"
    using assms(1) by (simp flip: power_add)
  then have "hsbmask8 k = 2 ^ ?j * (2 ^ k - 1)"
    by (simp add: hsbmask8_def push_bit_eq_mult algebra_simps)
  then have "drop_bit ?j (hsbmask8 k) = mask k"
    by (simp add: drop_bit_eq_div mask_eq_exp_minus_1)
  then have "drop_bit ?j (x AND hsbmask8 k) = take_bit k (drop_bit ?j x)"
    by (simp add: take_bit_eq_mask)
  also have "\<dots> = drop_bit ?j (take_bit 8 x)"
    using assms(1) by (simp add: drop_bit_take_bit)
  also have "take_bit 8 x = x"
    using assms by (simp add: take_bit_int_eq_self)
  finally show ?thesis .
qed

lemma uint_byte_less: "uint (b :: 8 word) < 256"
  using uint_lt2p [of b] by simp

lemma byte_slice:
  assumes "o8 + r \<le> 8"
  shows "drop_bit (8 - o8 - r) ((uint b AND revmask8 o8) AND hsbmask8 (o8 + r))
    = bits_val (take r (drop o8 (bits_of_byte b)))"
proof -
  have rm: "uint b AND revmask8 o8 = take_bit (8 - o8) (uint b)"
    by (simp add: revmask8_def take_bit_eq_mask mask_eq_exp_minus_1 push_bit_eq_mult)
  have "take_bit (8 - o8) (uint b) \<le> uint b"
    by (rule take_bit_int_less_eq_self_iff [THEN iffD2]) simp
  with uint_byte_less [of b] have lt: "take_bit (8 - o8) (uint b) < 256"
    by linarith
  have "drop_bit (8 - (o8 + r)) (take_bit (8 - o8) (uint b) AND hsbmask8 (o8 + r))
    = drop_bit (8 - (o8 + r)) (take_bit (8 - o8) (uint b))"
    by (rule drop_bit_hsbmask8) (use assms lt in simp_all)
  also have "\<dots> = (uint b mod 2 ^ (8 - o8)) div 2 ^ (8 - o8 - r)"
    by (simp add: drop_bit_eq_div take_bit_eq_mod)
  also have "\<dots> = bits_val (take r (drop o8 (bits_of_byte b)))"
    by (simp add: bits_val_take bits_val_drop)
  finally show ?thesis by (simp add: rm)
qed

lemma byte_slice_head:
  assumes "r \<le> 8"
  shows "drop_bit (8 - r) (uint b AND hsbmask8 r) = bits_val (take r (bits_of_byte b))"
proof -
  have "uint b AND revmask8 0 = uint b"
    using uint_byte_less [of b]
    by (simp add: revmask8_def push_bit_eq_mult flip: take_bit_eq_mask [of 8 "uint b", simplified mask_eq_exp_minus_1, simplified])
       (simp add: take_bit_int_eq_self)
  with byte_slice [of 0 r b] assms show ?thesis by simp
qed

lemma push_or_add:
  assumes "0 \<le> w" "w < 2 ^ r"
  shows "push_bit r v OR w = v * 2 ^ r + (w :: int)"
proof -
  have "take_bit r w = w" using assms by (simp add: take_bit_int_eq_self)
  then have "push_bit r v OR w = push_bit r v + w"
    by (intro disjunctive_add_eq_or [symmetric] bit_eqI)
       (metis bit_and_iff bit_push_bit_iff bit_take_bit_iff bit_0_eq bot_apply bot_bool_def not_le)
  then show ?thesis by (simp add: push_bit_eq_mult)
qed

section \<open>getMaskedValue reads the addressed bits\<close>

lemma loop_after:
  assumes "byteOffset < i" "n \<le> 8 * length bs"
  shows "getMaskedValue_loop bs i byteOffset bitOffset v n
    = v * 2 ^ n + bits_val (take n (concat (map bits_of_byte bs)))"
  using assms
proof (induction bs arbitrary: i v n)
  case (Cons b bs)
  show ?case
  proof (cases "n = 0")
    case True
    with Cons.IH [of "Suc i" 0 v] Cons.prems show ?thesis by simp
  next
    case False
    let ?r = "min 8 n"
    let ?w = "bits_val (take ?r (bits_of_byte b))"
    have w: "0 \<le> ?w" "?w < 2 ^ ?r"
      using bits_val_less [of "take ?r (bits_of_byte b)"] by auto
    have "getMaskedValue_loop (b # bs) i byteOffset bitOffset v n
      = getMaskedValue_loop bs (Suc i) byteOffset bitOffset (v * 2 ^ ?r + ?w) (n - ?r)"
      using False Cons.prems by (simp add: Let_def byte_slice_head push_or_add [OF w] del: drop_bit_and)
    also have "\<dots> = (v * 2 ^ ?r + ?w) * 2 ^ (n - ?r)
        + bits_val (take (n - ?r) (concat (map bits_of_byte bs)))"
      using Cons.prems by (intro Cons.IH) auto
    also have "\<dots> = v * 2 ^ n + bits_val (take n (concat (map bits_of_byte (b # bs))))"
    proof (cases "n \<le> 8")
      case False
      then obtain m where m: "n = 8 + m" by (metis le_Suc_ex nat_le_linear)
      with Cons.prems have "m \<le> 8 * length bs" by simp
      with m show ?thesis by (simp add: bits_val_append power_add algebra_simps min_def)
    qed (simp add: min_def bits_val_append)
    finally show ?thesis .
  qed
qed simp

lemma loop_before:
  assumes "i \<le> byteOffset" "byteOffset - i < length bs" "bitOffset < 8"
    and "bitOffset + n \<le> 8 * (length bs - (byteOffset - i))"
  shows "getMaskedValue_loop bs i byteOffset bitOffset v n
    = bits_val (take n (drop (8 * (byteOffset - i) + bitOffset) (concat (map bits_of_byte bs))))"
  using assms
proof (induction bs arbitrary: i v)
  case (Cons b bs)
  show ?case
  proof (cases "i < byteOffset")
    case True
    then have "8 * (byteOffset - i) + bitOffset = 8 + (8 * (byteOffset - Suc i) + bitOffset)"
      by arith
    with True Cons.prems Cons.IH [of "Suc i" v] show ?thesis by simp
  next
    case False
    with Cons.prems have i: "i = byteOffset" by simp
    let ?r = "min (8 - bitOffset) n"
    let ?w = "bits_val (take ?r (drop bitOffset (bits_of_byte b)))"
    have "getMaskedValue_loop (b # bs) i byteOffset bitOffset v n
      = getMaskedValue_loop bs (Suc i) byteOffset bitOffset ?w (n - ?r)"
      using i Cons.prems byte_slice [of bitOffset ?r b] by (simp add: Let_def del: drop_bit_and)
    also have "\<dots> = ?w * 2 ^ (n - ?r) + bits_val (take (n - ?r) (concat (map bits_of_byte bs)))"
      using i Cons.prems by (intro loop_after) auto
    also have "\<dots> = bits_val (take n (drop bitOffset (concat (map bits_of_byte (b # bs)))))"
    proof (cases "n \<le> 8 - bitOffset")
      case False
      then obtain m where m: "n = (8 - bitOffset) + m" by (metis le_Suc_ex nat_le_linear)
      with Cons.prems i have "m \<le> 8 * length bs" by simp
      with m Cons.prems show ?thesis by (simp add: bits_val_append min_def) linarith
    qed (simp add: min_def bits_val_append)
    finally show ?thesis using i by simp
  qed
qed simp

lemma getMaskedValue_bits:
  assumes "off + n \<le> length (addr_bits a)"
  shows "getMaskedValue a off n = bits_val (take n (drop off (addr_bits a)))"
proof (cases "n = 0")
  case False
  let ?q = "off div 8" and ?len = "length (data a)"
  have off: "8 * ?q + off mod 8 = off" by simp
  with False assms have "?q < ?len" and "off mod 8 + n \<le> 8 * (?len - ?q)"
    unfolding length_addr_bits by linarith+
  then have "getMaskedValue_loop (data a) 0 ?q (off mod 8) 0 n
    = bits_val (take n (drop (8 * (?q - 0) + off mod 8) (concat (map bits_of_byte (data a)))))"
    by (intro loop_before) simp_all
  with False off show ?thesis by (simp add: getMaskedValue_def addr_bits_def)
qed (simp add: getMaskedValue_def)

section \<open>toMask keeps the prefix and clears the rest\<close>

lemma nth_bits_of_byte: "i < 8 \<Longrightarrow> bits_of_byte b ! i = bit b (7 - i)"
proof -
  assume "i < 8"
  then consider "i = 0" | "i = 1" | "i = 2" | "i = 3" | "i = 4" | "i = 5" | "i = 6" | "i = 7"
    by linarith
  then show ?thesis by cases (simp_all add: bits_of_byte_def)
qed

lemma hsbmask8_push: "k \<le> 8 \<Longrightarrow> hsbmask8 k = push_bit (8 - k) (mask k)"
proof -
  assume "k \<le> 8"
  then have "(256::int) = 2 ^ (8 - k) * 2 ^ k"
    by (simp flip: power_add)
  then show ?thesis
    by (simp add: hsbmask8_def push_bit_eq_mult mask_eq_exp_minus_1 algebra_simps)
qed

lemma bits_of_masked_byte:
  assumes "k \<le> 8"
  shows "bits_of_byte (word_of_int (uint b AND hsbmask8 k))
    = take k (bits_of_byte b) @ replicate (8 - k) False"
proof (rule nth_equalityI)
  fix i assume "i < length (bits_of_byte (word_of_int (uint b AND hsbmask8 k)))"
  then have i: "i < 8" by simp
  then have "bits_of_byte (word_of_int (uint b AND hsbmask8 k)) ! i
    \<longleftrightarrow> bit b (7 - i) \<and> 8 - k \<le> 7 - i"
    using assms by (auto simp: nth_bits_of_byte bit_simps hsbmask8_push)
  also have "\<dots> \<longleftrightarrow> (take k (bits_of_byte b) @ replicate (8 - k) False) ! i"
    using i assms by (auto simp: nth_append nth_bits_of_byte)
  finally show "bits_of_byte (word_of_int (uint b AND hsbmask8 k)) ! i
    \<longleftrightarrow> (take k (bits_of_byte b) @ replicate (8 - k) False) ! i" .
qed (use assms in simp)

lemma bits_of_zero_byte [simp]: "bits_of_byte 0 = replicate 8 False"
  by (simp add: bits_of_byte_def numeral_eq_Suc)

lemma toMask_loop_length [simp]: "length (toMask_loop bs i p) = length bs"
  by (induction bs arbitrary: i) (auto simp: Let_def)

lemma toMask_loop_bits:
  "concat (map bits_of_byte (toMask_loop bs i p)) =
   take (nat (p - 8 * int i)) (concat (map bits_of_byte bs))
   @ replicate (8 * length bs - nat (p - 8 * int i)) False"
proof (induction bs arbitrary: i)
  case (Cons b bs)
  define q where "q = nat (p - 8 * int i)"
  have q: "nat (p - 8 * int (Suc i)) = q - 8" by (simp add: q_def)
  show ?case
  proof (cases "p \<le> int i * 8")
    case True
    then have "q = 0" by (simp add: q_def)
    with True Cons.IH [of "Suc i"] q show ?thesis
      by (simp add: q_def [symmetric] replicate_add [symmetric])
  next
    case False
    define k where "k = min 8 q"
    have k: "k \<le> 8" "nat (8 - min 8 (p - int i * 8)) = 8 - k"
      using False by (auto simp: k_def q_def min_def)
    have "toMask_loop (b # bs) i p
      = word_of_int (uint b AND hsbmask8 k) # toMask_loop bs (Suc i) p"
      using False k(2) by (simp add: Let_def hsbmask8_def)
    then have "concat (map bits_of_byte (toMask_loop (b # bs) i p))
      = (take k (bits_of_byte b) @ replicate (8 - k) False)
        @ take (q - 8) (concat (map bits_of_byte bs)) @ replicate (8 * length bs - (q - 8)) False"
      using k(1) Cons.IH [of "Suc i"] q by (simp add: bits_of_masked_byte)
    also have "\<dots> = take q (concat (map bits_of_byte (b # bs)))
        @ replicate (8 * length (b # bs) - q) False"
      by (cases "q \<le> 8") (simp_all add: k_def min_def replicate_add [symmetric])
    finally show ?thesis by (simp add: q_def)
  qed
qed simp

lemma toMask_bits:
  "addr_bits (toMask a p) =
   take (nat p) (addr_bits a) @ replicate (length (addr_bits a) - nat p) False"
  using toMask_loop_bits [of "data a" 0 p] by (simp add: addr_bits_def toMask_def)

lemma toMask_family [simp]: "family (toMask a p) = family a"
  by (simp add: toMask_def)

lemma toMask_length [simp]: "length (data (toMask a p)) = length (data a)"
  by (simp add: toMask_def)

section \<open>The interface IPAddrLike\<close>

text \<open>What \<open>getMaxBits\<close> of the router gives for a family, and the note on \<open>getBytes\<close>: an IPv4
  address has 4 bytes, an IPv6 address 16.\<close>

definition family_bits :: "IPAddressFamily \<Rightarrow> nat" where
  "family_bits f = (case f of IPv4 \<Rightarrow> 32 | IPv6 \<Rightarrow> 128)"

definition wf_addr :: "IPAddr \<Rightarrow> bool" where
  "wf_addr a \<longleftrightarrow> 8 * length (data a) = family_bits (family a)"

locale ip_addr_like =
  fixes wf :: "'a \<Rightarrow> bool"
    and fam :: "'a \<Rightarrow> IPAddressFamily"
    and gmv :: "'a \<Rightarrow> nat \<Rightarrow> nat \<Rightarrow> int"
    and bits :: "'a \<Rightarrow> bool list"
  assumes bits_length: "wf a \<Longrightarrow> length (bits a) = family_bits (fam a)"
    and gmv_bits: "wf a \<Longrightarrow> off + n \<le> family_bits (fam a) \<Longrightarrow>
      gmv a off n = bits_val (take n (drop off (bits a)))"
begin

text \<open>Two addresses of a family give the same segment value exactly when they have the same
  bits there.\<close>

lemma gmv_eq_iff:
  assumes "wf a" "wf b" "fam a = fam b" "off + n \<le> family_bits (fam a)"
  shows "gmv a off n = gmv b off n \<longleftrightarrow> take n (drop off (bits a)) = take n (drop off (bits b))"
  using assms by (simp add: gmv_bits bits_val_inj bits_length)

lemma gmv_range:
  assumes "wf a" "off + n \<le> family_bits (fam a)"
  shows "0 \<le> gmv a off n \<and> gmv a off n < 2 ^ n"
proof -
  have "length (take n (drop off (bits a))) = n"
    using assms by (simp add: bits_length)
  with bits_val_bounds [of "take n (drop off (bits a))"] assms show ?thesis
    by (simp add: gmv_bits)
qed

end

interpretation ipaddr: ip_addr_like wf_addr getFamily getMaskedValue addr_bits
  by unfold_locales (auto simp: wf_addr_def getFamily_def intro!: getMaskedValue_bits)

lemma wf_addr_toMask [simp]: "wf_addr (toMask a p) \<longleftrightarrow> wf_addr a"
  by (simp add: wf_addr_def)

section \<open>Properties\<close>

text \<open>\<open>getMaskedValue\<close> returns the big-endian value of exactly the \<open>nbits\<close> bits of the address
  that start at \<open>bitOffset\<close>, whatever byte boundaries they cross.\<close>

theorem getMaskedValue_reads_bits:
  assumes "bitOffset + nbits \<le> 8 * length (data a)"
  shows "getMaskedValue a bitOffset nbits
    = bits_val (addr_bits a) div 2 ^ (8 * length (data a) - bitOffset - nbits) mod 2 ^ nbits"
proof -
  let ?B = "addr_bits a" and ?N = "8 * length (data a)"
  have "take nbits (drop bitOffset ?B) = drop bitOffset (take (bitOffset + nbits) ?B)"
    by (simp add: drop_take)
  moreover have "bits_val (drop bitOffset (take (bitOffset + nbits) ?B))
    = bits_val ?B div 2 ^ (?N - bitOffset - nbits) mod 2 ^ nbits"
    using assms by (simp add: bits_val_drop bits_val_take min_absorb2)
  ultimately show ?thesis using assms by (simp add: getMaskedValue_bits)
qed

theorem getMaskedValue_reads_bits_witness:
  "getMaskedValue \<lparr>data = [10, 1, 2, 3], family = IPv4\<rparr> 6 12 = 0x804"
proof -
  let ?a = "\<lparr>data = [10, 1, 2, 3], family = IPv4\<rparr>"
  have "getMaskedValue ?a 6 12
    = bits_val (addr_bits ?a) div 2 ^ (8 * length (data ?a) - 6 - 12) mod 2 ^ 12"
    by (rule getMaskedValue_reads_bits) simp
  also have "\<dots> = 0x804" by code_simp
  finally show ?thesis .
qed

text \<open>\<open>toMask p\<close> keeps the first \<open>p\<close> bits of the address, clears all later ones, and changes
  neither the family nor the length.\<close>

theorem toMask_keeps_prefix:
  "addr_bits (toMask a p) = take (nat p) (addr_bits a) @ replicate (8 * length (data a) - nat p) False
   \<and> getFamily (toMask a p) = getFamily a \<and> length (getBytes (toMask a p)) = length (getBytes a)"
  by (simp add: toMask_bits getFamily_def getBytes_def)

end
