(* ===== verification/Router.thy ===== *)
theory Router
  imports Ip_Addr
begin

text \<open>
  \<^verbatim>\<open>web/utls/router.ts\<close>: the multi-level route table. \<open>getTrieTreeSegmentLengths\<close> chooses
  the bits each trie level consumes, \<open>doInsertRoute\<close> puts a route at the node its prefix
  length reaches, \<open>doLookup\<close> walks the trie and falls back to the deepest node with routes.
  The code works on any \<open>IPAddrLike\<close>: the methods \<open>getFamily\<close> and \<open>getMaskedValue\<close> of the
  addresses are the parameters \<open>fam\<close> and \<open>gmv\<close>.
\<close>

section \<open>Data\<close>

record ('a, 'v) Route =
  networkAddr :: 'a
  prefixLength :: int
  route_value :: "'v option"

datatype 'r NodeEntry =
  NodeEntry (nextHeader: "'r NodeEntryNextHeader option") (node_routes: "'r list option")
and 'r NodeEntryNextHeader =
  NextHeader (segmentLength: int) (seg2SubTrees: "string \<Rightarrow> 'r NodeEntry option")

text \<open>\<open>getMaxBits\<close>: the \<open>throw\<close> of the source needs a third family, which the type excludes.\<close>

definition getMaxBits :: "IPAddressFamily \<Rightarrow> int" where
  "getMaxBits f = (if f = IPv4 then 32 else 128)"

lemma getMaxBits_family: "getMaxBits f = int (family_bits f)"
  by (cases f) (simp_all add: getMaxBits_def family_bits_def)

lemma getMaxBits_pos: "0 < getMaxBits f"
  by (simp add: getMaxBits_def)

section \<open>Operations\<close>

function doLookup ::
  "('a \<Rightarrow> nat \<Rightarrow> nat \<Rightarrow> int) \<Rightarrow> 'r NodeEntry \<Rightarrow> 'a \<Rightarrow> int \<Rightarrow> int
    \<Rightarrow> ('r list option \<times> int) result" where
  "doLookup gmv tableEntry ipAddress matchedPrefixLen maxBits =
     (let currentDefault = (node_routes tableEntry, matchedPrefixLen) in
      case nextHeader tableEntry of
        None \<Rightarrow> Inr currentDefault
      | Some hdr \<Rightarrow>
          if matchedPrefixLen = maxBits then Inr currentDefault
          else if segmentLength hdr \<le> 0 \<or> segmentLength hdr + matchedPrefixLen > maxBits
          then Inl (JSError ''Invalid segment length'')
          else
            (let segment = gmv ipAddress (nat matchedPrefixLen) (nat (segmentLength hdr)) in
             case seg2SubTrees hdr (int_to_string segment) of
               None \<Rightarrow> Inr currentDefault
             | Some nextTb \<Rightarrow>
                 (case doLookup gmv nextTb ipAddress
                         (matchedPrefixLen + segmentLength hdr) maxBits of
                    Inl e \<Rightarrow> Inl e
                  | Inr lookupResult \<Rightarrow>
                      (case fst lookupResult of
                         None \<Rightarrow> Inr currentDefault
                       | Some rs \<Rightarrow> if length rs > 0 then Inr lookupResult
                                   else Inr currentDefault))))"
  by pat_completeness auto
termination
  by (relation "measure (\<lambda>(gmv, t, ip, m, mx). nat (mx - m))") auto

declare doLookup.simps [simp del]

text \<open>The in-place loop \<open>for (i = 1; ...) seg[i] = seg[i] - seg[i-1]\<close>: the subtrahend is the
  element already overwritten by the previous round.\<close>

fun diff_loop :: "int \<Rightarrow> int list \<Rightarrow> int list" where
  "diff_loop prev [] = []"
| "diff_loop prev (x # xs) = (x - prev) # diff_loop (x - prev) xs"

definition getTrieTreeSegmentLengths :: "('a, 'v) Route list \<Rightarrow> int list" where
  "getTrieTreeSegmentLengths rs =
     (if length rs = 0 then []
      else (let segmentLengths = js_sort (\<lambda>a b. a - b) (map prefixLength rs);
                segmentLengths =
                  (case segmentLengths of [] \<Rightarrow> [] | x # xs \<Rightarrow> x # diff_loop x xs)
            in filter (\<lambda>seg. seg > 0) segmentLengths))"

function doInsertRoute ::
  "('a \<Rightarrow> nat \<Rightarrow> nat \<Rightarrow> int) \<Rightarrow> ('a, 'v) Route NodeEntry option \<Rightarrow> ('a, 'v) Route
    \<Rightarrow> int list \<Rightarrow> nat \<Rightarrow> int \<Rightarrow> ('a, 'v) Route NodeEntry" where
  "doInsertRoute gmv tableRoot route segments levelIndex eatenPrefixLen =
     (let tableRoot = (case tableRoot of None \<Rightarrow> NodeEntry None None | Some t \<Rightarrow> t);
          here = NodeEntry (nextHeader tableRoot) (Some (nullish (node_routes tableRoot) [] @ [route]))
      in if \<not> levelIndex < length segments then here
         else
           (let segment = segments ! levelIndex in
            if eatenPrefixLen + segment > prefixLength route then here
            else
              (let seg = int_to_string (gmv (networkAddr route) (nat eatenPrefixLen) (nat segment));
                   subTrees = (case nextHeader tableRoot of None \<Rightarrow> (\<lambda>_. None)
                               | Some hdr \<Rightarrow> seg2SubTrees hdr)
               in NodeEntry
                    (Some (NextHeader segment
                       (subTrees(seg \<mapsto>
                          doInsertRoute gmv (subTrees seg) route segments (Suc levelIndex)
                            (eatenPrefixLen + segment)))))
                    (node_routes tableRoot))))"
  by pat_completeness auto
termination
  by (relation "measure (\<lambda>(gmv, t, r, segs, lvl, e). length segs - lvl)") auto

declare doInsertRoute.simps [simp del]

record ('a, 'v) RouteTableWrapper =
  table4 :: "('a, 'v) Route NodeEntry option"
  table6 :: "('a, 'v) Route NodeEntry option"

definition build_family ::
  "('a \<Rightarrow> nat \<Rightarrow> nat \<Rightarrow> int) \<Rightarrow> ('a, 'v) Route list \<Rightarrow> ('a, 'v) Route NodeEntry option" where
  "build_family gmv rs =
     (let segments = getTrieTreeSegmentLengths rs
      in foldl (\<lambda>table route. Some (doInsertRoute gmv table route segments 0 0)) None rs)"

definition buildTable ::
  "('a \<Rightarrow> IPAddressFamily) \<Rightarrow> ('a \<Rightarrow> nat \<Rightarrow> nat \<Rightarrow> int) \<Rightarrow> ('a, 'v) Route list
    \<Rightarrow> ('a, 'v) RouteTableWrapper" where
  "buildTable fam gmv rs =
     \<lparr>table4 = build_family gmv (filter (\<lambda>r. fam (networkAddr r) = IPv4) rs),
      table6 = build_family gmv (filter (\<lambda>r. fam (networkAddr r) = IPv6) rs)\<rparr>"

definition table_lookup ::
  "('a \<Rightarrow> IPAddressFamily) \<Rightarrow> ('a \<Rightarrow> nat \<Rightarrow> nat \<Rightarrow> int) \<Rightarrow> ('a, 'v) RouteTableWrapper \<Rightarrow> 'a
    \<Rightarrow> ('a, 'v) Route list result" where
  "table_lookup fam gmv w ipAddress =
     (case (if fam ipAddress = IPv4 then table4 w else table6 w) of
        None \<Rightarrow> Inr []
      | Some table \<Rightarrow>
          (case doLookup gmv table ipAddress 0 (getMaxBits (fam ipAddress)) of
             Inl e \<Rightarrow> Inl e
           | Inr res \<Rightarrow> Inr (nullish (fst res) [])))"

section \<open>The segment lengths\<close>

lemma diff_loop_bounds:
  assumes "0 \<le> prev" "\<forall>x\<in>set xs. prev \<le> x" "sorted xs"
  shows "\<forall>d\<in>set (diff_loop prev xs). 0 \<le> d"
  using assms
proof (induction prev xs rule: diff_loop.induct)
  case (2 prev x xs)
  then have "\<forall>d\<in>set (diff_loop (x - prev) xs). 0 \<le> d"
    by (intro "2.IH") auto
  with 2 show ?case by simp
qed simp

lemma segment_lengths_pos: "s \<in> set (getTrieTreeSegmentLengths rs) \<Longrightarrow> 0 < s"
  by (auto simp: getTrieTreeSegmentLengths_def Let_def split: if_splits)

text \<open>How many bits of a prefix of length \<open>p\<close> the levels \<open>segs\<close> consume after \<open>e\<close> bits:
  the depth of the node a route is stored at.\<close>

fun effLen :: "int list \<Rightarrow> int \<Rightarrow> int \<Rightarrow> int" where
  "effLen [] e p = e"
| "effLen (s # ss) e p = (if e + s > p then e else effLen ss (e + s) p)"

lemma effLen_ge: "\<forall>s\<in>set segs. 0 < s \<Longrightarrow> e \<le> effLen segs e p"
  by (induction segs e p rule: effLen.induct) force+

lemma effLen_le: "e \<le> p \<Longrightarrow> effLen segs e p \<le> p"
  by (induction segs e p rule: effLen.induct) auto

text \<open>Cumulative level boundaries: the routes of a prefix length that is a boundary are
  stored at exactly that depth.\<close>

fun boundaries :: "int list \<Rightarrow> int \<Rightarrow> int list" where
  "boundaries [] e = [e]"
| "boundaries (s # ss) e = e # boundaries ss (e + s)"

lemma boundaries_ge: "\<forall>s\<in>set segs. 0 < s \<Longrightarrow> b \<in> set (boundaries segs e) \<Longrightarrow> e \<le> b"
  by (induction segs e rule: boundaries.induct) force+

lemma effLen_boundary:
  "\<forall>s\<in>set segs. 0 < s \<Longrightarrow> p \<in> set (boundaries segs e) \<Longrightarrow> effLen segs e p = p"
proof (induction segs e p rule: effLen.induct)
  case (2 s ss e p)
  then show ?case using boundaries_ge [of ss p "e + s"] by (cases "p = e") auto
qed simp

lemma effLen_greatest:
  "\<forall>s\<in>set segs. 0 < s \<Longrightarrow> e \<le> p \<Longrightarrow> effLen segs e p = Max {b \<in> set (boundaries segs e). b \<le> p}"
proof (induction segs e p rule: effLen.induct)
  case (1 e p)
  then have "{b \<in> set (boundaries [] e). b \<le> p} = {e}" by auto
  then show ?case by simp
next
  case (2 s ss e p)
  have g: "e + s \<le> b" if "b \<in> set (boundaries ss (e + s))" for b
    using that 2(2) by (intro boundaries_ge) auto
  show ?case
  proof (cases "e + s > p")
    case True
    then have "{b \<in> set (boundaries (s # ss) e). b \<le> p} = {e}" using g 2(3) by fastforce
    then show ?thesis using True by simp
  next
    case False
    let ?B = "{b \<in> set (boundaries ss (e + s)). b \<le> p}"
    have "e + s \<in> ?B" using False by (cases ss) auto
    then have "e + s \<le> Max ?B" by (intro Max_ge) auto
    moreover have "{b \<in> set (boundaries (s # ss) e). b \<le> p} = insert e ?B" using 2(3) by auto
    moreover have "effLen ss (e + s) p = Max ?B" using 2 False by auto
    moreover have "0 < s" using 2(2) by simp
    moreover have "Max (insert e ?B) = max e (Max ?B)" using \<open>e + s \<in> ?B\<close> by (intro Max_insert) auto
    ultimately show ?thesis using False by simp
  qed
qed

section \<open>The trie as a function of the routes\<close>

text \<open>\<open>trie_of segs e rs\<close> is the node that holds the routes \<open>rs\<close>, all agreeing on the first
  \<open>e\<close> bits: the routes that stop here, and one subtree per segment value for the others. It is
  the specification the incremental insertion is shown to compute.\<close>

definition seg_key :: "('a \<Rightarrow> nat \<Rightarrow> nat \<Rightarrow> int) \<Rightarrow> int \<Rightarrow> int \<Rightarrow> 'a \<Rightarrow> string" where
  "seg_key gmv e s a = int_to_string (gmv a (nat e) (nat s))"

definition some_if :: "'b list \<Rightarrow> 'b list option" where
  "some_if xs = (if xs = [] then None else Some xs)"

primrec trie_of ::
  "('a \<Rightarrow> nat \<Rightarrow> nat \<Rightarrow> int) \<Rightarrow> int list \<Rightarrow> int \<Rightarrow> ('a, 'v) Route list
    \<Rightarrow> ('a, 'v) Route NodeEntry option" where
  "trie_of gmv [] e rs = (if rs = [] then None else Some (NodeEntry None (Some rs)))"
| "trie_of gmv (s # ss) e rs =
     (if rs = [] then None
      else (let deep = filter (\<lambda>r. e + s \<le> prefixLength r) rs in
        Some (NodeEntry
          (if deep = [] then None
           else Some (NextHeader s (\<lambda>k. trie_of gmv ss (e + s)
                  (filter (\<lambda>r. seg_key gmv e s (networkAddr r) = k) deep))))
          (some_if (filter (\<lambda>r. prefixLength r < e + s) rs)))))"

lemma trie_of_Nil [simp]: "trie_of gmv segs e [] = None"
  by (cases segs) simp_all

lemma trie_of_eq_None [simp]: "trie_of gmv segs e rs = None \<longleftrightarrow> rs = []"
  by (cases segs) (simp_all add: Let_def)

lemma nullish_some_if [simp]: "nullish (some_if xs) [] = xs"
  by (simp add: some_if_def)

lemma some_if_append [simp]: "some_if (xs @ [x]) = Some (xs @ [x])"
  by (simp add: some_if_def)

lemma insert_trie_of:
  assumes "segs = drop lvl segments"
  shows "Some (doInsertRoute gmv (trie_of gmv segs e rs) r segments lvl e)
    = trie_of gmv segs e (rs @ [r])"
  using assms
proof (induction segs arbitrary: lvl e rs)
  case Nil
  then have "\<not> lvl < length segments" by simp
  then show ?case
    by (subst doInsertRoute.simps) (simp add: Let_def split: if_splits)
next
  case (Cons s ss)
  then have lvl: "lvl < length segments" "segments ! lvl = s" "ss = drop (Suc lvl) segments"
    by (metis drop_eq_Nil2 linorder_not_less list.discI,
        metis nth_via_drop, metis list.sel(3) tl_drop drop_Suc)
  let ?root = "case trie_of gmv (s # ss) e rs of None \<Rightarrow> NodeEntry None None | Some t \<Rightarrow> t"
  let ?deep = "filter (\<lambda>r. e + s \<le> prefixLength r) rs"
  let ?here = "filter (\<lambda>r. prefixLength r < e + s) rs"
  let ?sub = "\<lambda>k. trie_of gmv ss (e + s) (filter (\<lambda>r. seg_key gmv e s (networkAddr r) = k) ?deep)"
  have none: "filter (\<lambda>x. e + s \<le> prefixLength x \<and> seg_key gmv e s (networkAddr x) = k) rs = []"
    if "?deep = []" for k
    using that by (auto simp: filter_empty_conv)
  have root: "node_routes ?root = some_if ?here"
    "(case nextHeader ?root of None \<Rightarrow> (\<lambda>_. None) | Some hdr \<Rightarrow> seg2SubTrees hdr) = ?sub"
    "nextHeader ?root = (if ?deep = [] then None else Some (NextHeader s ?sub))"
    by (auto simp: Let_def some_if_def none fun_eq_iff)
  show ?case
  proof (cases "e + s > prefixLength r")
    case True
    then have "doInsertRoute gmv (trie_of gmv (s # ss) e rs) r segments lvl e
      = NodeEntry (nextHeader ?root) (Some (nullish (node_routes ?root) [] @ [r]))"
      using lvl by (subst doInsertRoute.simps) (simp add: Let_def)
    with True show ?thesis by (simp add: root Let_def)
  next
    case False
    let ?k = "seg_key gmv e s (networkAddr r)"
    have "doInsertRoute gmv (trie_of gmv (s # ss) e rs) r segments lvl e
      = NodeEntry (Some (NextHeader s (?sub(?k \<mapsto>
          doInsertRoute gmv (?sub ?k) r segments (Suc lvl) (e + s))))) (some_if ?here)"
      using False lvl root
      by (subst doInsertRoute.simps) (simp add: Let_def seg_key_def)
    moreover have "Some (doInsertRoute gmv (?sub ?k) r segments (Suc lvl) (e + s))
      = trie_of gmv ss (e + s) (filter (\<lambda>r. seg_key gmv e s (networkAddr r) = ?k) ?deep @ [r])"
      using lvl(3) by (rule Cons.IH)
    ultimately show ?thesis
      using False by (auto simp: Let_def fun_eq_iff)
  qed
qed

lemma build_family_trie_of:
  "build_family gmv rs = trie_of gmv (getTrieTreeSegmentLengths rs) 0 rs"
proof -
  let ?segs = "getTrieTreeSegmentLengths rs"
  have "foldl (\<lambda>table route. Some (doInsertRoute gmv table route ?segs 0 0))
      (trie_of gmv ?segs 0 xs) ys = trie_of gmv ?segs 0 (xs @ ys)" for xs ys
    by (induction ys arbitrary: xs) (simp_all add: insert_trie_of)
  from this [of "[]" rs] show ?thesis by (simp add: build_family_def Let_def)
qed

section \<open>Lookup against the reference trie\<close>

text \<open>\<open>agree bits a b n m\<close>: the bits \<open>n, ..., m - 1\<close> of two addresses are the same.\<close>

definition agree :: "('a \<Rightarrow> bool list) \<Rightarrow> 'a \<Rightarrow> 'a \<Rightarrow> int \<Rightarrow> int \<Rightarrow> bool" where
  "agree bits a b n m \<longleftrightarrow>
     take (nat (m - n)) (drop (nat n) (bits a)) = take (nat (m - n)) (drop (nat n) (bits b))"

lemma agree_refl_empty [simp]: "agree bits a b n n"
  by (simp add: agree_def)

lemma agree_split:
  assumes "length (bits a) = length (bits b)" "0 \<le> n" "n \<le> k" "k \<le> m"
  shows "agree bits a b n m \<longleftrightarrow> agree bits a b n k \<and> agree bits a b k m"
proof -
  have "nat (m - n) = nat (k - n) + nat (m - k)" "nat k = nat n + nat (k - n)"
    using assms by (simp_all flip: nat_add_distrib)
  with assms(1) show ?thesis
    by (simp add: agree_def take_add add.commute [of "nat n"] flip: drop_drop)
qed

text \<open>The routes the table returns: of those that agree with the address on their stored
  prefix, the ones stored deepest, in insertion order.\<close>

definition best_routes ::
  "('a \<Rightarrow> bool list) \<Rightarrow> int list \<Rightarrow> int \<Rightarrow> 'a \<Rightarrow> ('a, 'v) Route list \<Rightarrow> ('a, 'v) Route list" where
  "best_routes bits segs e ip rs =
     (let depth = (\<lambda>r. effLen segs e (prefixLength r));
          hit = (\<lambda>r. agree bits (networkAddr r) ip e (depth r))
      in filter (\<lambda>r. hit r \<and> (\<forall>r'\<in>set rs. hit r' \<longrightarrow> depth r' \<le> depth r)) rs)"

lemma best_routes_nonempty:
  assumes "r \<in> set rs" "agree bits (networkAddr r) ip e (effLen segs e (prefixLength r))"
  shows "best_routes bits segs e ip rs \<noteq> []"
proof -
  let ?depth = "\<lambda>r. effLen segs e (prefixLength r)"
  let ?H = "{r \<in> set rs. agree bits (networkAddr r) ip e (?depth r)}"
  have fin: "finite (?depth ` ?H)" and ne: "?depth ` ?H \<noteq> {}" using assms by auto
  from Max_in [OF fin ne] obtain m where m: "m \<in> ?H" "?depth m = Max (?depth ` ?H)" by auto
  have "\<forall>r'\<in>?H. ?depth r' \<le> ?depth m" using m(2) fin by auto
  with m(1) have "m \<in> set (best_routes bits segs e ip rs)"
    by (auto simp: best_routes_def Let_def)
  then show ?thesis by auto
qed

context ip_addr_like
begin

definition routes_ok :: "('a, 'v) Route list \<Rightarrow> 'a \<Rightarrow> int \<Rightarrow> bool" where
  "routes_ok rs ip e \<longleftrightarrow> (\<forall>r\<in>set rs. wf (networkAddr r) \<and> fam (networkAddr r) = fam ip
     \<and> e \<le> prefixLength r \<and> prefixLength r \<le> int (family_bits (fam ip)))"

text \<open>A route that goes below this level is hit exactly when it lies in the addressed subtree
  and is hit there.\<close>

lemma hit_below:
  assumes "routes_ok rs ip e" "r \<in> set rs" "e + s \<le> prefixLength r" "0 \<le> e" "0 < s" "wf ip"
    and d: "e + s \<le> d"
  shows "agree bits (networkAddr r) ip e d \<longleftrightarrow>
    seg_key gmv e s (networkAddr r) = seg_key gmv e s ip \<and> agree bits (networkAddr r) ip (e + s) d"
proof -
  have rw: "wf (networkAddr r)" "fam (networkAddr r) = fam ip"
      "prefixLength r \<le> int (family_bits (fam ip))"
    using assms(1,2) by (auto simp: routes_ok_def)
  then have len: "length (bits (networkAddr r)) = length (bits ip)"
    using \<open>wf ip\<close> by (simp add: bits_length)
  have "int (nat e + nat s) \<le> int (family_bits (fam (networkAddr r)))"
    using rw assms by simp
  then have "nat e + nat s \<le> family_bits (fam (networkAddr r))"
    by (simp only: of_nat_le_iff)
  then have "gmv (networkAddr r) (nat e) (nat s) = gmv ip (nat e) (nat s)
      \<longleftrightarrow> agree bits (networkAddr r) ip e (e + s)"
    using gmv_eq_iff [OF rw(1) \<open>wf ip\<close> rw(2)] \<open>0 < s\<close> by (simp add: agree_def)
  then show ?thesis
    using agree_split [where bits = bits, OF len \<open>0 \<le> e\<close>, of "e + s" d] assms
    by (simp add: seg_key_def)
qed

text \<open>One level of the specification: if a route of the addressed subtree is hit, the answer is
  that subtree's; otherwise it is the routes stored at this node.\<close>

lemma best_routes_step:
  assumes ok: "routes_ok rs ip e" and e: "0 \<le> e" and s: "0 < s" and ss: "\<forall>x\<in>set ss. 0 < x"
    and wfi: "wf ip"
  defines "sub \<equiv> filter (\<lambda>r. e + s \<le> prefixLength r
      \<and> seg_key gmv e s (networkAddr r) = seg_key gmv e s ip) rs"
  shows "best_routes bits (s # ss) e ip rs =
    (if best_routes bits ss (e + s) ip sub \<noteq> [] then best_routes bits ss (e + s) ip sub
     else filter (\<lambda>r. prefixLength r < e + s) rs)"
proof -
  let ?d = "\<lambda>r. effLen (s # ss) e (prefixLength r)"
  let ?d' = "\<lambda>r. effLen ss (e + s) (prefixLength r)"
  let ?hit = "\<lambda>r. agree bits (networkAddr r) ip e (?d r)"
  let ?hit' = "\<lambda>r. agree bits (networkAddr r) ip (e + s) (?d' r)"
  let ?best' = "\<lambda>r. r \<in> set sub \<and> ?hit' r \<and> (\<forall>r'\<in>set sub. ?hit' r' \<longrightarrow> ?d' r' \<le> ?d' r)"
  have d': "e + s \<le> ?d' r" for r using effLen_ge [OF ss] .
  have deep: "?hit r \<longleftrightarrow> r \<in> set sub \<and> ?hit' r" "?d r = ?d' r"
    if "r \<in> set rs" "e + s \<le> prefixLength r" for r
    using hit_below [OF ok that e s wfi d' [of r]] that by (simp_all add: sub_def)
  have here: "?hit r" "?d r = e" if "prefixLength r < e + s" for r
    using that by simp_all
  have sub: "r \<in> set rs" "e + s \<le> prefixLength r" if "r \<in> set sub" for r
    using that by (simp_all add: sub_def)
  have best': "best_routes bits ss (e + s) ip sub = filter ?best' rs"
    unfolding best_routes_def Let_def sub_def by (auto intro!: filter_cong)
  show ?thesis
  proof (cases "\<exists>r\<in>set sub. ?hit' r")
    case True
    then obtain r0 where r0: "r0 \<in> set sub" "?hit' r0" by auto
    then have "best_routes bits ss (e + s) ip sub \<noteq> []"
      using best_routes_nonempty [of r0 sub bits ip "e + s" ss] by blast
    moreover have "best_routes bits (s # ss) e ip rs = filter ?best' rs"
      unfolding best_routes_def Let_def
    proof (intro filter_cong refl iffI)
      fix r assume r: "r \<in> set rs" and "?hit r \<and> (\<forall>r'\<in>set rs. ?hit r' \<longrightarrow> ?d r' \<le> ?d r)"
      then have hit: "?hit r" and max: "\<And>r'. r' \<in> set rs \<Longrightarrow> ?hit r' \<Longrightarrow> ?d r' \<le> ?d r" by auto
      have "?d' r0 \<le> ?d r" using max [of r0] sub [OF r0(1)] r0 deep [of r0] by simp
      then have "?d r \<noteq> e" using d' [of r0] s by linarith
      then have long: "e + s \<le> prefixLength r" using here(2) [of r] by (meson linorder_not_less)
      with hit r deep sub max show "?best' r" by metis
    next
      fix r assume r: "r \<in> set rs" and b: "?best' r"
      then have "?hit r" "?d r = ?d' r" using deep [OF r] sub(2) [of r] by blast+
      moreover have "?d r' \<le> ?d' r" if "r' \<in> set rs" "?hit r'" for r'
        using that b deep [of r'] here(2) [of r'] d' [of r] s by (cases "e + s \<le> prefixLength r'") auto
      ultimately show "?hit r \<and> (\<forall>r'\<in>set rs. ?hit r' \<longrightarrow> ?d r' \<le> ?d r)" by simp
    qed
    ultimately show ?thesis using best' by simp
  next
    case False
    then have "filter ?best' rs = []" by (auto simp: filter_empty_conv)
    moreover have "best_routes bits (s # ss) e ip rs = filter (\<lambda>r. prefixLength r < e + s) rs"
      unfolding best_routes_def Let_def
    proof (intro filter_cong refl)
      fix r assume "r \<in> set rs"
      with False deep here show "(?hit r \<and> (\<forall>r'\<in>set rs. ?hit r' \<longrightarrow> ?d r' \<le> ?d r)) \<longleftrightarrow>
          prefixLength r < e + s"
        by (metis linorder_not_less order_refl)
    qed
    ultimately show ?thesis using best' by simp
  qed
qed

lemma routes_ok_sub:
  "routes_ok rs ip e \<Longrightarrow> routes_ok (filter (\<lambda>r. e + s \<le> prefixLength r \<and> P r) rs) ip (e + s)"
  by (auto simp: routes_ok_def)

lemma lookup_trie_of:
  assumes "routes_ok rs ip e" "0 \<le> e" "\<forall>x\<in>set segs. 0 < x" "wf ip"
    and "trie_of gmv segs e rs = Some t"
  shows "\<exists>m. doLookup gmv t ip e (int (family_bits (fam ip)))
    = Inr (some_if (best_routes bits segs e ip rs), m)"
  using assms
proof (induction segs arbitrary: e rs t)
  case Nil
  then have "t = NodeEntry None (Some rs)" "rs \<noteq> []" by (auto split: if_splits)
  then show ?case
    by (subst doLookup.simps) (simp add: Let_def best_routes_def some_if_def)
next
  case (Cons s ss)
  let ?mx = "int (family_bits (fam ip))"
  let ?deep = "filter (\<lambda>r. e + s \<le> prefixLength r) rs"
  let ?here = "filter (\<lambda>r. prefixLength r < e + s) rs"
  let ?sub = "filter (\<lambda>r. e + s \<le> prefixLength r
      \<and> seg_key gmv e s (networkAddr r) = seg_key gmv e s ip) rs"
  have s: "0 < s" and ss: "\<forall>x\<in>set ss. 0 < x" using Cons.prems(3) by auto
  have best: "best_routes bits (s # ss) e ip rs =
      (if best_routes bits ss (e + s) ip ?sub \<noteq> [] then best_routes bits ss (e + s) ip ?sub else ?here)"
    using best_routes_step [OF Cons.prems(1,2) s ss Cons.prems(4)] .
  have t: "node_routes t = some_if ?here"
    using Cons.prems(5) by (auto simp: Let_def split: if_splits)
  show ?case
  proof (cases "?deep = []")
    case True
    then have "nextHeader t = None" "?sub = []"
      using Cons.prems(5) by (auto simp: Let_def filter_empty_conv split: if_splits)
    with t best show ?thesis
      by (subst doLookup.simps) (simp add: Let_def best_routes_def)
  next
    case False
    define T where "T = (\<lambda>k. trie_of gmv ss (e + s)
      (filter (\<lambda>r. seg_key gmv e s (networkAddr r) = k) ?deep))"
    have hdr: "nextHeader t = Some (NextHeader s T)"
      using Cons.prems(5) False by (auto simp: Let_def T_def split: if_splits)
    have Tk: "T (int_to_string (gmv ip (nat e) (nat s))) = trie_of gmv ss (e + s) ?sub"
      by (simp add: T_def seg_key_def conj_commute)
    from False obtain r where "r \<in> set rs" "e + s \<le> prefixLength r"
      by (auto simp: filter_empty_conv)
    with Cons.prems(1) have room: "e + s \<le> ?mx" by (auto simp: routes_ok_def)
    show ?thesis
    proof (cases "trie_of gmv ss (e + s) ?sub")
      case None
      then have "best_routes bits ss (e + s) ip ?sub = []"
        by (simp add: best_routes_def filter_empty_conv)
      with None t best hdr Tk room s show ?thesis
        by (subst doLookup.simps) (simp add: Let_def add.commute)
    next
      case (Some t')
      with Cons.IH [OF routes_ok_sub [OF Cons.prems(1)] _ ss Cons.prems(4)] Cons.prems(2) s
      obtain m where "doLookup gmv t' ip (e + s) ?mx
        = Inr (some_if (best_routes bits ss (e + s) ip ?sub), m)" by force
      with Some t best hdr Tk room s show ?thesis
        by (subst doLookup.simps) (auto simp: Let_def some_if_def add.commute)
    qed
  qed
qed

lemma table_lookup_best:
  assumes "wf ip" "\<forall>r\<in>set rs. wf (networkAddr r) \<and> 0 \<le> prefixLength r
      \<and> prefixLength r \<le> int (family_bits (fam (networkAddr r)))"
  defines "mine \<equiv> filter (\<lambda>r. fam (networkAddr r) = fam ip) rs"
  shows "table_lookup fam gmv (buildTable fam gmv rs) ip
    = Inr (best_routes bits (getTrieTreeSegmentLengths mine) 0 ip mine)"
proof -
  let ?segs = "getTrieTreeSegmentLengths mine"
  have tab: "(if fam ip = IPv4 then table4 (buildTable fam gmv rs) else table6 (buildTable fam gmv rs))
      = trie_of gmv ?segs 0 mine"
    by (cases "fam ip") (simp_all add: buildTable_def build_family_trie_of mine_def)
  have ok: "routes_ok mine ip 0" using assms by (auto simp: routes_ok_def mine_def)
  show ?thesis
  proof (cases "trie_of gmv ?segs 0 mine")
    case None
    then show ?thesis using tab by (simp add: table_lookup_def best_routes_def)
  next
    case (Some t)
    with lookup_trie_of [OF ok _ _ \<open>wf ip\<close> Some] segment_lengths_pos [of _ mine]
    obtain m where "doLookup gmv t ip 0 (int (family_bits (fam ip)))
      = Inr (some_if (best_routes bits ?segs 0 ip mine), m)" by auto
    with Some tab show ?thesis by (simp add: table_lookup_def getMaxBits_family)
  qed
qed

end

section \<open>The code's addresses\<close>

abbreviation buildTable_ip :: "(IPAddr, 'v) Route list \<Rightarrow> (IPAddr, 'v) RouteTableWrapper" where
  "buildTable_ip \<equiv> buildTable getFamily getMaskedValue"

abbreviation lookup_ip ::
  "(IPAddr, 'v) RouteTableWrapper \<Rightarrow> IPAddr \<Rightarrow> (IPAddr, 'v) Route list result" where
  "lookup_ip \<equiv> table_lookup getFamily getMaskedValue"

definition wf_route :: "(IPAddr, 'v) Route \<Rightarrow> bool" where
  "wf_route r \<longleftrightarrow> wf_addr (networkAddr r) \<and> 0 \<le> prefixLength r
     \<and> prefixLength r \<le> getMaxBits (family (networkAddr r))"

definition route_contains :: "(IPAddr, 'v) Route \<Rightarrow> IPAddr \<Rightarrow> bool" where
  "route_contains r ip \<longleftrightarrow> family (networkAddr r) = family ip
     \<and> toMask ip (prefixLength r) = toMask (networkAddr r) (prefixLength r)"

definition routes_for :: "IPAddr \<Rightarrow> (IPAddr, 'v) Route list \<Rightarrow> (IPAddr, 'v) Route list" where
  "routes_for ip rs = filter (\<lambda>r. getFamily (networkAddr r) = getFamily ip) rs"

text \<open>What the trie keeps of a prefix: its bits up to the greatest level boundary that its length
  reaches. A route whose length is not a boundary is kept with a shorter prefix.\<close>

definition level_boundaries :: "IPAddr \<Rightarrow> (IPAddr, 'v) Route list \<Rightarrow> int list" where
  "level_boundaries ip rs = boundaries (getTrieTreeSegmentLengths (routes_for ip rs)) 0"

definition kept_length :: "(IPAddr, 'v) Route list \<Rightarrow> (IPAddr, 'v) Route \<Rightarrow> int" where
  "kept_length rs r = Max (set (filter (\<lambda>b. b \<le> prefixLength r) (level_boundaries (networkAddr r) rs)))"

definition kept_contains :: "(IPAddr, 'v) Route list \<Rightarrow> (IPAddr, 'v) Route \<Rightarrow> IPAddr \<Rightarrow> bool" where
  "kept_contains rs r ip \<longleftrightarrow> family (networkAddr r) = family ip
     \<and> toMask ip (kept_length rs r) = toMask (networkAddr r) (kept_length rs r)"

definition exact_levels :: "IPAddr \<Rightarrow> (IPAddr, 'v) Route list \<Rightarrow> bool" where
  "exact_levels ip rs \<longleftrightarrow> (\<forall>r\<in>set (routes_for ip rs). prefixLength r \<in> set (level_boundaries ip rs))"

lemma bits_of_byte_inj: "bits_of_byte a = bits_of_byte b \<longleftrightarrow> a = b"
  by (metis bits_val_of_byte word_uint_eq_iff)

lemma concat_bits_inj:
  "length as = length bs \<Longrightarrow>
   concat (map bits_of_byte as) = concat (map bits_of_byte bs) \<longleftrightarrow> as = bs"
  by (induction as bs rule: list_induct2) (simp_all add: bits_of_byte_inj)

lemma IPAddr_eq_iff:
  "length (data a) = length (data b) \<Longrightarrow> family a = family (b :: IPAddr) \<Longrightarrow>
   a = b \<longleftrightarrow> addr_bits a = addr_bits b"
  by (cases a; cases b) (simp add: addr_bits_def concat_bits_inj)

lemma masked_iff_agree:
  assumes "wf_addr a" "wf_addr ip" "family a = family ip" "p \<le> getMaxBits (family a)"
  shows "toMask ip p = toMask a p \<longleftrightarrow> agree addr_bits a ip 0 p"
proof -
  have len: "length (data a) = length (data ip)"
    using assms by (simp add: wf_addr_def)
  have "nat p \<le> 8 * length (data ip)"
    using assms by (auto simp: wf_addr_def getMaxBits_family)
  then have "toMask ip p = toMask a p \<longleftrightarrow> take (nat p) (addr_bits ip) = take (nat p) (addr_bits a)"
    using assms(3) len by (subst IPAddr_eq_iff) (simp_all add: toMask_bits)
  then show ?thesis by (auto simp: agree_def)
qed

lemma contains_iff_agree:
  assumes "wf_route r" "wf_addr ip" "family (networkAddr r) = family ip"
  shows "route_contains r ip \<longleftrightarrow> agree addr_bits (networkAddr r) ip 0 (prefixLength r)"
  using assms masked_iff_agree [of "networkAddr r" ip "prefixLength r"]
  by (auto simp: route_contains_def wf_route_def)

lemma agree_prefix:
  "agree bits a b 0 n \<Longrightarrow> m \<le> n \<Longrightarrow> agree bits a b 0 m"
  unfolding agree_def by (simp add: nat_le_eq_zle) (metis min.absorb1 nat_mono take_take)

lemma lookup_ip_best:
  assumes "wf_addr ip" "\<forall>r\<in>set rs. wf_route r"
  shows "lookup_ip (buildTable_ip rs) ip = Inr (best_routes addr_bits
    (getTrieTreeSegmentLengths (routes_for ip rs)) 0 ip (routes_for ip rs))"
  unfolding routes_for_def
  by (rule ipaddr.table_lookup_best)
     (use assms in \<open>auto simp: wf_route_def getMaxBits_family getFamily_def\<close>)

lemma kept_length_effLen:
  assumes "wf_route r"
  shows "kept_length rs r = effLen (getTrieTreeSegmentLengths (routes_for (networkAddr r) rs)) 0 (prefixLength r)"
  unfolding kept_length_def level_boundaries_def set_filter
  by (rule effLen_greatest [symmetric]) (use assms segment_lengths_pos in \<open>auto simp: wf_route_def\<close>)

lemma kept_length_le: "wf_route r \<Longrightarrow> kept_length rs r \<le> prefixLength r"
  by (simp add: kept_length_effLen effLen_le wf_route_def)

lemma kept_contains_iff_agree:
  assumes "wf_route r" "wf_addr ip" "family (networkAddr r) = family ip"
  shows "kept_contains rs r ip \<longleftrightarrow> agree addr_bits (networkAddr r) ip 0 (kept_length rs r)"
  using assms masked_iff_agree [of "networkAddr r" ip "kept_length rs r"] kept_length_le [OF assms(1), of rs]
  by (auto simp: kept_contains_def wf_route_def)

lemma contains_kept:
  assumes "wf_route r" "wf_addr ip" "route_contains r ip"
  shows "kept_contains rs r ip"
proof -
  have f: "family (networkAddr r) = family ip" using assms(3) by (simp add: route_contains_def)
  show ?thesis
    using assms contains_iff_agree [OF assms(1,2) f] kept_length_le [OF assms(1), of rs]
    by (simp add: kept_contains_iff_agree [OF assms(1,2) f] agree_prefix)
qed

lemma kept_length_exact:
  assumes "wf_route r" "r \<in> set (routes_for ip rs)" "exact_levels ip rs"
  shows "kept_length rs r = prefixLength r"
proof -
  have "routes_for (networkAddr r) rs = routes_for ip rs"
    using assms(2) by (simp add: routes_for_def getFamily_def)
  then show ?thesis
    using assms by (simp add: kept_length_effLen exact_levels_def level_boundaries_def effLen_boundary segment_lengths_pos)
qed

lemma lookup_kept:
  assumes "wf_addr ip" "\<forall>r\<in>set rs. wf_route r"
  shows "lookup_ip (buildTable_ip rs) ip = Inr (filter (\<lambda>r. kept_contains rs r ip
      \<and> (\<forall>r'\<in>set rs. kept_contains rs r' ip \<longrightarrow> kept_length rs r' \<le> kept_length rs r)) rs)"
proof -
  let ?mine = "routes_for ip rs" and ?segs = "getTrieTreeSegmentLengths (routes_for ip rs)"
  have mine: "r \<in> set ?mine \<longleftrightarrow> r \<in> set rs \<and> family (networkAddr r) = family ip" for r
    by (simp add: routes_for_def getFamily_def)
  have same: "routes_for (networkAddr r) rs = ?mine" if "r \<in> set ?mine" for r
    using that by (simp add: routes_for_def getFamily_def)
  have depth: "effLen ?segs 0 (prefixLength r) = kept_length rs r" if "r \<in> set ?mine" for r
    using that assms(2) same [OF that] by (simp add: kept_length_effLen mine)
  have hit: "agree addr_bits (networkAddr r) ip 0 (kept_length rs r) \<longleftrightarrow> kept_contains rs r ip"
    if "r \<in> set ?mine" for r
    using that assms kept_contains_iff_agree [of r ip rs] by (simp add: mine)
  have "best_routes addr_bits ?segs 0 ip ?mine = filter (\<lambda>r. kept_contains rs r ip
      \<and> (\<forall>r'\<in>set ?mine. kept_contains rs r' ip \<longrightarrow> kept_length rs r' \<le> kept_length rs r)) ?mine"
    unfolding best_routes_def Let_def
    by (intro filter_cong refl) (simp add: depth hit)
  also have "\<dots> = filter (\<lambda>r. kept_contains rs r ip
      \<and> (\<forall>r'\<in>set rs. kept_contains rs r' ip \<longrightarrow> kept_length rs r' \<le> kept_length rs r)) rs"
    using mine
    by (auto simp: routes_for_def getFamily_def kept_contains_def intro!: filter_cong)
  finally show ?thesis using lookup_ip_best [OF assms(1,2)] by simp
qed

lemma kept_exact_contains:
  assumes "wf_route r" "wf_addr ip" "exact_levels ip rs" "r \<in> set rs"
  shows "kept_contains rs r ip \<longleftrightarrow> route_contains r ip"
  using assms kept_length_exact [of r ip rs]
  by (auto simp: kept_contains_def route_contains_def routes_for_def getFamily_def)

section \<open>Properties\<close>

text \<open>C12. Inserting the routes one by one (\<open>doInsertRoute\<close> in the loop of \<open>buildTable\<close>) builds
  the trie in which every route sits at the node its consumed prefix reaches, in insertion
  order, with no empty subtree.\<close>

theorem buildTable_builds_trie:
  "table4 (buildTable_ip rs) = trie_of getMaskedValue
     (getTrieTreeSegmentLengths (filter (\<lambda>r. getFamily (networkAddr r) = IPv4) rs)) 0
     (filter (\<lambda>r. getFamily (networkAddr r) = IPv4) rs)
   \<and> table6 (buildTable_ip rs) = trie_of getMaskedValue
     (getTrieTreeSegmentLengths (filter (\<lambda>r. getFamily (networkAddr r) = IPv6) rs)) 0
     (filter (\<lambda>r. getFamily (networkAddr r) = IPv6) rs)"
  by (simp add: buildTable_def build_family_trie_of)

text \<open>C1. A lookup in a built table never hits the \<open>Invalid segment length\<close> error. The trie keeps each
  prefix only up to the greatest level boundary its length reaches, and the lookup returns, in
  insertion order, exactly the routes of the address' family whose kept prefix contains the address
  and is longest. Every containing route is among the candidates. When the prefix lengths of the family are
  all level boundaries, the result is exactly the containing routes of longest prefix; for
  other tables, such as the one the program ships, it can be a route that does not contain the
  address.\<close>

theorem lookup_longest_prefix:
  assumes "wf_addr ip" "\<forall>r\<in>set rs. wf_route r"
  shows "lookup_ip (buildTable_ip rs) ip = Inr (filter (\<lambda>r. kept_contains rs r ip
      \<and> (\<forall>r'\<in>set rs. kept_contains rs r' ip \<longrightarrow> kept_length rs r' \<le> kept_length rs r)) rs)
    \<and> (\<forall>r\<in>set rs. kept_length rs r \<le> prefixLength r \<and> (route_contains r ip \<longrightarrow> kept_contains rs r ip))
    \<and> (exact_levels ip rs \<longrightarrow> lookup_ip (buildTable_ip rs) ip = Inr (filter (\<lambda>r. route_contains r ip
      \<and> (\<forall>r'\<in>set rs. route_contains r' ip \<longrightarrow> prefixLength r' \<le> prefixLength r)) rs))"
proof (intro conjI impI ballI)
  assume e: "exact_levels ip rs"
  have k: "kept_contains rs r ip \<longleftrightarrow> route_contains r ip" if "r \<in> set rs" for r
    using that e assms kept_exact_contains by blast
  have l: "kept_length rs r = prefixLength r" if "r \<in> set rs" "route_contains r ip" for r
    using that e assms kept_length_exact [of r ip rs] by (simp add: routes_for_def route_contains_def getFamily_def)
  show "lookup_ip (buildTable_ip rs) ip = Inr (filter (\<lambda>r. route_contains r ip
      \<and> (\<forall>r'\<in>set rs. route_contains r' ip \<longrightarrow> prefixLength r' \<le> prefixLength r)) rs)"
    unfolding lookup_kept [OF assms] using k l by (auto intro!: filter_cong)
qed (use assms in \<open>auto simp: lookup_kept kept_length_le contains_kept\<close>)

lemma lookup_covered:
  assumes "wf_addr ip" "\<forall>r\<in>set rs. wf_route r" "r \<in> set rs" "route_contains r ip"
  shows "\<exists>res. lookup_ip (buildTable_ip rs) ip = Inr res \<and> res \<noteq> [] \<and> set res \<subseteq> set (routes_for ip rs)"
proof -
  let ?segs = "getTrieTreeSegmentLengths (routes_for ip rs)"
  have r: "r \<in> set (routes_for ip rs)" "wf_route r" "family (networkAddr r) = family ip"
    using assms by (auto simp: routes_for_def route_contains_def getFamily_def)
  then have "agree addr_bits (networkAddr r) ip 0 (prefixLength r)"
    using assms contains_iff_agree [of r ip] by blast
  then have "agree addr_bits (networkAddr r) ip 0 (effLen ?segs 0 (prefixLength r))"
    using r(2) by (elim agree_prefix) (intro effLen_le, simp add: wf_route_def)
  then have "best_routes addr_bits ?segs 0 ip (routes_for ip rs) \<noteq> []"
    using r(1) by (rule best_routes_nonempty [rotated])
  moreover have "set (best_routes addr_bits ?segs 0 ip (routes_for ip rs)) \<subseteq> set (routes_for ip rs)"
    by (auto simp: best_routes_def Let_def)
  ultimately show ?thesis using lookup_ip_best [OF assms(1,2)] by auto
qed

text \<open>A lookup never misses: if some route of the table contains the address, the result is
  a non-empty list of routes of its family.\<close>

theorem lookup_finds_covering:
  assumes "wf_addr ip" "\<forall>r\<in>set rs. wf_route r" "r \<in> set rs" "route_contains r ip"
  shows "\<exists>res. lookup_ip (buildTable_ip rs) ip = Inr res \<and> res \<noteq> [] \<and> set res \<subseteq> set (routes_for ip rs)"
  using assms by (rule lookup_covered)

text \<open>Concrete addresses and tables for the witnesses.\<close>

definition ip4 :: "nat \<Rightarrow> nat \<Rightarrow> nat \<Rightarrow> nat \<Rightarrow> IPAddr" where
  "ip4 a b c d = \<lparr>data = [of_nat a, of_nat b, of_nat c, of_nat d], family = IPv4\<rparr>"

definition rt :: "IPAddr \<Rightarrow> int \<Rightarrow> nat \<Rightarrow> (IPAddr, nat) Route" where
  "rt a p v = \<lparr>networkAddr = a, prefixLength = p, route_value = Some v\<rparr>"

definition two_routes :: "(IPAddr, nat) Route list" where
  "two_routes = [rt (ip4 10 0 0 0) 8 1, rt (ip4 10 1 0 0) 16 2]"

definition three_routes :: "(IPAddr, nat) Route list" where
  "three_routes = two_routes @ [rt (ip4 10 1 2 0) 24 3]"

text \<open>The IPv4 prefixes of the shipped \<^verbatim>\<open>networkdescriptor.json\<close>, in file order.\<close>

definition shipped_routes :: "(IPAddr, nat) Route list" where
  "shipped_routes = [rt (ip4 192 168 0 0) 16 1, rt (ip4 172 16 0 0) 12 2, rt (ip4 172 20 0 0) 14 3,
     rt (ip4 10 127 0 0) 16 4]"

theorem lookup_longest_prefix_witness:
  "lookup_ip (buildTable_ip two_routes) (ip4 10 1 9 9) = Inr [rt (ip4 10 1 0 0) 16 2]
   \<and> lookup_ip (buildTable_ip shipped_routes) (ip4 172 20 1 1) = Inr [rt (ip4 172 20 0 0) 14 3]"
proof -
  have "wf_addr (ip4 10 1 9 9)" "\<forall>r\<in>set two_routes. wf_route r" "exact_levels (ip4 10 1 9 9) two_routes"
    by code_simp+
  then have "lookup_ip (buildTable_ip two_routes) (ip4 10 1 9 9)
    = Inr (filter (\<lambda>r. route_contains r (ip4 10 1 9 9) \<and> (\<forall>r'\<in>set two_routes.
        route_contains r' (ip4 10 1 9 9) \<longrightarrow> prefixLength r' \<le> prefixLength r)) two_routes)"
    using lookup_longest_prefix [of "ip4 10 1 9 9" two_routes] by blast
  also have "\<dots> = Inr [rt (ip4 10 1 0 0) 16 2]" by code_simp
  finally have two: "lookup_ip (buildTable_ip two_routes) (ip4 10 1 9 9) = Inr [rt (ip4 10 1 0 0) 16 2]" .
  have "wf_addr (ip4 172 20 1 1)" "\<forall>r\<in>set shipped_routes. wf_route r" by code_simp+
  then have "lookup_ip (buildTable_ip shipped_routes) (ip4 172 20 1 1)
    = Inr (filter (\<lambda>r. kept_contains shipped_routes r (ip4 172 20 1 1) \<and> (\<forall>r'\<in>set shipped_routes.
        kept_contains shipped_routes r' (ip4 172 20 1 1) \<longrightarrow> kept_length shipped_routes r' \<le> kept_length shipped_routes r))
        shipped_routes)"
    using lookup_longest_prefix [of "ip4 172 20 1 1" shipped_routes] by blast
  also have "\<dots> = Inr [rt (ip4 172 20 0 0) 14 3]" by code_simp
  finally show ?thesis using two by blast
qed

text \<open>With the shipped table the two /16 prefixes are kept with 14 bits: the public address
  192.169.1.1 is found in 192.168.0.0/16.\<close>

theorem shipped_table_matches_outside:
  "getTrieTreeSegmentLengths shipped_routes = [12, 2, 14, 2]
   \<and> \<not> exact_levels (ip4 192 169 1 1) shipped_routes
   \<and> lookup_ip (buildTable_ip shipped_routes) (ip4 192 169 1 1) = Inr [rt (ip4 192 168 0 0) 16 1]
   \<and> \<not> route_contains (rt (ip4 192 168 0 0) 16 1) (ip4 192 169 1 1)"
proof (intro conjI)
  show "getTrieTreeSegmentLengths shipped_routes = [12, 2, 14, 2]" by code_simp
  show "\<not> exact_levels (ip4 192 169 1 1) shipped_routes" by code_simp
  have "wf_addr (ip4 192 169 1 1)" "\<forall>r\<in>set shipped_routes. wf_route r" by code_simp+
  note lookup_kept [OF this]
  also have "filter (\<lambda>r. kept_contains shipped_routes r (ip4 192 169 1 1) \<and> (\<forall>r'\<in>set shipped_routes.
        kept_contains shipped_routes r' (ip4 192 169 1 1) \<longrightarrow> kept_length shipped_routes r' \<le> kept_length shipped_routes r))
      shipped_routes = [rt (ip4 192 168 0 0) 16 1]" by code_simp
  finally show "lookup_ip (buildTable_ip shipped_routes) (ip4 192 169 1 1) = Inr [rt (ip4 192 168 0 0) 16 1]" .
  show "\<not> route_contains (rt (ip4 192 168 0 0) 16 1) (ip4 192 169 1 1)" by code_simp
qed

theorem lookup_finds_covering_witness:
  "\<exists>res. lookup_ip (buildTable_ip three_routes) (ip4 10 1 2 3) = Inr res \<and> res \<noteq> []
    \<and> set res \<subseteq> set (routes_for (ip4 10 1 2 3) three_routes)"
  by (rule lookup_finds_covering [where r = "rt (ip4 10 1 2 0) 24 3"]) code_simp+

text \<open>The level lengths are wrong for three different prefix lengths: in a table of a /8, a
  /16 and a /24 the differencing loop yields the levels 8, 8, 16 instead of 8, 8, 8, the /24
  is stored at its /16 node, and a lookup returns it for an address it does not contain.\<close>

theorem lookup_returns_non_containing_route:
  "getTrieTreeSegmentLengths three_routes = [8, 8, 16]
   \<and> lookup_ip (buildTable_ip three_routes) (ip4 10 1 9 9)
     = Inr [rt (ip4 10 1 0 0) 16 2, rt (ip4 10 1 2 0) 24 3]
   \<and> \<not> route_contains (rt (ip4 10 1 2 0) 24 3) (ip4 10 1 9 9)"
  by (intro conjI) code_simp+

end
