(* ===== verification/Streams.thy ===== *)
theory Streams
  imports Prelude "HOL-Library.Word"
begin

text \<open>
  The \<open>TransformStream\<close>s of the client. A transform is a state, a step that consumes one chunk
  and enqueues outputs (or puts the stream in its errored state) and a flush. The locale
  \<open>chunked_transform\<close> is the contract of a transform over a chunked byte or character source:
  what it emits depends on the concatenation of the chunks only. It is interpreted on the
  32-bit word parser of \<^verbatim>\<open>web/utls/streams.ts\<close> (here) and on the line tokenizer of
  \<^verbatim>\<open>web/apis/globalping.ts\<close> (theory Line_Stream).
\<close>

section \<open>Running a transform\<close>

fun run_transform ::
  "('s \<Rightarrow> 'i \<Rightarrow> ('s \<times> 'o list) result) \<Rightarrow> 's \<Rightarrow> 'i list \<Rightarrow> ('s \<times> 'o list) result" where
  "run_transform step s [] = Inr (s, [])"
| "run_transform step s (c # cs) =
     (case step s c of
        Inl e \<Rightarrow> Inl e
      | Inr (s', out) \<Rightarrow>
          (case run_transform step s' cs of
             Inl e \<Rightarrow> Inl e
           | Inr (s'', out') \<Rightarrow> Inr (s'', out @ out')))"

definition pipe_through ::
  "('s \<Rightarrow> 'i \<Rightarrow> ('s \<times> 'o list) result) \<Rightarrow> ('s \<Rightarrow> ('s \<times> 'o list) result) \<Rightarrow> 's \<Rightarrow> 'i list \<Rightarrow> 'o list result"
where
  "pipe_through step flush s cs =
     (case run_transform step s cs of
        Inl e \<Rightarrow> Inl e
      | Inr (s', out) \<Rightarrow> (case flush s' of Inl e \<Rightarrow> Inl e | Inr (s'', out') \<Rightarrow> Inr (out @ out')))"

lemma run_transform_append:
  "run_transform step s (xs @ ys) =
     (case run_transform step s xs of
        Inl e \<Rightarrow> Inl e
      | Inr (s', out) \<Rightarrow>
          (case run_transform step s' ys of
             Inl e \<Rightarrow> Inl e | Inr (s'', out') \<Rightarrow> Inr (s'', out @ out')))"
  by (induction xs arbitrary: s) (auto split: sum.splits prod.splits)

text \<open>A transform whose step is a pure map with possible drops: the adapters of the client.\<close>

definition filter_step :: "('i \<Rightarrow> 'o option) \<Rightarrow> unit \<Rightarrow> 'i \<Rightarrow> (unit \<times> 'o list) result" where
  "filter_step f s x = Inr ((), case f x of None \<Rightarrow> [] | Some y \<Rightarrow> [y])"

lemma run_filter_step: "run_transform (filter_step f) s xs = Inr ((), List.map_filter f xs)"
  by (induction xs arbitrary: s) (auto simp: filter_step_def map_filter_simps split: option.splits)

section \<open>The contract of a chunked transform\<close>

locale chunked_transform =
  fixes step :: "'s \<Rightarrow> 'i \<Rightarrow> ('s \<times> 'o list) result"
    and bytes :: "'i \<Rightarrow> 'c list"
    and good :: "'i \<Rightarrow> bool"
    and init :: 's
    and invar :: "'s \<Rightarrow> bool"
    and pending :: "'s \<Rightarrow> 'c list"
    and emit :: "'c list \<Rightarrow> 'o list"
    and rest :: "'c list \<Rightarrow> 'c list"
  assumes init: "invar init" "pending init = []"
    and step: "invar s \<Longrightarrow> good c \<Longrightarrow> \<exists>s'. step s c = Inr (s', emit (pending s @ bytes c))
      \<and> invar s' \<and> pending s' = rest (pending s @ bytes c)"
    and empty: "emit [] = []" "rest [] = []"
    and emit_append: "emit (xs @ ys) = emit xs @ emit (rest xs @ ys)"
    and rest_append: "rest (xs @ ys) = rest (rest xs @ ys)"
begin

lemma run_from:
  assumes "invar s" "\<forall>c\<in>set cs. good c" "pending s = rest xs" "emit (rest xs) = []"
  shows "\<exists>s'. run_transform step s cs = Inr (s', emit (rest xs @ concat (map bytes cs)))
    \<and> invar s' \<and> pending s' = rest (xs @ concat (map bytes cs))"
  using assms
proof (induction cs arbitrary: s xs)
  case (Cons c cs)
  obtain s1 where s1: "step s c = Inr (s1, emit (rest xs @ bytes c))" "invar s1"
      "pending s1 = rest (rest xs @ bytes c)"
    using step [of s c] Cons.prems by auto
  have "rest (xs @ bytes c) = rest (rest xs @ bytes c)" by (rule rest_append)
  moreover have "emit (rest (xs @ bytes c)) = []"
    using emit_append [of "xs @ bytes c" "[]"] by simp
  ultimately obtain s2 where s2: "run_transform step s1 cs
      = Inr (s2, emit (rest (xs @ bytes c) @ concat (map bytes cs)))"
      "invar s2" "pending s2 = rest ((xs @ bytes c) @ concat (map bytes cs))"
    using Cons.IH [of s1 "xs @ bytes c"] Cons.prems s1 by auto
  have "emit (rest xs @ bytes c @ concat (map bytes cs))
    = emit (rest xs @ bytes c) @ emit (rest (xs @ bytes c) @ concat (map bytes cs))"
    using emit_append [of "rest xs @ bytes c"] rest_append [of xs "bytes c"] by simp
  with s1 s2 show ?case by simp
qed simp

text \<open>What a run emits, and what it keeps back, is a function of the concatenated input.\<close>

lemma run_chunks:
  assumes "\<forall>c\<in>set cs. good c"
  shows "\<exists>s. run_transform step init cs = Inr (s, emit (concat (map bytes cs)))
    \<and> invar s \<and> pending s = rest (concat (map bytes cs))"
  using run_from [of init cs "[]"] assms init empty by simp

lemma run_chunking_irrelevant:
  assumes "\<forall>c\<in>set cs. good c" "\<forall>c\<in>set ds. good c"
    and "concat (map bytes cs) = concat (map bytes ds)"
  shows "map_sum id snd (run_transform step init cs) = map_sum id snd (run_transform step init ds)"
  using run_chunks [OF assms(1)] run_chunks [OF assms(2)] assms(3) by auto

end

section \<open>The 32-bit word parser\<close>

definition wordSize :: nat where
  "wordSize = 4"

datatype Chunk = ArrayBuffer "8 word list" | OtherChunk

record feedBackParseRef =
  chunks :: "8 word list list"
  totalSize :: nat

definition feedback_init :: feedBackParseRef where
  "feedback_init = \<lparr>chunks = [], totalSize = 0\<rparr>"

text \<open>\<open>DataView.setUint8\<close> and \<open>getUint32\<close> raise a \<open>RangeError\<close> outside the buffer.\<close>

definition RangeError :: js_error where
  "RangeError = JSError ''RangeError''"

definition setUint8 :: "8 word list \<Rightarrow> nat \<Rightarrow> 8 word \<Rightarrow> 8 word list result" where
  "setUint8 buf i b = (if i < length buf then Inr (buf[i := b]) else Inl RangeError)"

definition getUint32 :: "8 word list \<Rightarrow> nat \<Rightarrow> 32 word result" where
  "getUint32 buf i =
     (if i + 4 \<le> length buf
      then Inr (of_nat (((unat (buf ! i) * 256 + unat (buf ! (i + 1))) * 256
             + unat (buf ! (i + 2))) * 256 + unat (buf ! (i + 3))))
      else Inl RangeError)"

fun setAll :: "8 word list \<Rightarrow> nat \<Rightarrow> 8 word list \<Rightarrow> 8 word list result" where
  "setAll buf i [] = Inr buf"
| "setAll buf i (b # bs) =
     (case setUint8 buf i b of Inl e \<Rightarrow> Inl e | Inr buf' \<Rightarrow> setAll buf' (Suc i) bs)"

fun merge_loop :: "8 word list \<Rightarrow> nat \<Rightarrow> 8 word list list \<Rightarrow> 8 word list result" where
  "merge_loop buf offset [] = Inr buf"
| "merge_loop buf offset (c # cs) =
     (case setAll buf offset c of
        Inl e \<Rightarrow> Inl e | Inr buf' \<Rightarrow> merge_loop buf' (offset + length c) cs)"

definition mergeArrayBuffers :: "8 word list list \<Rightarrow> nat \<Rightarrow> 8 word list result" where
  "mergeArrayBuffers cs n = merge_loop (replicate n 0) 0 cs"

fun enqueue_words :: "8 word list \<Rightarrow> nat \<Rightarrow> nat \<Rightarrow> 32 word list result" where
  "enqueue_words buf i 0 = Inr []"
| "enqueue_words buf i (Suc n) =
     (case getUint32 buf (i * wordSize) of
        Inl e \<Rightarrow> Inl e
      | Inr w \<Rightarrow> (case enqueue_words buf (Suc i) n of Inl e \<Rightarrow> Inl e | Inr ws \<Rightarrow> Inr (w # ws)))"

definition doConsume :: "feedBackParseRef \<Rightarrow> (feedBackParseRef \<times> 32 word list) result" where
  "doConsume st =
     (if totalSize st \<ge> wordSize then
        (let nWords = totalSize st div wordSize;
             restSize = totalSize st mod wordSize
         in case mergeArrayBuffers (chunks st) (totalSize st) of
              Inl e \<Rightarrow> Inl e
            | Inr mergedBuffer \<Rightarrow>
                (case enqueue_words mergedBuffer 0 nWords of
                   Inl e \<Rightarrow> Inl e
                 | Inr ws \<Rightarrow>
                     Inr (if restSize > 0
                          then \<lparr>chunks = [drop (length mergedBuffer - restSize) mergedBuffer],
                                totalSize = restSize\<rparr>
                          else \<lparr>chunks = [], totalSize = 0\<rparr>, ws)))
      else Inr (st, []))"

definition uint32_transform ::
  "feedBackParseRef \<Rightarrow> Chunk \<Rightarrow> (feedBackParseRef \<times> 32 word list) result" where
  "uint32_transform st chunk =
     (case chunk of
        OtherChunk \<Rightarrow> Inl (JSError ''chunk has unknown binary type'')
      | ArrayBuffer b \<Rightarrow>
          doConsume (st\<lparr>chunks := chunks st @ [b], totalSize := totalSize st + length b\<rparr>))"

definition uint32_flush :: "feedBackParseRef \<Rightarrow> (feedBackParseRef \<times> 32 word list) result" where
  "uint32_flush st = doConsume st"

definition newUint32StreamParser :: "Chunk list \<Rightarrow> 32 word list result" where
  "newUint32StreamParser cs = pipe_through uint32_transform uint32_flush feedback_init cs"

section \<open>The words of a byte sequence\<close>

definition be32 :: "8 word \<Rightarrow> 8 word \<Rightarrow> 8 word \<Rightarrow> 8 word \<Rightarrow> 32 word" where
  "be32 a b c d = of_nat (((unat a * 256 + unat b) * 256 + unat c) * 256 + unat d)"

fun words_of :: "8 word list \<Rightarrow> 32 word list" where
  "words_of (a # b # c # d # bs) = be32 a b c d # words_of bs"
| "words_of bs = []"

fun words_rest :: "8 word list \<Rightarrow> 8 word list" where
  "words_rest (a # b # c # d # bs) = words_rest bs"
| "words_rest bs = bs"

lemma words_rest_eq_drop: "words_rest bs = drop (length bs - length bs mod 4) bs"
proof (induction bs rule: words_rest.induct)
  case (1 a b c d bs)
  let ?l = "length bs"
  have "Suc (Suc (Suc (Suc ?l))) - Suc (Suc (Suc (Suc ?l))) mod 4
    = Suc (Suc (Suc (Suc (?l - ?l mod 4))))"
  proof -
    have "Suc (Suc (Suc (Suc ?l))) mod 4 = (?l + 4) mod 4" by (simp only: add_Suc_right numeral_eq_Suc pred_numeral_simps add_0_right BitM.simps numeral_One One_nat_def)
    moreover have "?l mod 4 \<le> ?l" by simp
    ultimately show ?thesis by simp
  qed
  with 1 show ?case by (simp only: words_rest.simps list.size drop_Suc_Cons add_Suc_right add_0_right)
qed simp_all

lemma length_words_rest: "length (words_rest bs) = length bs mod 4"
  by (simp add: words_rest_eq_drop)

lemma words_of_short [simp]: "length bs < 4 \<Longrightarrow> words_of bs = [] \<and> words_rest bs = bs"
  by (cases bs rule: words_of.cases) auto

lemma words_of_append: "words_of (xs @ ys) = words_of xs @ words_of (words_rest xs @ ys)"
  by (induction xs rule: words_of.induct) auto

lemma words_rest_append: "words_rest (xs @ ys) = words_rest (words_rest xs @ ys)"
  by (induction xs rule: words_of.induct) auto

lemma setAll_append:
  "setAll (xs @ ys @ zs) (length xs) bs = Inr (xs @ bs @ zs)" if "length ys = length bs"
  using that
proof (induction bs arbitrary: xs ys)
  case (Cons b bs)
  then obtain y ys' where ys: "ys = y # ys'" by (cases ys) auto
  have "setAll ((xs @ [b]) @ ys' @ zs) (length (xs @ [b])) bs = Inr ((xs @ [b]) @ bs @ zs)"
    using Cons.prems ys by (intro Cons.IH) simp
  then show ?case by (simp add: ys setUint8_def list_update_append)
qed simp

lemma merge_loop_concat:
  "length ys = length (concat cs) \<Longrightarrow> merge_loop (xs @ ys) (length xs) cs = Inr (xs @ concat cs)"
proof (induction cs arbitrary: xs ys)
  case (Cons c cs)
  have "setAll (xs @ take (length c) ys @ drop (length c) ys) (length xs) c
    = Inr (xs @ c @ drop (length c) ys)"
    using Cons.prems by (intro setAll_append) simp
  then have "setAll (xs @ ys) (length xs) c = Inr ((xs @ c) @ drop (length c) ys)" by simp
  moreover have "merge_loop ((xs @ c) @ drop (length c) ys) (length (xs @ c)) cs
    = Inr ((xs @ c) @ concat cs)"
    using Cons.prems by (intro Cons.IH) simp
  ultimately show ?case by simp
qed simp

lemma mergeArrayBuffers_concat [simp]:
  "n = length (concat cs) \<Longrightarrow> mergeArrayBuffers cs n = Inr (concat cs)"
  using merge_loop_concat [of "replicate n 0" cs "[]"] by (simp add: mergeArrayBuffers_def)

lemma enqueue_words_drop:
  "4 * (i + n) \<le> length buf \<Longrightarrow>
   enqueue_words buf i n = Inr (words_of (take (4 * n) (drop (4 * i) buf)))"
proof (induction n arbitrary: i)
  case (Suc n)
  then obtain a b c d bs where buf: "drop (4 * i) buf = a # b # c # d # bs"
    by (cases "drop (4 * i) buf" rule: words_of.cases) (auto dest!: arg_cong [where f = length])
  have nth: "buf ! (4 * i + k) = (a # b # c # d # bs) ! k" if "k < 4" for k
    using Suc.prems that by (simp flip: buf)
  have "getUint32 buf (i * wordSize) = Inr (be32 a b c d)"
    using Suc.prems nth [of 0] nth [of 1] nth [of 2] nth [of 3]
    by (simp add: getUint32_def be32_def wordSize_def mult.commute)
  moreover have "drop (4 * Suc i) buf = bs"
  proof -
    have "drop (4 * Suc i) buf = drop 4 (drop (4 * i) buf)" by (simp add: add.commute)
    then show ?thesis by (simp add: buf)
  qed
  moreover have "take (4 + 4 * n) (a # b # c # d # bs) = a # b # c # d # take (4 * n) bs"
    by (simp add: numeral_eq_Suc)
  ultimately show ?case using Suc by (simp add: buf)
qed simp

definition parser_inv :: "feedBackParseRef \<Rightarrow> bool" where
  "parser_inv st \<longleftrightarrow> totalSize st = length (concat (chunks st)) \<and> totalSize st < wordSize"

lemma doConsume_words:
  assumes "totalSize st = length (concat (chunks st))"
  shows "\<exists>st'. doConsume st = Inr (st', words_of (concat (chunks st))) \<and> parser_inv st'
    \<and> concat (chunks st') = words_rest (concat (chunks st))"
proof (cases "wordSize \<le> totalSize st")
  case True
  let ?B = "concat (chunks st)"
  let ?n = "length ?B div 4" and ?T = "take (4 * (length (concat (chunks st)) div 4)) (concat (chunks st))"
  have B: "?B = ?T @ words_rest ?B"
    by (simp add: words_rest_eq_drop minus_mod_eq_mult_div)
  have "length (words_rest ?T) = 0" "length (words_rest ?B) < 4"
    by (simp_all add: length_words_rest min_absorb2)
  then have "words_of ?B = words_of ?T"
    by (subst B) (simp add: words_of_append)
  moreover have "enqueue_words ?B 0 ?n = Inr (words_of (take (4 * ?n) ?B))"
    by (subst enqueue_words_drop) simp_all
  ultimately have "enqueue_words ?B 0 (totalSize st div wordSize) = Inr (words_of ?B)"
    using assms by (simp add: wordSize_def)
  with True assms show ?thesis
    by (auto simp: doConsume_def Let_def parser_inv_def words_rest_eq_drop wordSize_def)
next
  case False
  with assms show ?thesis by (auto simp: doConsume_def parser_inv_def wordSize_def)
qed

fun chunk_bytes :: "Chunk \<Rightarrow> 8 word list" where
  "chunk_bytes (ArrayBuffer b) = b"
| "chunk_bytes OtherChunk = []"

interpretation uint32: chunked_transform uint32_transform chunk_bytes "\<lambda>c. c \<noteq> OtherChunk"
  feedback_init parser_inv "\<lambda>st. concat (chunks st)" words_of words_rest
proof (unfold_locales, goal_cases)
  case (3 st c)
  then obtain b where c: "c = ArrayBuffer b" by (cases c) auto
  with 3 show ?case
    using doConsume_words [of "st\<lparr>chunks := chunks st @ [b], totalSize := totalSize st + length b\<rparr>"]
    by (auto simp: uint32_transform_def parser_inv_def)
next
  case (6 xs ys) show ?case by (rule words_of_append)
next
  case (7 xs ys) show ?case by (rule words_rest_append)
qed (simp_all add: feedback_init_def parser_inv_def wordSize_def)

lemma uint32_flush_nothing: "parser_inv st \<Longrightarrow> uint32_flush st = Inr (st, [])"
  by (simp add: uint32_flush_def doConsume_def parser_inv_def)

lemma uint32_error_stops:
  assumes "OtherChunk \<in> set cs" "parser_inv st"
  shows "run_transform uint32_transform st cs = Inl (JSError ''chunk has unknown binary type'')"
  using assms
proof (induction cs arbitrary: st)
  case (Cons c cs)
  show ?case
  proof (cases "c = OtherChunk")
    case False
    with Cons.prems uint32.step [of st c] obtain st' out
      where "uint32_transform st c = Inr (st', out)" "parser_inv st'" by blast
    with Cons False show ?thesis by simp
  qed (simp add: uint32_transform_def)
qed simp

definition word_bytes :: "32 word \<Rightarrow> 8 word list" where
  "word_bytes w = [of_nat (unat w div 2 ^ 24), of_nat (unat w div 2 ^ 16 mod 2 ^ 8),
     of_nat (unat w div 2 ^ 8 mod 2 ^ 8), of_nat (unat w mod 2 ^ 8)]"

lemma words_of_word_bytes: "words_of (word_bytes w @ bs) = w # words_of bs"
proof -
  have lt: "unat w div 16777216 < 256"
    using unsigned_less [of w, where ?'a = nat] by (simp add: less_mult_imp_div_less)
  have u: "unat (of_nat n :: 8 word) = n" if "n < 256" for n
    using that by (simp add: unat_of_nat)
  let ?n = "unat w"
  have "?n div 16777216 * 256 + ?n div 65536 mod 256 = ?n div 65536"
    using div_mult_mod_eq [of "?n div 65536" 256] by (simp flip: div_mult2_eq)
  moreover have "?n div 65536 * 256 + ?n div 256 mod 256 = ?n div 256"
    using div_mult_mod_eq [of "?n div 256" 256] by (simp flip: div_mult2_eq)
  ultimately have "((?n div 16777216 * 256 + ?n div 65536 mod 256) * 256
      + ?n div 256 mod 256) * 256 + ?n mod 256 = ?n"
    by simp
  then show ?thesis
    by (simp add: word_bytes_def be32_def u lt)
qed

lemma words_of_concat_word_bytes: "words_of (concat (map word_bytes ws)) = ws"
  by (induction ws) (simp_all add: words_of_word_bytes)

section \<open>Properties\<close>

text \<open>C23. However the byte stream is cut into \<open>ArrayBuffer\<close> chunks, the parser enqueues the
  big-endian 32-bit words of the concatenated bytes, each exactly once and in order; at most
  three trailing bytes are dropped at the end, and no \<open>RangeError\<close> can occur.\<close>

theorem uint32_parser_words:
  "newUint32StreamParser (map ArrayBuffer bss) = Inr (words_of (concat bss))"
proof -
  obtain st where "run_transform uint32_transform feedback_init (map ArrayBuffer bss)
      = Inr (st, words_of (concat bss))" "parser_inv st"
    using uint32.run_chunks [of "map ArrayBuffer bss"] by (auto simp: comp_def)
  then show ?thesis
    by (simp add: newUint32StreamParser_def pipe_through_def uint32_flush_nothing)
qed

text \<open>Words sent in network byte order come back unchanged under any chunking.\<close>

theorem uint32_parser_roundtrip:
  assumes "concat bss = concat (map word_bytes ws)"
  shows "newUint32StreamParser (map ArrayBuffer bss) = Inr ws"
proof -
  obtain st where "run_transform uint32_transform feedback_init (map ArrayBuffer bss)
      = Inr (st, words_of (concat bss))" "parser_inv st"
    using uint32.run_chunks [of "map ArrayBuffer bss"] by (auto simp: comp_def)
  then show ?thesis
    by (simp add: newUint32StreamParser_def pipe_through_def uint32_flush_nothing assms
        words_of_concat_word_bytes)
qed

theorem uint32_parser_roundtrip_witness:
  "newUint32StreamParser (map ArrayBuffer [[1, 2], [3], [], [4, 255, 255, 255, 254]])
    = Inr [0x01020304, 0xFFFFFFFE]"
  by (rule uint32_parser_roundtrip) (simp add: word_bytes_def)

text \<open>A chunk that is not an \<open>ArrayBuffer\<close> puts the stream in its errored state, whatever
  came before or comes after it.\<close>

theorem uint32_parser_rejects_other_chunks:
  assumes "OtherChunk \<in> set cs"
  shows "newUint32StreamParser cs = Inl (JSError ''chunk has unknown binary type'')"
  using uint32_error_stops [OF assms] uint32.init(1)
  by (simp add: newUint32StreamParser_def pipe_through_def)

theorem uint32_parser_rejects_other_chunks_witness:
  "newUint32StreamParser [ArrayBuffer [1, 2, 3, 4, 5], OtherChunk, ArrayBuffer [6]]
    = Inl (JSError ''chunk has unknown binary type'')"
  by (rule uint32_parser_rejects_other_chunks) simp

end
