(* ===== verification/Line_Stream.thy ===== *)
theory Line_Stream
  imports Streams
begin

text \<open>
  \<^verbatim>\<open>web/apis/globalping.ts\<close>: \<open>LineTokenizer\<close>, which cuts a chunked text stream into lines,
  and \<open>JSONLineDecoder\<close>, which parses each line and drops those that do not parse. Every
  ndjson consumer of the client reads through these two transforms. \<open>JSON.parse\<close> is a
  parameter that returns \<open>None\<close> where the built-in throws.
\<close>

section \<open>LineTokenizer\<close>

definition newline :: char where
  "newline = CHR 0x0A"

definition carriage_return :: char where
  "carriage_return = CHR 0x0D"

fun js_indexOf :: "'c \<Rightarrow> 'c list \<Rightarrow> nat option" where
  "js_indexOf c [] = None"
| "js_indexOf c (x # xs) = (if x = c then Some 0 else map_option Suc (js_indexOf c xs))"

lemma js_indexOf_Some:
  "js_indexOf c s = Some i \<Longrightarrow> i < length s \<and> s = take i s @ c # drop (Suc i) s \<and> c \<notin> set (take i s)"
  by (induction s arbitrary: i) (auto split: if_splits)

lemma js_indexOf_None: "js_indexOf c s = None \<longleftrightarrow> c \<notin> set s"
  by (induction s) auto

definition clean_line :: "string \<Rightarrow> string" where
  "clean_line line = (if js_endsWith line [carriage_return] then butlast line else line)"

function tokenize_loop :: "string \<Rightarrow> string list \<times> string" where
  "tokenize_loop buffer =
     (case js_indexOf newline buffer of
        None \<Rightarrow> ([], buffer)
      | Some newlineIndex \<Rightarrow>
          (let line = take newlineIndex buffer;
               cleanLine = clean_line line;
               (rest_lines, buffer') = tokenize_loop (drop (newlineIndex + 1) buffer)
           in (cleanLine # rest_lines, buffer')))"
  by pat_completeness auto
termination
  by (relation "measure length") (auto dest: js_indexOf_Some)

declare tokenize_loop.simps [simp del]

definition line_transform :: "string \<Rightarrow> string \<Rightarrow> (string \<times> string list) result" where
  "line_transform buffer chunk =
     (let (lines, buffer') = tokenize_loop (buffer @ chunk) in Inr (buffer', lines))"

definition line_flush :: "string \<Rightarrow> (string \<times> string list) result" where
  "line_flush buffer = Inr (buffer, if buffer \<noteq> [] then [clean_line buffer] else [])"

definition LineTokenizer :: "string list \<Rightarrow> string list result" where
  "LineTokenizer cs = pipe_through line_transform line_flush [] cs"

section \<open>JSONLineDecoder\<close>

definition json_line_step :: "(string \<Rightarrow> 'j option) \<Rightarrow> unit \<Rightarrow> string \<Rightarrow> (unit \<times> 'j list) result" where
  "json_line_step parse = filter_step (\<lambda>content. parse content)"

definition JSONLineDecoder :: "(string \<Rightarrow> 'j option) \<Rightarrow> string list \<Rightarrow> 'j list result" where
  "JSONLineDecoder parse cs = pipe_through (json_line_step parse) (\<lambda>u. Inr (u, [])) () cs"

text \<open>The pipe every consumer builds: \<open>pipeThrough(new LineTokenizer())\<close>, then
  \<open>pipeThrough(new JSONLineDecoder())\<close>.\<close>

definition ndjson_pipe :: "(string \<Rightarrow> 'j option) \<Rightarrow> string list \<Rightarrow> 'j list result" where
  "ndjson_pipe parse cs =
     (case LineTokenizer cs of Inl e \<Rightarrow> Inl e | Inr ls \<Rightarrow> JSONLineDecoder parse ls)"

section \<open>Lines of a text\<close>

text \<open>The complete lines of a text, and the unterminated rest.\<close>

definition full_lines :: "string \<Rightarrow> string list" where
  "full_lines s = map clean_line (butlast (js_split newline s))"

definition last_line :: "string \<Rightarrow> string" where
  "last_line s = last (js_split newline s)"

lemma tokenize_loop_lines: "tokenize_loop s = (full_lines s, last_line s)"
proof (induction s rule: tokenize_loop.induct)
  case (1 s)
  show ?case
  proof (cases "js_indexOf newline s")
    case None
    then have "js_split newline s = [s]" by (simp add: js_indexOf_None js_split_single)
    with None show ?thesis
      by (simp add: tokenize_loop.simps [of s] full_lines_def last_line_def)
  next
    case (Some i)
    from js_indexOf_Some [OF Some] have "js_split newline s
      = take i s # js_split newline (drop (Suc i) s)"
      by (metis js_split_append_no_sep)
    with 1 Some show ?thesis
      by (simp add: tokenize_loop.simps [of s] full_lines_def last_line_def)
  qed
qed

lemma js_split_append:
  "js_split c (xs @ ys) = butlast (js_split c xs) @ js_split c (last (js_split c xs) @ ys)"
proof (induction xs)
  case (Cons x xs)
  show ?case
  proof (cases "x = c")
    case False
    with Cons show ?thesis
      by (cases "js_split c xs"; cases "tl (js_split c xs)") (auto split: list.splits)
  qed (use Cons in simp)
qed simp

lemma full_lines_append: "full_lines (xs @ ys) = full_lines xs @ full_lines (last_line xs @ ys)"
  by (simp add: full_lines_def last_line_def js_split_append [of _ xs] butlast_append)

lemma last_line_append: "last_line (xs @ ys) = last_line (last_line xs @ ys)"
  by (simp add: last_line_def js_split_append [of _ xs])

lemma last_line_no_newline: "newline \<notin> set (last_line s)"
  using js_split_no_sep [of "last (js_split newline s)" newline s] by (simp add: last_line_def)

lemma last_line_terminated: "last_line (xs @ [newline]) = []"
proof -
  have "last_line (last_line xs @ [newline]) = []"
    using js_split_append_no_sep [OF last_line_no_newline, of xs "[]"] by (simp add: last_line_def)
  then show ?thesis using last_line_append [of xs "[newline]"] by simp
qed

interpretation line_stream: chunked_transform line_transform "\<lambda>c. c" "\<lambda>_. True"
  "[]" "\<lambda>_. True" "\<lambda>b. b" full_lines last_line
proof (unfold_locales, goal_cases)
  case (6 xs ys) show ?case by (rule full_lines_append)
next
  case (7 xs ys) show ?case by (rule last_line_append)
qed (simp_all add: line_transform_def tokenize_loop_lines full_lines_def last_line_def)

definition lines_of :: "string \<Rightarrow> string list" where
  "lines_of s = full_lines s @ (if last_line s = [] then [] else [clean_line (last_line s)])"

lemma LineTokenizer_lines: "LineTokenizer cs = Inr (lines_of (concat cs))"
  using line_stream.run_chunks [of cs]
  by (auto simp: LineTokenizer_def pipe_through_def line_flush_def lines_of_def)

lemma JSONLineDecoder_filter: "JSONLineDecoder parse ls = Inr (List.map_filter parse ls)"
  by (simp add: JSONLineDecoder_def json_line_step_def pipe_through_def run_filter_step)

lemma ndjson_pipe_lines: "ndjson_pipe parse cs = Inr (List.map_filter parse (lines_of (concat cs)))"
  by (simp add: ndjson_pipe_def LineTokenizer_lines JSONLineDecoder_filter)

lemma clean_line_id: "l = [] \<or> last l \<noteq> carriage_return \<Longrightarrow> clean_line l = l"
  by (auto simp: clean_line_def js_endsWith_def suffix_def)

lemma clean_line_crlf: "clean_line (l @ [carriage_return]) = l"
  by (simp add: clean_line_def js_endsWith_def)

lemma lines_of_terminated:
  assumes "\<forall>l\<in>set ls. newline \<notin> set l"
  shows "js_split newline (concat (map (\<lambda>l. l @ [newline]) ls)) = ls @ [[]]"
  using assms by (induction ls) (simp_all add: js_split_append_no_sep)

lemma LineTokenizer_written:
  assumes "\<forall>l\<in>set ls. newline \<notin> set l \<and> (l = [] \<or> last l \<noteq> carriage_return)"
    and "eol \<in> {[newline], [carriage_return, newline]}"
    and "concat cs = concat (map (\<lambda>l. l @ eol) ls)"
  shows "LineTokenizer cs = Inr ls"
proof -
  define tr where "tr l = (if eol = [newline] then l else l @ [carriage_return])" for l :: string
  have eol: "concat (map (\<lambda>l. l @ eol) ls) = concat (map (\<lambda>l. l @ [newline]) (map tr ls))"
    using assms(2) by (auto simp: tr_def comp_def)
  have "\<forall>l\<in>set (map tr ls). newline \<notin> set l"
    using assms(1) by (auto simp: tr_def newline_def carriage_return_def)
  then have "js_split newline (concat cs) = map tr ls @ [[]]"
    unfolding assms(3) eol by (rule lines_of_terminated)
  moreover have "map clean_line (map tr ls) = ls"
    using assms(1) by (auto simp: tr_def clean_line_crlf clean_line_id intro: map_idI)
  ultimately show ?thesis
    by (simp add: LineTokenizer_lines lines_of_def full_lines_def last_line_def)
qed

lemma ndjson_pipe_written:
  assumes "\<forall>v\<in>set vs. newline \<notin> set (stringify v) \<and> (stringify v = [] \<or> last (stringify v) \<noteq> carriage_return)
      \<and> parse (stringify v) = Some v"
    and "concat cs = concat (map (\<lambda>v. stringify v @ [newline]) vs)"
  shows "ndjson_pipe parse cs = Inr vs"
proof -
  have "LineTokenizer cs = Inr (map stringify vs)"
    using assms by (intro LineTokenizer_written [where eol = "[newline]"]) (auto simp: comp_def)
  moreover have "List.map_filter parse (map stringify vs) = vs"
    using assms(1) by (induction vs) (simp_all add: map_filter_simps)
  ultimately show ?thesis by (simp add: ndjson_pipe_def JSONLineDecoder_filter)
qed

section \<open>Properties\<close>

text \<open>C24. The tokenizer's output does not depend on how the network cuts the text into chunks: it
  is the list of lines of the whole text, with one carriage return removed from each line end
  and an empty unterminated last line dropped.\<close>

theorem tokenizer_lines:
  "LineTokenizer cs = Inr (map clean_line
     (let ws = js_split newline (concat cs) in if last ws = [] then butlast ws else ws))"
proof -
  have "map clean_line ws = map clean_line (butlast ws) @ [clean_line (last ws)]" if "ws \<noteq> []" for ws
    using that by (metis append_butlast_last_id list.simps(8,9) map_append)
  then show ?thesis
    by (simp add: LineTokenizer_lines lines_of_def full_lines_def last_line_def Let_def)
qed

text \<open>Lines written with LF or CRLF terminators are recovered exactly, under any chunking.\<close>

theorem tokenizer_roundtrip:
  assumes "\<forall>l\<in>set ls. newline \<notin> set l \<and> (l = [] \<or> last l \<noteq> carriage_return)"
    and "eol \<in> {[newline], [carriage_return, newline]}"
    and "concat cs = concat (map (\<lambda>l. l @ eol) ls)"
  shows "LineTokenizer cs = Inr ls"
  by (rule LineTokenizer_written [OF assms])

theorem tokenizer_roundtrip_witness:
  "LineTokenizer [''{\"a\":'', ''1}'' @ [carriage_return], newline # ''{}'', [carriage_return, newline]]
    = Inr [''{\"a\":1}'', ''{}'']"
  by (rule tokenizer_roundtrip [where eol = "[carriage_return, newline]"])
     (simp_all add: newline_def carriage_return_def)

text \<open>A line that does not parse is dropped without affecting any other line: the decoded
  stream of two texts separated by a line break is the concatenation of the decoded streams.\<close>

theorem ndjson_lines_independent:
  "ndjson_pipe parse [xs @ newline # ys] =
     (case ndjson_pipe parse [xs @ [newline]] of
        Inl e \<Rightarrow> Inl e
      | Inr a \<Rightarrow> (case ndjson_pipe parse [ys] of Inl e \<Rightarrow> Inl e | Inr b \<Rightarrow> Inr (a @ b)))"
proof -
  note last_line_terminated [of xs]
  moreover have "full_lines (xs @ newline # ys) = full_lines (xs @ [newline]) @ full_lines ys"
    and "last_line (xs @ newline # ys) = last_line ys"
    using calculation full_lines_append [of "xs @ [newline]" ys] last_line_append [of "xs @ [newline]" ys]
    by simp_all
  ultimately show ?thesis
    by (simp add: ndjson_pipe_lines lines_of_def map_filter_def)
qed

end
