(* ===== verification/Api_Types.thy ===== *)
theory Api_Types
  imports Prelude
begin

text \<open>
  \<^verbatim>\<open>web/apis/types.ts\<close>: the data the components exchange (tasks, raw probe events, DNS and
  HTTP probe targets), and the expansion of a DNS probe plan into targets. An optional field is
  an \<open>option\<close>; counters are \<open>int\<close>, coordinates exact rationals.
\<close>

section \<open>Enumerations\<close>

datatype PingTaskType = T_ping | T_traceroute | T_tcpping | T_dns | T_http | T_route | T_ip_query

datatype DNSTransport = DNS_udp | DNS_tcp | DNS_tls | DNS_http2 | DNS_http3

datatype DNSQueryType = Q_a | Q_aaaa | Q_cname | Q_mx | Q_ns | Q_ptr | Q_txt

datatype HTTPProto = HTTP11 | HTTP2 | HTTP3

definition defaultHTTPProto :: HTTPProto where
  "defaultHTTPProto = HTTP11"

datatype IPPref = Pref_ip4 | Pref_ip6 | Pref_ip

definition defaultIPPref :: IPPref where
  "defaultIPPref = Pref_ip6"

datatype RouteQueryType = AS_Path_Segs | Neighbor_ASN | Origin_ASN | IP_Or_CIDR

definition defaultRouteQueryType :: RouteQueryType where
  "defaultRouteQueryType = AS_Path_Segs"

fun getQueryTypeTextPlaceholder :: "RouteQueryType \<Rightarrow> string" where
  "getQueryTypeTextPlaceholder AS_Path_Segs =
     ''e.g. 65001, 65002, 65003. AS Path separated by comma, no '' @ [CHR 0x27] @ ''AS'' @ [CHR 0x27] @ '' prefix''"
| "getQueryTypeTextPlaceholder Origin_ASN = ''e.g. 65001. The autonomous system number.''"
| "getQueryTypeTextPlaceholder Neighbor_ASN = ''e.g. 65001. The autonomous system number.''"
| "getQueryTypeTextPlaceholder IP_Or_CIDR =
     ''e.g. 10.146.7.0/24, 171.148.19.1. Must be an IP address or CIDR.''"

fun getQueryTypeLabel :: "RouteQueryType \<Rightarrow> string" where
  "getQueryTypeLabel AS_Path_Segs = ''AS Path Overlaps''"
| "getQueryTypeLabel Origin_ASN = ''Origin ASN''"
| "getQueryTypeLabel Neighbor_ASN = ''Neighbor ASN''"
| "getQueryTypeLabel IP_Or_CIDR = ''IP or CIDR''"

section \<open>Records\<close>

record DNSTarget =
  dt_corrId :: string
  dt_addrport :: string
  dt_target :: string
  dt_timeoutMs :: "int option"
  dt_transport :: "DNSTransport option"
  dt_queryType :: DNSQueryType
  dt_dotServerName :: "string option"

record DNSResponse =
  dr_corrId :: "string option"
  dr_server :: "string option"
  dr_target :: "string option"
  dr_query_type :: "DNSQueryType option"
  dr_answers :: "string list option"
  dr_answer_strings :: "string list option"
  dr_error :: "string option"
  dr_err_string :: "string option"
  dr_io_timeout :: "bool option"
  dr_no_such_host :: "bool option"
  dr_elapsed :: "int option"
  dr_started_at :: "string option"
  dr_timeout_specified :: "int option"
  dr_transport_used :: "DNSTransport option"

record DNSProbePlan =
  plan_transport :: "DNSTransport option"
  plan_type :: "DNSQueryType option"
  plan_domains :: "string list option"
  plan_resolvers :: "string list option"
  plan_domainsInput :: "string option"
  plan_resolversInput :: "string option"
  plan_serverNameMapInput :: "string option"

record HTTPTarget =
  ht_url :: string
  ht_correlationId :: string
  ht_extraHeaders :: "(string \<times> string) list option"
  ht_proto :: "HTTPProto option"
  ht_resolver :: "string option"
  ht_inetFamilyPreference :: "IPPref option"

record PendingTask =
  sources :: "string list"
  targets :: "string list"
  taskId :: string
  task_type :: PingTaskType
  preferV4 :: "bool option"
  preferV6 :: "bool option"
  useUDP :: "bool option"
  pmtu :: "bool option"
  dnsProbePlan :: "DNSProbePlan option"
  dnsProbeTargets :: "DNSTarget list option"
  httpProbeTargets :: "HTTPTarget list option"
  targetsInput :: "string option"
  headersInput :: "string option"
  selectingHttpTransport :: "HTTPProto option"
  selectingIPPref :: "IPPref option"
  addHeaderSW :: "bool option"
  routeQueryType :: "RouteQueryType option"
  routeQueryTgt :: "string option"

record ExactLocation =
  Longitude :: rat
  Latitude :: rat

record BasicIPInfo =
  info_ASN :: "string option"
  info_Location :: "string option"
  info_ISP :: "string option"
  info_Country :: "string option"
  info_Region :: "string option"
  info_City :: "string option"
  info_Exact :: "ExactLocation option"
  info_ISO3166Alpha2 :: "string option"

record RawPingEventMetadata =
  meta_from :: "string option"
  meta_target :: "string option"

record 'd RawPingEvent =
  raw_data :: "'d option"
  raw_metadata :: "RawPingEventMetadata option"
  raw_err :: "string option"
  raw_error :: "string option"

record RawPingEventICMPReply =
  ICMPTypeV4 :: "int option"
  ICMPTypeV6 :: "int option"
  reply_ID :: "int option"
  reply_Peer :: "string option"
  reply_PeerRDNS :: "string list option"
  reply_PeerASN :: "string option"
  reply_PeerLocation :: "string option"
  reply_PeerISP :: "string option"
  reply_PeerExactLocation :: "ExactLocation option"
  reply_ReceivedAt :: "string option"
  reply_Seq :: "int option"
  reply_Size :: "int option"
  reply_TTL :: "int option"
  reply_LastHop :: "bool option"
  reply_SetMTUTo :: "int option"
  reply_PeerIPInfo :: "BasicIPInfo option"

record RawPingEventData =
  RTTMilliSecs :: "int list option"
  RTTNanoSecs :: "int list option"
  ev_Raw :: "RawPingEventICMPReply list option"
  ev_ReceivedAt :: "string list option"
  ev_SentAt :: "string option"
  ev_Seq :: "int option"
  ev_TTL :: "int option"

datatype HTTPProbeTransportEventType =
    TransportEventTypeConnection | TransportEventTypeDNSLookup | TransportEventTypeRequest
  | TransportEventTypeRequestHeader | TransportEventTypeResponse
  | TransportEventTypeResponseHeader | TransportEventTypeMetadata

text \<open>The enum's string values; the client only prints them.\<close>

fun event_type_string :: "HTTPProbeTransportEventType \<Rightarrow> string" where
  "event_type_string TransportEventTypeConnection = ''connection''"
| "event_type_string TransportEventTypeDNSLookup = ''dns-lookup''"
| "event_type_string TransportEventTypeRequest = ''request''"
| "event_type_string TransportEventTypeRequestHeader = ''request-header''"
| "event_type_string TransportEventTypeResponse = ''response''"
| "event_type_string TransportEventTypeResponseHeader = ''response-header''"
| "event_type_string TransportEventTypeMetadata = ''metadata''"

text \<open>An event \<open>Name\<close> is only interpolated into a message, so it is kept as its string.\<close>

record HTTPProbeTransportEvent =
  tev_Type :: "HTTPProbeTransportEventType option"
  tev_Name :: "string option"
  tev_Value :: "string option"
  tev_Date :: "string option"

record HTTPProbeEvent =
  he_transport :: "HTTPProbeTransportEvent option"
  he_error :: "string option"
  he_correlationId :: "string option"

definition FILTERKEY_FROM :: string where
  "FILTERKEY_FROM = ''from''"

definition FILTERKEY_CORR_ID :: string where
  "FILTERKEY_CORR_ID = ''correlationId''"

record EventObject =
  eo_id :: string
  eo_timestamp :: int
  eo_message :: string
  eo_labels :: "(string \<times> string) list option"
  eo_annotations :: "(string \<times> string) list option"

section \<open>Resolvers and server names\<close>

text \<open>The four \<open>replace\<close> calls of \<open>stripResolver\<close>, one regular expression each:
  \<^verbatim>\<open>/^tls:\/\//i\<close>, \<^verbatim>\<open>/:\d+$/\<close>, \<^verbatim>\<open>/\]$/\<close> and \<^verbatim>\<open>/^\[/\<close>.\<close>

definition strip_tls :: "string \<Rightarrow> string" where
  "strip_tls s = (if js_toLowerCase (take 6 s) = ''tls://'' then drop 6 s else s)"

definition strip_port :: "string \<Rightarrow> string" where
  "strip_port s =
     (let ds = takeWhile is_digit (rev s); r = dropWhile is_digit (rev s)
      in if ds \<noteq> [] \<and> r \<noteq> [] \<and> hd r = CHR '':'' then rev (tl r) else s)"

definition strip_close :: "string \<Rightarrow> string" where
  "strip_close s = (if js_endsWith s '']'' then butlast s else s)"

definition strip_open :: "string \<Rightarrow> string" where
  "strip_open s = (if s \<noteq> [] \<and> hd s = CHR ''['' then tl s else s)"

definition stripResolver :: "string \<Rightarrow> string" where
  "stripResolver resolver =
     (let striped = js_trim resolver in
      if length striped = 0 then striped
      else strip_open (strip_close (strip_port (strip_tls striped))))"

definition getServerName :: "string \<Rightarrow> (string \<rightharpoonup> string) \<Rightarrow> string option" where
  "getServerName resolver nameMap =
     (let addr = stripResolver resolver in
      case nameMap addr of
        None \<Rightarrow> None
      | Some serverName \<Rightarrow>
          (if length serverName > 0 then
             (let serverName = js_trim serverName in
              if length serverName > 0 then Some serverName else None)
           else None))"

section \<open>Expanding a DNS probe plan\<close>

definition make_dns_target ::
  "DNSProbePlan \<Rightarrow> (string \<rightharpoonup> string) \<Rightarrow> nat \<Rightarrow> string \<Rightarrow> string \<Rightarrow> DNSTarget" where
  "make_dns_target plan nameMap n domain resolver =
     \<lparr>dt_corrId = nat_to_string n, dt_addrport = resolver, dt_target = domain,
      dt_timeoutMs = None, dt_transport = plan_transport plan,
      dt_queryType = nullish (plan_type plan) Q_a,
      dt_dotServerName =
        (if plan_transport plan = Some DNS_tls \<or> plan_transport plan = Some DNS_http2
            \<or> plan_transport plan = Some DNS_http3
         then getServerName resolver nameMap else None)\<rparr>"

text \<open>The two nested loops, with the list and the map they fill as accumulators.\<close>

fun expand_resolvers ::
  "DNSProbePlan \<Rightarrow> (string \<rightharpoonup> string) \<Rightarrow> string \<Rightarrow> string list
    \<Rightarrow> DNSTarget list \<times> (string \<rightharpoonup> DNSTarget) \<Rightarrow> DNSTarget list \<times> (string \<rightharpoonup> DNSTarget)" where
  "expand_resolvers plan nameMap domain [] acc = acc"
| "expand_resolvers plan nameMap domain (resolver # rs) (ts, m) =
     (let t = make_dns_target plan nameMap (length ts) domain resolver
      in expand_resolvers plan nameMap domain rs (ts @ [t], m(dt_corrId t \<mapsto> t)))"

fun expand_domains ::
  "DNSProbePlan \<Rightarrow> (string \<rightharpoonup> string) \<Rightarrow> string list
    \<Rightarrow> DNSTarget list \<times> (string \<rightharpoonup> DNSTarget) \<Rightarrow> DNSTarget list \<times> (string \<rightharpoonup> DNSTarget)" where
  "expand_domains plan nameMap [] acc = acc"
| "expand_domains plan nameMap (domain # ds) acc =
     expand_domains plan nameMap ds
       (expand_resolvers plan nameMap domain (nullish (plan_resolvers plan) []) acc)"

definition compare_corrId :: "DNSTarget \<Rightarrow> DNSTarget \<Rightarrow> int" where
  "compare_corrId a b =
     (case (js_parseInt (if dt_corrId a = [] then ''0'' else dt_corrId a),
            js_parseInt (if dt_corrId b = [] then ''0'' else dt_corrId b)) of
        (Some x, Some y) \<Rightarrow> x - y
      | _ \<Rightarrow> 0)"

definition expandDNSProbePlan ::
  "DNSProbePlan \<Rightarrow> (string \<rightharpoonup> string) \<Rightarrow> DNSTarget list \<times> (string \<rightharpoonup> DNSTarget)" where
  "expandDNSProbePlan plan nameMap =
     (let (ts, m) = expand_domains plan nameMap (nullish (plan_domains plan) []) ([], Map.empty)
      in (js_sort compare_corrId ts, m))"

subsection \<open>What the expansion computes\<close>

definition expand_spec :: "DNSProbePlan \<Rightarrow> (string \<rightharpoonup> string) \<Rightarrow> DNSTarget list" where
  "expand_spec plan nameMap =
     map (\<lambda>(n, d, r). make_dns_target plan nameMap n d r)
       (List.enumerate 0 (List.product (nullish (plan_domains plan) []) (nullish (plan_resolvers plan) [])))"

definition numbered :: "DNSTarget list \<times> (string \<rightharpoonup> DNSTarget) \<Rightarrow> bool" where
  "numbered acc \<longleftrightarrow> (\<forall>i<length (fst acc). dt_corrId (fst acc ! i) = nat_to_string i)
     \<and> snd acc = (\<lambda>k. List.find (\<lambda>t. dt_corrId t = k) (fst acc))"

lemma dt_corrId_make [simp]: "dt_corrId (make_dns_target plan nm n d r) = nat_to_string n"
  by (simp add: make_dns_target_def)

lemma find_append: "List.find P (xs @ ys) = (case List.find P xs of None \<Rightarrow> List.find P ys | Some x \<Rightarrow> Some x)"
  by (induction xs) auto

lemma find_corrId_fresh:
  "\<forall>i<length ts. dt_corrId (ts ! i) = nat_to_string i \<Longrightarrow>
   List.find (\<lambda>t. dt_corrId t = nat_to_string (length ts)) ts = None"
  by (auto simp: find_None_iff in_set_conv_nth)

lemma expand_resolvers_spec:
  "numbered (ts, m) \<Longrightarrow>
   numbered (expand_resolvers plan nm d rs (ts, m)) \<and>
   fst (expand_resolvers plan nm d rs (ts, m)) =
     ts @ map (\<lambda>(n, r). make_dns_target plan nm n d r) (List.enumerate (length ts) rs)"
proof (induction rs arbitrary: ts m)
  case (Cons r rs)
  let ?t = "make_dns_target plan nm (length ts) d r"
  have "numbered (ts @ [?t], m(nat_to_string (length ts) \<mapsto> ?t))"
    using Cons.prems find_corrId_fresh [of ts]
    by (auto simp: numbered_def nth_append find_append fun_eq_iff less_Suc_eq split: option.splits)
  from Cons.IH [OF this] show ?case by (simp add: Let_def fun_upd_def)
qed simp

lemma enumerate_pair:
  "map (\<lambda>(n, d, r). f n d r) (List.enumerate k (map (Pair d) rs))
    = map (\<lambda>(n, r). f n d r) (List.enumerate k rs)"
  by (induction rs arbitrary: k) auto

lemma expand_domains_spec:
  "numbered (ts, m) \<Longrightarrow>
   numbered (expand_domains plan nm ds (ts, m)) \<and>
   fst (expand_domains plan nm ds (ts, m)) =
     ts @ map (\<lambda>(n, d, r). make_dns_target plan nm n d r)
       (List.enumerate (length ts) (List.product ds (nullish (plan_resolvers plan) [])))"
proof (induction ds arbitrary: ts m)
  case (Cons d ds)
  let ?rs = "nullish (plan_resolvers plan) []"
  obtain ts1 m1 where e: "expand_resolvers plan nm d ?rs (ts, m) = (ts1, m1)" by fastforce
  note step = expand_resolvers_spec [OF Cons.prems, of plan nm d ?rs, unfolded e]
  then have n1: "numbered (ts1, m1)" by (rule conjunct1)
  from step have "ts1 = ts @ map (\<lambda>(n, r). make_dns_target plan nm n d r) (List.enumerate (length ts) ?rs)"
    unfolding fst_conv by (rule conjunct2)
  with Cons.IH [OF n1] show ?case
    by (simp add: e enumerate_append_eq enumerate_pair)
qed simp

lemma find_corrId_map_of:
  "List.find (\<lambda>t. dt_corrId t = k) ts = map_of (map (\<lambda>t. (dt_corrId t, t)) ts) k"
  by (induction ts) auto

lemma find_corrId_nth:
  assumes "\<forall>i<length ts. dt_corrId (ts ! i) = nat_to_string i" and "i < length ts"
  shows "List.find (\<lambda>t. dt_corrId t = nat_to_string i) ts = Some (ts ! i)"
  using assms by (auto simp: find_Some_iff)

text \<open>Targets numbered from 0 are already in ascending order of \<open>parseInt(corrId)\<close>, so the
  final sort leaves them alone.\<close>

lemma js_sort_sorted: "sorted_wrt (\<lambda>a b. cmp a b \<le> 0) xs \<Longrightarrow> js_sort cmp xs = xs"
proof (induction xs)
  case (Cons x xs)
  then have "js_sort cmp xs = xs" by simp
  with Cons.prems show ?case by (cases xs) (simp_all add: js_sort_def)
qed (simp add: js_sort_def)

lemma numbered_sorted:
  assumes "numbered (ts, m)" shows "js_sort compare_corrId ts = ts"
proof (rule js_sort_sorted)
  show "sorted_wrt (\<lambda>a b. compare_corrId a b \<le> 0) ts"
    using assms by (auto simp: sorted_wrt_iff_nth_less numbered_def compare_corrId_def)
qed

lemma expandDNSProbePlan_spec:
  "fst (expandDNSProbePlan plan nm) = expand_spec plan nm \<and> numbered (expandDNSProbePlan plan nm)"
proof -
  obtain ts m where e: "expand_domains plan nm (nullish (plan_domains plan) []) ([], Map.empty) = (ts, m)"
    by fastforce
  have "numbered ([], Map.empty)" by (simp add: numbered_def fun_eq_iff)
  note step = expand_domains_spec [OF this, of plan nm "nullish (plan_domains plan) []", unfolded e]
  then have n: "numbered (ts, m)" by (rule conjunct1)
  from step have "ts = expand_spec plan nm" by (simp add: expand_spec_def)
  with n show ?thesis by (simp add: expandDNSProbePlan_def e numbered_sorted)
qed

text \<open>Expanding a DNS probe plan gives one target per (domain, resolver) pair, in the
  order of the two nested loops; the target at index \<open>i\<close> carries correlation id \<open>i\<close>, the final
  sort by \<open>parseInt(corrId)\<close> changes nothing, and the map returned beside the list finds, for
  every correlation id, exactly the target at that index and nothing for any other key.\<close>

theorem expandDNSProbePlan_numbers_product:
  "case expandDNSProbePlan plan nameMap of (ts, m) \<Rightarrow>
     ts = map (\<lambda>(n, d, r). make_dns_target plan nameMap n d r)
            (List.enumerate 0 (List.product (nullish (plan_domains plan) [])
                                            (nullish (plan_resolvers plan) [])))
     \<and> m = map_of (map (\<lambda>t. (dt_corrId t, t)) ts)
     \<and> (\<forall>i<length ts. m (nat_to_string i) = Some (ts ! i))"
proof -
  obtain ts m where e: "expandDNSProbePlan plan nameMap = (ts, m)" by fastforce
  from expandDNSProbePlan_spec [of plan nameMap, unfolded e fst_conv]
  have ts: "ts = expand_spec plan nameMap" and n: "numbered (ts, m)" by blast+
  moreover from n have m: "m = map_of (map (\<lambda>t. (dt_corrId t, t)) ts)"
    by (simp add: numbered_def find_corrId_map_of fun_eq_iff)
  moreover have "\<forall>i<length ts. m (nat_to_string i) = Some (ts ! i)"
    using n by (auto simp: numbered_def find_corrId_nth)
  ultimately show ?thesis by (simp add: e expand_spec_def)
qed

subsection \<open>What \<open>stripResolver\<close> computes\<close>

definition plain_host :: "string \<Rightarrow> bool" where
  "plain_host h \<longleftrightarrow> h \<noteq> [] \<and> \<not> is_ws (hd h) \<and> \<not> is_ws (last h)
     \<and> (\<forall>c\<in>set h. c \<notin> {CHR ''['', CHR '']'', CHR ''/''})"

definition resolver_text :: "bool \<Rightarrow> bool \<Rightarrow> string \<Rightarrow> nat option \<Rightarrow> string" where
  "resolver_text tls brackets h port =
     (if tls then ''tls://'' else []) @ (if brackets then CHR ''['' # h @ '']'' else h)
     @ (case port of None \<Rightarrow> [] | Some p \<Rightarrow> CHR '':'' # nat_to_string p)"

lemma strip_port_port: "strip_port (s @ CHR '':'' # nat_to_string p) = s"
proof -
  have nd: "\<not> is_digit CHR '':''" by (simp add: is_digit_def)
  have d: "list_all is_digit (rev (nat_to_string p))"
    by (simp add: list_all_iff nat_to_string_digits)
  have "takeWhile is_digit (xs @ CHR '':'' # ys) = xs \<and>
        dropWhile is_digit (xs @ CHR '':'' # ys) = CHR '':'' # ys" if "list_all is_digit xs" for xs ys
    using that nd by (induction xs) auto
  from this [OF d, of "rev s"] show ?thesis by (simp add: strip_port_def)
qed

lemma strip_port_no_colon: "CHR '':'' \<notin> set s \<Longrightarrow> strip_port s = s"
proof -
  assume a: "CHR '':'' \<notin> set s"
  let ?r = "dropWhile is_digit (rev s)"
  have "set ?r \<subseteq> set s" by (metis set_dropWhileD set_rev subsetI)
  with a have "\<not> (?r \<noteq> [] \<and> hd ?r = CHR '':'')" by (metis hd_in_set subsetD)
  then show ?thesis unfolding strip_port_def Let_def by argo
qed

lemma strip_port_last: "\<not> is_digit (last s) \<Longrightarrow> strip_port s = s"
  by (cases s rule: rev_cases) (simp_all add: strip_port_def)

lemma strip_tls_no_slash: "CHR ''/'' \<notin> set (take 6 s) \<Longrightarrow> strip_tls s = s"
proof -
  assume a: "CHR ''/'' \<notin> set (take 6 s)"
  have lower: "c = CHR ''/''" if "to_lower_char c = CHR ''/''" for c
  proof (rule ccontr)
    assume "c \<noteq> CHR ''/''"
    with that have r: "65 \<le> (of_char c :: nat)" "(of_char c :: nat) \<le> 90"
      and e: "char_of (of_char c + 32 :: nat) = CHR ''/''"
      by (auto simp: to_lower_char_def simp del: of_char_of split: if_splits)
    from arg_cong [OF e, of "of_char :: char \<Rightarrow> nat"] have "(of_char c + 32 :: nat) mod 256 = 47"
      by (simp add: of_char_of)
    moreover have "(of_char c + 32 :: nat) mod 256 = of_char c + 32" using r by simp
    ultimately show False using r by linarith
  qed
  have "CHR ''/'' \<notin> set (js_toLowerCase (take 6 s))"
  proof
    assume "CHR ''/'' \<in> set (js_toLowerCase (take 6 s))"
    then obtain c where c: "c \<in> set (take 6 s)" and e: "to_lower_char c = CHR ''/''"
      unfolding js_toLowerCase_def set_map by force
    from lower [OF e] c a show False by simp
  qed
  then have "js_toLowerCase (take 6 s) \<noteq> ''tls://''" by (metis in_set_conv_decomp append_Cons append_Nil)
  then show ?thesis by (simp add: strip_tls_def)
qed

lemma strip_tls_tls: "strip_tls (''tls://'' @ s) = s"
  by (simp add: strip_tls_def js_toLowerCase_def to_lower_char_def)

lemma resolver_text_trim:
  assumes "plain_host h" shows "js_trim (resolver_text tls brackets h port) = resolver_text tls brackets h port"
proof (rule js_trim_id, rule disjI2, rule conjI)
  have ws: "\<not> is_ws CHR ''t''" "\<not> is_ws CHR ''[''" "\<not> is_ws CHR '']''" by (simp_all add: is_ws_def)
  show "\<not> is_ws (hd (resolver_text tls brackets h port))"
    using assms ws by (auto simp: resolver_text_def plain_host_def hd_append)
  have "\<not> is_ws (last (nat_to_string p))" for p
    by (metis is_digit_not_ws last_in_set nat_to_string_digits nat_to_string_not_Nil)
  then show "\<not> is_ws (last (resolver_text tls brackets h port))"
    using assms ws by (auto simp: resolver_text_def plain_host_def last_append split: option.splits)
qed

text \<open>The TLS server name of a resolver is looked up under its bare host: a \<open>tls://\<close>
  scheme, a port and the brackets of an IPv6 literal play no part, so \<open>h\<close>, \<open>h:p\<close>,
  \<open>tls://h\<close>, \<open>tls://h:p\<close>, \<open>[h]\<close> and \<open>tls://[h]:p\<close> all reduce to \<open>h\<close>. A host that
  contains a colon has to be written in brackets.\<close>

theorem stripResolver_host:
  assumes "plain_host h" and "brackets \<or> CHR '':'' \<notin> set h"
  shows "stripResolver (resolver_text tls brackets h port) = h"
proof -
  let ?r = "resolver_text False brackets h port"
  let ?b = "if brackets then CHR ''['' # h @ '']'' else h"
  have h: "h \<noteq> []" "CHR ''['' \<notin> set h" "CHR '']'' \<notin> set h" "CHR ''/'' \<notin> set h"
    using assms(1) by (auto simp: plain_host_def)
  have "CHR ''/'' \<notin> set (nat_to_string p)" for p
    using nat_to_string_digits [of "CHR ''/''" p] by (auto simp: is_digit_def)
  then have "CHR ''/'' \<notin> set ?r"
    using h by (auto simp: resolver_text_def split: option.splits)
  then have "strip_tls ?r = ?r"
    by (meson in_set_takeD strip_tls_no_slash)
  then have tls: "strip_tls (resolver_text tls brackets h port) = ?r"
    using strip_tls_tls [of ?r] by (cases tls) (simp_all add: resolver_text_def)
  have "\<not> is_digit CHR '']''" by (simp add: is_digit_def)
  then have port: "strip_port ?r = ?b"
    using strip_port_port [of ?b] assms(2)
    by (auto simp: resolver_text_def strip_port_no_colon strip_port_last split: option.splits)
  have "last h \<noteq> CHR '']''" "hd h \<noteq> CHR ''[''"
    using h by (metis last_in_set, metis hd_in_set)
  then have "strip_open (strip_close ?b) = h"
    using h by (auto simp: strip_open_def strip_close_def js_endsWith_def suffix_def butlast_append)
  moreover have "resolver_text tls brackets h port \<noteq> []"
    using h by (simp add: resolver_text_def)
  ultimately show ?thesis
    using assms(1) by (simp add: stripResolver_def resolver_text_trim tls port)
qed

lemma stripResolver_host_witness:
  "stripResolver ''tls://[2001:db8::1]:853'' = ''2001:db8::1''
   \<and> stripResolver ''1.1.1.1:53'' = ''1.1.1.1''"
proof -
  have p: "nat_to_string 853 = ''853''" "nat_to_string 53 = ''53''" by code_simp+
  have "plain_host ''2001:db8::1''" "plain_host ''1.1.1.1''"
    by (simp_all add: plain_host_def is_ws_def)
  then show ?thesis
    using stripResolver_host [of "''2001:db8::1''" True True "Some 853"]
      stripResolver_host [of "''1.1.1.1''" False False "Some 53"]
    by (simp add: resolver_text_def p)
qed

definition sample_plan :: DNSProbePlan where
  "sample_plan = \<lparr>plan_transport = None, plan_type = None, plan_domains = Some [''a.org'', ''b.org''],
      plan_resolvers = Some [''1.1.1.1''], plan_domainsInput = None, plan_resolversInput = None,
      plan_serverNameMapInput = None\<rparr>"

lemma expandDNSProbePlan_numbers_product_witness:
  "snd (expandDNSProbePlan sample_plan Map.empty) (nat_to_string 1)
   = Some (make_dns_target sample_plan Map.empty 1 ''b.org'' ''1.1.1.1'')"
proof -
  obtain ts m where e: "expandDNSProbePlan sample_plan Map.empty = (ts, m)" by fastforce
  have l: "List.enumerate 0 (List.product (nullish (plan_domains sample_plan) []) (nullish (plan_resolvers sample_plan) []))
      = [(0, ''a.org'', ''1.1.1.1''), (1, ''b.org'', ''1.1.1.1'')]" by code_simp
  have "ts = [make_dns_target sample_plan Map.empty 0 ''a.org'' ''1.1.1.1'',
      make_dns_target sample_plan Map.empty 1 ''b.org'' ''1.1.1.1'']"
    and m: "\<forall>i<length ts. m (nat_to_string i) = Some (ts ! i)"
    using expandDNSProbePlan_numbers_product [of sample_plan Map.empty] unfolding e l by simp_all
  then show ?thesis using m [rule_format, of 1] by (simp add: e)
qed

end
