(* ===== verification/Trace.thy ===== *)
theory Trace
  imports Api_Types
begin

text \<open>
  \<^verbatim>\<open>web/apis/trace.ts\<close>: the traceroute statistics. A raw event becomes a \<open>TraceEvent\<close>; events are
  folded into \<open>TraceStats\<close>, a map from hop TTL to \<open>HopGroup\<close>, which maps a peer address to
  \<open>PeerStats\<close>; \<open>ToTable\<close> renders the statistics. The maps of the code keep insertion order and
  are association lists here. Round-trip times, sequence numbers and TTLs are integers (the agent
  sends integers); the loss percentage is computed on exact rationals where the code uses doubles.
\<close>

section \<open>Events\<close>

record TraceEvent =
  te_Err :: string
  te_Seq :: int
  te_RTTMs :: int
  te_Peer :: string
  te_PeerRDNS :: string
  te_IPPacketSize :: int
  te_Timeout :: bool
  te_ASN :: string
  te_ISP :: string
  te_CountryAlpha2 :: string
  te_City :: string
  te_ExactLocation :: "ExactLocation option"
  te_TTL :: int
  te_OriginTTL :: int
  te_LastHop :: bool
  te_PMTU :: "int option"

definition fromError :: "string \<Rightarrow> TraceEvent" where
  "fromError err =
     \<lparr>te_Err = err, te_Seq = 0, te_RTTMs = 0, te_Peer = [], te_PeerRDNS = [], te_IPPacketSize = 0,
      te_Timeout = False, te_ASN = [], te_ISP = [], te_CountryAlpha2 = [], te_City = [],
      te_ExactLocation = None, te_TTL = 0, te_OriginTTL = 0, te_LastHop = False, te_PMTU = None\<rparr>"

text \<open>The fields read from the last entry of \<open>data.Raw\<close>, with the fall-back from \<open>PeerIPInfo\<close> to
  the fields of the reply itself.\<close>

definition apply_raw_reply :: "RawPingEventICMPReply \<Rightarrow> TraceEvent \<Rightarrow> TraceEvent" where
  "apply_raw_reply r ev =
     (let info = reply_PeerIPInfo r;
          asn = (case info of None \<Rightarrow> [] | Some i \<Rightarrow> nullish (info_ASN i) []);
          isp = (case info of None \<Rightarrow> [] | Some i \<Rightarrow> nullish (info_ISP i) []);
          city = (case info of None \<Rightarrow> [] | Some i \<Rightarrow> nullish (info_City i) []);
          alpha2 = (case info of None \<Rightarrow> [] | Some i \<Rightarrow> nullish (info_ISO3166Alpha2 i) []);
          exact = (case info of None \<Rightarrow> None | Some i \<Rightarrow> info_Exact i)
      in ev\<lparr>te_Peer := nullish (reply_Peer r) [],
            te_PeerRDNS := (case reply_PeerRDNS r of Some (x # _) \<Rightarrow> x | _ \<Rightarrow> []),
            te_IPPacketSize := nullish (reply_Size r) 0,
            te_TTL := nullish (reply_TTL r) 0,
            te_LastHop := nullish (reply_LastHop r) False,
            te_PMTU := reply_SetMTUTo r,
            te_ASN := (if asn = [] then nullish (reply_PeerASN r) [] else asn),
            te_ISP := (if isp = [] then nullish (reply_PeerISP r) [] else isp),
            te_City := city,
            te_CountryAlpha2 := alpha2,
            te_ExactLocation := (case exact of None \<Rightarrow> reply_PeerExactLocation r | Some l \<Rightarrow> Some l)\<rparr>)"

definition event_of_data :: "RawPingEventData \<Rightarrow> TraceEvent" where
  "event_of_data data =
     (let ev = (fromError [])
                 \<lparr>te_Seq := nullish (ev_Seq data) 0,
                  te_RTTMs := (case RTTMilliSecs data of Some (x # _) \<Rightarrow> x | _ \<Rightarrow> 0),
                  te_Timeout := (case ev_ReceivedAt data of None \<Rightarrow> True | Some l \<Rightarrow> l = []),
                  te_OriginTTL := nullish (ev_TTL data) 0\<rparr>
      in case ev_Raw data of
           None \<Rightarrow> ev
         | Some rs \<Rightarrow> if rs = [] then ev else apply_raw_reply (last rs) ev)"

definition fromRaw :: "RawPingEventData RawPingEvent \<Rightarrow> TraceEvent option" where
  "fromRaw raw =
     (if truthy_str (raw_err raw) then Some (fromError (the (raw_err raw)))
      else if truthy_str (raw_error raw) then Some (fromError (the (raw_error raw)))
      else case raw_metadata raw of
        None \<Rightarrow> None
      | Some md \<Rightarrow>
          if \<not> truthy_str (meta_target md) then None
          else case raw_data raw of
            None \<Rightarrow> Some (fromError ''ping event data is nil'')
          | Some data \<Rightarrow> Some (event_of_data data))"

section \<open>Statistics of one peer\<close>

record PeerStats =
  ps_Peer :: string
  ps_PeerRDNS :: string
  ps_ASN :: string
  ps_ISP :: string
  ps_City :: string
  ps_CountryAlpha2 :: string
  ps_Events :: "TraceEvent list"
  ps_ReceivedCount :: int
  ps_LossCount :: int
  ps_MinRTT :: int
  ps_MaxRTT :: int
  ps_TotalRTT :: int
  ps_PMTU :: "int option"

definition newPeerStats :: PeerStats where
  "newPeerStats =
     \<lparr>ps_Peer = [], ps_PeerRDNS = [], ps_ASN = [], ps_ISP = [], ps_City = [], ps_CountryAlpha2 = [],
      ps_Events = [], ps_ReceivedCount = 0, ps_LossCount = 0, ps_MinRTT = -1, ps_MaxRTT = -1,
      ps_TotalRTT = 0, ps_PMTU = None\<rparr>"

text \<open>\<open>Math.floor(TotalRTT / ReceivedCount)\<close>; \<open>div\<close> on \<open>int\<close> rounds down.\<close>

definition AvgRTT :: "PeerStats \<Rightarrow> int" where
  "AvgRTT ps = (if ps_ReceivedCount ps = 0 then 0 else ps_TotalRTT ps div ps_ReceivedCount ps)"

definition override :: "string \<Rightarrow> string \<Rightarrow> string" where
  "override new old = (if new \<noteq> [] then new else old)"

definition peer_WriteEvent :: "PeerStats \<Rightarrow> TraceEvent \<Rightarrow> PeerStats" where
  "peer_WriteEvent ps ev =
     (let newEvents = js_sort (\<lambda>a b. te_Seq a - te_Seq b) (ps_Events ps @ [ev]);
          peer = override (ps_Peer ps) (te_Peer ev)
      in if te_Timeout ev then
           ps\<lparr>ps_Peer := peer, ps_Events := newEvents, ps_LossCount := ps_LossCount ps + 1\<rparr>
         else
           \<lparr>ps_Peer = peer,
            ps_PeerRDNS = override (te_PeerRDNS ev) (ps_PeerRDNS ps),
            ps_ASN = override (te_ASN ev) (ps_ASN ps),
            ps_ISP = override (te_ISP ev) (ps_ISP ps),
            ps_City = override (te_City ev) (ps_City ps),
            ps_CountryAlpha2 = override (te_CountryAlpha2 ev) (ps_CountryAlpha2 ps),
            ps_Events = newEvents,
            ps_ReceivedCount = ps_ReceivedCount ps + 1,
            ps_LossCount = ps_LossCount ps,
            ps_MinRTT = (if ps_MinRTT ps = -1 \<or> te_RTTMs ev < ps_MinRTT ps then te_RTTMs ev else ps_MinRTT ps),
            ps_MaxRTT = (if ps_MaxRTT ps = -1 \<or> te_RTTMs ev > ps_MaxRTT ps then te_RTTMs ev else ps_MaxRTT ps),
            ps_TotalRTT = ps_TotalRTT ps + te_RTTMs ev,
            ps_PMTU = (case te_PMTU ev of None \<Rightarrow> ps_PMTU ps | Some m \<Rightarrow> Some m)\<rparr>)"

section \<open>Statistics of one hop\<close>

record HopGroup =
  hg_TTL :: int
  hg_Peers :: "(string \<times> PeerStats) list"
  hg_PeerOrder :: "string list"

definition newHopGroup :: "int \<Rightarrow> HopGroup" where
  "newHopGroup ttl = \<lparr>hg_TTL = ttl, hg_Peers = [], hg_PeerOrder = []\<rparr>"

definition peer_key :: "TraceEvent \<Rightarrow> string" where
  "peer_key ev = (if te_Timeout ev \<or> te_Peer ev = [] then ''*'' else te_Peer ev)"

text \<open>The comparator of \<open>PeerOrder\<close>; both keys are in the map when it is called.\<close>

definition maxSeq :: "PeerStats \<Rightarrow> int" where
  "maxSeq ps = te_Seq (last (ps_Events ps))"

definition compare_peers :: "(string \<times> PeerStats) list \<Rightarrow> string \<Rightarrow> string \<Rightarrow> int" where
  "compare_peers peers a b =
     (let peerA = the (map_of peers a); peerB = the (map_of peers b)
      in if ps_Events peerA = [] then 1
         else if ps_Events peerB = [] then -1
         else maxSeq peerB - maxSeq peerA)"

definition hop_WriteEvent :: "HopGroup \<Rightarrow> TraceEvent \<Rightarrow> HopGroup" where
  "hop_WriteEvent hg ev =
     (let newPeers = upsert peer_WriteEvent newPeerStats (peer_key ev) ev (hg_Peers hg)
      in \<lparr>hg_TTL = hg_TTL hg, hg_Peers = newPeers,
          hg_PeerOrder = js_sort (compare_peers newPeers) (map fst newPeers)\<rparr>)"

section \<open>Statistics of a trace\<close>

record TraceStats =
  Hops :: "(int \<times> HopGroup) list"
  HopOrder :: "int list"

definition newTraceStats :: TraceStats where
  "newTraceStats = \<lparr>Hops = [], HopOrder = []\<rparr>"

definition hop_key :: "TraceEvent \<Rightarrow> int" where
  "hop_key ev = (if te_OriginTTL ev \<le> 0 then 1 else te_OriginTTL ev)"

definition trace_WriteEvent :: "TraceStats \<Rightarrow> TraceEvent \<Rightarrow> TraceStats" where
  "trace_WriteEvent st ev =
     (let hopTTL = hop_key ev;
          newHops = upsert hop_WriteEvent (newHopGroup hopTTL) hopTTL ev (Hops st);
          newHopOrder = (case map_of (Hops st) hopTTL of
                           Some _ \<Rightarrow> HopOrder st
                         | None \<Rightarrow> js_sort (\<lambda>a b. a - b) (HopOrder st @ [hopTTL]))
      in if te_LastHop ev then
           \<lparr>Hops = filter (\<lambda>(ttl, hop). ttl \<le> hopTTL) newHops,
            HopOrder = filter (\<lambda>ttl. ttl \<le> hopTTL) newHopOrder\<rparr>
         else \<lparr>Hops = newHops, HopOrder = newHopOrder\<rparr>)"

definition trace_run :: "TraceEvent list \<Rightarrow> TraceStats" where
  "trace_run evs = foldl trace_WriteEvent newTraceStats evs"

section \<open>The table\<close>

record Row =
  cells :: "string list"
  spacer :: "bool option"

definition spacerRow :: Row where
  "spacerRow = \<lparr>cells = [], spacer = Some True\<rparr>"

definition fromCells :: "string list \<Rightarrow> Row" where
  "fromCells cs = \<lparr>cells = cs, spacer = Some False\<rparr>"

record Table =
  header :: "Row list"
  rows :: "Row list"

definition trace_header :: "Row list" where
  "trace_header =
     [fromCells [''Hop'', ''Peer'', ''RTTs (Last Min/Avg/Max)'', ''Stats (Rx/Tx/Loss)''],
      fromCells [[], ''(IP address)'', ''ASN Network'', ''City,Country'']]"

definition isTimeoutPeer :: "PeerStats \<Rightarrow> bool" where
  "isTimeoutPeer ps \<longleftrightarrow> ps_ReceivedCount ps = 0 \<and> ps_LossCount ps > 0"

definition peerName :: "PeerStats \<Rightarrow> string" where
  "peerName ps =
     (if isTimeoutPeer ps then ''[TIMEOUT]''
      else let n = (if ps_PeerRDNS ps = [] then ps_Peer ps else ps_PeerRDNS ps)
           in if n = [] \<or> n = ''*'' then ''*'' else n)"

text \<open>The backwards scan for the last event that is not a timeout; 0 if there is none.\<close>

fun lastRTT_loop :: "TraceEvent list \<Rightarrow> int" where
  "lastRTT_loop [] = 0"
| "lastRTT_loop (e # es) = (if \<not> te_Timeout e then te_RTTMs e else lastRTT_loop es)"

definition lastRTT :: "PeerStats \<Rightarrow> int" where
  "lastRTT ps = lastRTT_loop (rev (ps_Events ps))"

definition rttCell :: "PeerStats \<Rightarrow> string" where
  "rttCell ps =
     (if isTimeoutPeer ps then []
      else if ps_ReceivedCount ps > 0 \<and> ps_Events ps \<noteq> [] then
        int_to_string (lastRTT ps) @ ''ms '' @ int_to_string (ps_MinRTT ps) @ ''ms/''
        @ int_to_string (ps_TotalRTT ps div ps_ReceivedCount ps) @ ''ms/''
        @ int_to_string (ps_MaxRTT ps) @ ''ms''
      else ''* */*/*'')"

text \<open>\<open>((loss / total) * 100).toFixed(0)\<close>: the nearest integer, a tie rounded up.\<close>

definition lossPercent :: "int \<Rightarrow> int \<Rightarrow> int" where
  "lossPercent loss totalPkts =
     (if totalPkts > 0 then (200 * loss + totalPkts) div (2 * totalPkts) else 0)"

definition statsCell :: "PeerStats \<Rightarrow> string" where
  "statsCell ps =
     (if isTimeoutPeer ps then []
      else let totalPkts = ps_ReceivedCount ps + ps_LossCount ps
           in int_to_string (ps_ReceivedCount ps) @ ''/'' @ int_to_string totalPkts @ ''/''
              @ int_to_string (lossPercent (ps_LossCount ps) totalPkts) @ ''%'')"

definition ipCell :: "PeerStats \<Rightarrow> string" where
  "ipCell ps =
     (if ps_Peer ps \<noteq> [] \<and> ps_Peer ps \<noteq> ''*'' \<and> ps_ReceivedCount ps > 0
      then ''('' @ ps_Peer ps @ '')'' else ''(*)'')
     @ (case ps_PMTU ps of None \<Rightarrow> [] | Some m \<Rightarrow> ''[PMTU='' @ int_to_string m @ '']'')"

definition pair_cell :: "string \<Rightarrow> string \<Rightarrow> string \<Rightarrow> string" where
  "pair_cell sep a b = (if a \<noteq> [] \<and> b \<noteq> [] then a @ sep @ b else if a \<noteq> [] then a else b)"

definition peer_rows :: "string \<Rightarrow> PeerStats \<Rightarrow> Row list" where
  "peer_rows hopCell ps =
     [fromCells [hopCell, peerName ps, rttCell ps, statsCell ps],
      fromCells [[], ipCell ps, pair_cell '' '' (ps_ASN ps) (ps_ISP ps),
                 pair_cell '','' (ps_City ps) (ps_CountryAlpha2 ps)]]"

fun hop_rows :: "int \<Rightarrow> (string \<times> PeerStats) list \<Rightarrow> bool \<Rightarrow> string list \<Rightarrow> Row list" where
  "hop_rows hopTTL peers isFirstPeer [] = []"
| "hop_rows hopTTL peers isFirstPeer (k # ks) =
     (case map_of peers k of
        None \<Rightarrow> hop_rows hopTTL peers isFirstPeer ks
      | Some ps \<Rightarrow>
          peer_rows (if isFirstPeer then int_to_string hopTTL @ ''.'' else []) ps
          @ hop_rows hopTTL peers False ks)"

fun table_loop :: "(int \<times> HopGroup) list \<Rightarrow> nat \<Rightarrow> int list \<Rightarrow> Row list" where
  "table_loop hops hopIdx [] = []"
| "table_loop hops hopIdx (hopTTL # rest) =
     (if hopIdx > 0 then [spacerRow] else [])
     @ (case map_of hops hopTTL of
          None \<Rightarrow> []
        | Some hop \<Rightarrow> hop_rows hopTTL (hg_Peers hop) True (hg_PeerOrder hop))
     @ table_loop hops (Suc hopIdx) rest"

definition ToTable :: "TraceStats \<Rightarrow> Table" where
  "ToTable st =
     \<lparr>header = trace_header,
      rows = (if HopOrder st = [] then [] else table_loop (Hops st) 0 (HopOrder st))\<rparr>"

definition getExampleTable :: Table where
  "getExampleTable =
     \<lparr>header = trace_header,
      rows =
        [fromCells [''1.'', ''homelab.local'', ''1ms 1ms/2ms/3ms'', ''2/3/33%''],
         fromCells [[], ''(192.168.1.1)[PMTU=1492]'', ''RFC1918'', []],
         spacerRow,
         fromCells [''2.'', ''a.example.com'', ''10ms 10ms/10ms/10ms'', ''3/3/0%''],
         fromCells [[], ''(17.18.19.20)'', ''AS12345 Example LLC'', ''HongKong,HK''],
         spacerRow,
         fromCells [''3.'', ''[TIMEOUT]'', [], []],
         fromCells [[], ''(*)'', [], []],
         spacerRow,
         fromCells [''4.'', ''google.com'', ''100ms 100ms/100ms/100ms'', ''1/1/0%'']]\<rparr>"

section \<open>What the statistics are\<close>

subsection \<open>A peer\<close>

definition peer_run :: "TraceEvent list \<Rightarrow> PeerStats" where
  "peer_run evs = foldl peer_WriteEvent newPeerStats evs"

definition received :: "TraceEvent list \<Rightarrow> TraceEvent list" where
  "received evs = filter (\<lambda>e. \<not> te_Timeout e) evs"

definition lost :: "TraceEvent list \<Rightarrow> TraceEvent list" where
  "lost evs = filter te_Timeout evs"

abbreviation rtts :: "TraceEvent list \<Rightarrow> int list" where
  "rtts evs \<equiv> map te_RTTMs (received evs)"

lemma peer_run_Nil [simp]: "peer_run [] = newPeerStats"
  by (simp add: peer_run_def)

lemma peer_run_snoc [simp]: "peer_run (evs @ [e]) = peer_WriteEvent (peer_run evs) e"
  by (simp add: peer_run_def)

lemma received_simps [simp]:
  "received [] = []" "received (evs @ [e]) = (if te_Timeout e then received evs else received evs @ [e])"
  by (simp_all add: received_def)

lemma lost_simps [simp]:
  "lost [] = []" "lost (evs @ [e]) = (if te_Timeout e then lost evs @ [e] else lost evs)"
  by (simp_all add: lost_def)

lemma peer_events: "ps_Events (peer_run evs) = sort_key te_Seq evs"
proof (induction evs rule: rev_induct)
  case (snoc e evs)
  have "ps_Events (peer_WriteEvent ps e) = sort_key te_Seq (ps_Events ps @ [e])" for ps
    by (simp add: peer_WriteEvent_def Let_def js_sort_key)
  with snoc show ?case by (simp add: sort_key_sort_key_append)
qed (simp add: newPeerStats_def)

lemma peer_counts:
  "ps_ReceivedCount (peer_run evs) = int (length (received evs))"
  "ps_LossCount (peer_run evs) = int (length (lost evs))"
  "ps_TotalRTT (peer_run evs) = sum_list (rtts evs)"
  by (induction evs rule: rev_induct) (auto simp: newPeerStats_def peer_WriteEvent_def Let_def)

lemma peer_min_max:
  assumes "\<forall>r\<in>set (rtts evs). 0 \<le> r"
  shows "if received evs = [] then ps_MinRTT (peer_run evs) = -1 \<and> ps_MaxRTT (peer_run evs) = -1
         else ps_MinRTT (peer_run evs) = Min (set (rtts evs)) \<and> ps_MaxRTT (peer_run evs) = Max (set (rtts evs))"
  using assms
proof (induction evs rule: rev_induct)
  case (snoc e evs)
  show ?case
  proof (cases "te_Timeout e")
    case True
    with snoc show ?thesis by (simp add: peer_WriteEvent_def Let_def)
  next
    case False
    show ?thesis
    proof (cases "received evs = []")
      case True
      with snoc False show ?thesis by (simp add: peer_WriteEvent_def Let_def)
    next
      case rec: False
      let ?S = "set (rtts evs)"
      have S: "finite ?S" "?S \<noteq> {}" using rec by simp_all
      have "Min ?S \<in> ?S" "Max ?S \<in> ?S" using Min_in [OF S] Max_in [OF S] .
      with snoc.prems False have ne: "Min ?S \<noteq> -1" "Max ?S \<noteq> -1" by force+
      have ih: "ps_MinRTT (peer_run evs) = Min ?S" "ps_MaxRTT (peer_run evs) = Max ?S"
        using snoc False rec by simp_all
      have "set (rtts (evs @ [e])) = insert (te_RTTMs e) ?S" using False by simp
      then have "Min (set (rtts (evs @ [e]))) = min (te_RTTMs e) (Min ?S)"
        and "Max (set (rtts (evs @ [e]))) = max (te_RTTMs e) (Max ?S)"
        using Min_insert [OF S] Max_insert [OF S] by simp_all
      moreover have "ps_MinRTT (peer_run (evs @ [e])) = min (te_RTTMs e) (Min ?S)"
        and "ps_MaxRTT (peer_run (evs @ [e])) = max (te_RTTMs e) (Max ?S)"
        using False ne ih by (simp_all add: peer_WriteEvent_def Let_def min_def max_def del: set_map)
      ultimately show ?thesis using False by (simp del: set_map)
    qed
  qed
qed (simp add: newPeerStats_def)

lemma sum_list_bounds:
  fixes xs :: "int list"
  shows "xs \<noteq> [] \<Longrightarrow> Min (set xs) * int (length xs) \<le> sum_list xs \<and> sum_list xs \<le> Max (set xs) * int (length xs)"
proof -
  assume "xs \<noteq> []"
  then have "\<And>x. x \<in> set xs \<Longrightarrow> Min (set xs) \<le> x \<and> x \<le> Max (set xs)" by simp
  moreover have "(\<And>x. x \<in> set ys \<Longrightarrow> a \<le> x \<and> x \<le> b) \<Longrightarrow>
      a * int (length ys) \<le> sum_list ys \<and> sum_list ys \<le> b * int (length ys)" for a b and ys :: "int list"
    by (induction ys) (auto simp: algebra_simps add_mono)
  ultimately show ?thesis by blast
qed

lemma avg_bounds:
  assumes "\<forall>r\<in>set (rtts evs). 0 \<le> r" and "received evs \<noteq> []"
  shows "ps_MinRTT (peer_run evs) \<le> AvgRTT (peer_run evs)"
    and "AvgRTT (peer_run evs) \<le> ps_MaxRTT (peer_run evs)"
proof -
  let ?n = "int (length (received evs))" and ?S = "sum_list (rtts evs)"
  have n: "?n > 0" using assms(2) by simp
  have b: "Min (set (rtts evs)) * ?n \<le> ?S" "?S \<le> Max (set (rtts evs)) * ?n"
    using sum_list_bounds [of "rtts evs"] assms(2) by (simp_all del: set_map)
  have "Min (set (rtts evs)) \<le> ?S div ?n"
    using zdiv_mono1 [OF b(1) n] n by simp
  moreover have "?S div ?n \<le> Max (set (rtts evs))"
    using zdiv_mono1 [OF b(2) n] n by simp
  ultimately show "ps_MinRTT (peer_run evs) \<le> AvgRTT (peer_run evs)"
    and "AvgRTT (peer_run evs) \<le> ps_MaxRTT (peer_run evs)"
    using peer_min_max [OF assms(1)] assms(2) n by (simp_all add: AvgRTT_def peer_counts)
qed

lemma peer_maxSeq: "evs \<noteq> [] \<Longrightarrow> maxSeq (peer_run evs) = Max (te_Seq ` set evs)"
  by (simp add: maxSeq_def peer_events last_sort_key)

subsection \<open>A hop\<close>

definition hop_run :: "int \<Rightarrow> TraceEvent list \<Rightarrow> HopGroup" where
  "hop_run ttl evs = foldl hop_WriteEvent (newHopGroup ttl) evs"

definition peer_evs :: "string \<Rightarrow> TraceEvent list \<Rightarrow> TraceEvent list" where
  "peer_evs k evs = filter (\<lambda>e. peer_key e = k) evs"

lemma hop_run_snoc [simp]: "hop_run ttl (evs @ [e]) = hop_WriteEvent (hop_run ttl evs) e"
  by (simp add: hop_run_def)

lemma hop_peers: "hg_Peers (hop_run ttl evs) = group_by peer_WriteEvent (\<lambda>_. newPeerStats) peer_key evs"
  by (induction evs rule: rev_induct) (simp_all add: hop_WriteEvent_def Let_def hop_run_def newHopGroup_def)

lemma hop_ttl [simp]: "hg_TTL (hop_run ttl evs) = ttl"
  by (induction evs rule: rev_induct) (simp_all add: hop_WriteEvent_def Let_def hop_run_def newHopGroup_def)

lemma hop_peer_lookup:
  "map_of (hg_Peers (hop_run ttl evs)) k =
     (if peer_evs k evs = [] then None else Some (peer_run (peer_evs k evs)))"
  by (simp add: hop_peers map_of_group_by Let_def peer_evs_def peer_run_def)

lemma peer_evs_ne: "k \<in> set (map peer_key evs) \<longleftrightarrow> peer_evs k evs \<noteq> []"
  by (auto simp: peer_evs_def filter_empty_conv)

lemma peer_evs_no_star:
  assumes "e \<in> set (peer_evs k evs)" and "k \<noteq> ''*''"
  shows "\<not> te_Timeout e \<and> te_Peer e = k"
  using assms by (auto simp: peer_evs_def peer_key_def split: if_splits)

definition last_heard :: "string \<Rightarrow> TraceEvent list \<Rightarrow> int" where
  "last_heard k evs = Max (te_Seq ` set (peer_evs k evs))"

lemma peer_last_heard: "peer_evs k evs \<noteq> [] \<Longrightarrow> maxSeq (peer_run (peer_evs k evs)) = last_heard k evs"
  by (simp add: last_heard_def peer_maxSeq)

text \<open>The order of the peers: the one heard from last comes first, ties in order of appearance.\<close>

lemma hop_order:
  "hg_PeerOrder (hop_run ttl evs) =
     sort_key (\<lambda>k. - last_heard k evs) (js_dedup (map peer_key evs))"
proof (cases evs rule: rev_cases)
  case Nil
  then show ?thesis by (simp add: hop_run_def newHopGroup_def js_dedup_def)
next
  case (snoc evs' e)
  let ?ks = "js_dedup (map peer_key evs)" and ?m = "\<lambda>k. last_heard k evs"
  let ?P = "hg_Peers (hop_run ttl evs)"
  have keys: "map fst ?P = ?ks" by (simp add: hop_peers keys_group_by)
  have "hg_PeerOrder (hop_run ttl evs) = js_sort (compare_peers ?P) (map fst ?P)"
    unfolding snoc hop_run_snoc hop_WriteEvent_def Let_def by simp
  also have "\<dots> = js_sort (\<lambda>a b. (- ?m a) - (- ?m b)) ?ks"
    unfolding keys
  proof (rule js_sort_cong)
    fix a b assume "a \<in> set ?ks" "b \<in> set ?ks"
    then have ne: "peer_evs a evs \<noteq> []" "peer_evs b evs \<noteq> []"
      by (metis set_js_dedup peer_evs_ne)+
    then have "sort_key te_Seq (peer_evs a evs) \<noteq> []" "sort_key te_Seq (peer_evs b evs) \<noteq> []"
      by (metis length_0_conv length_sort)+
    with ne show "compare_peers ?P a b = (- ?m a) - (- ?m b)"
      by (simp add: compare_peers_def hop_peer_lookup peer_events peer_last_heard)
  qed
  also have "\<dots> = sort_key (\<lambda>k. - ?m k) ?ks" by (rule js_sort_key)
  finally show ?thesis .
qed

lemma hop_order_set: "set (hg_PeerOrder (hop_run ttl evs)) = peer_key ` set evs"
  by (simp add: hop_order)

subsection \<open>A trace\<close>

text \<open>The events of hop \<open>h\<close> that still count: a \<open>LastHop\<close> reply from a lower hop deletes
  everything hop \<open>h\<close> has seen so far, and later events start it afresh.\<close>

definition live_step :: "int \<Rightarrow> TraceEvent list \<Rightarrow> TraceEvent \<Rightarrow> TraceEvent list" where
  "live_step h l e =
     (if te_LastHop e \<and> hop_key e < h then []
      else if hop_key e = h then l @ [e] else l)"

definition live :: "int \<Rightarrow> TraceEvent list \<Rightarrow> TraceEvent list" where
  "live h evs = foldl (live_step h) [] evs"

lemma live_Nil [simp]: "live h [] = []" by (simp add: live_def)

lemma live_snoc [simp]: "live h (evs @ [e]) = live_step h (live h evs) e" by (simp add: live_def)

lemma trace_run_snoc [simp]: "trace_run (evs @ [e]) = trace_WriteEvent (trace_run evs) e"
  by (simp add: trace_run_def)

lemma map_of_filter_key:
  "map_of (filter (\<lambda>(k, v). P k) al) k = (if P k then map_of al k else None)"
  by (induction al) auto

lemma hop_lookup:
  "map_of (Hops (trace_run evs)) h = (if live h evs = [] then None else Some (hop_run h (live h evs)))"
proof (induction evs rule: rev_induct)
  case (snoc e evs)
  have "hop_WriteEvent (newHopGroup h) e = hop_run h [e]" by (simp add: hop_run_def)
  with snoc show ?case
    by (auto simp: trace_WriteEvent_def Let_def map_of_filter_key map_of_upsert live_step_def
        simp flip: hop_run_snoc)
qed (simp add: trace_run_def newTraceStats_def)

lemma js_sort_int: "js_sort (\<lambda>a b. a - b) xs = sort (xs :: int list)"
  using js_sort_key [of id xs] by (simp add: id_def)

lemma hop_order_inv:
  "sorted (HopOrder (trace_run evs)) \<and> distinct (HopOrder (trace_run evs))
   \<and> set (HopOrder (trace_run evs)) = {h. live h evs \<noteq> []}"
proof (induction evs rule: rev_induct)
  case (snoc e evs)
  let ?t = "hop_key e" and ?st = "trace_run evs"
  let ?o = "case map_of (Hops ?st) ?t of Some _ \<Rightarrow> HopOrder ?st
            | None \<Rightarrow> js_sort (\<lambda>a b. a - b) (HopOrder ?st @ [?t])"
  have o: "sorted ?o" "distinct ?o" "set ?o = insert ?t {h. live h evs \<noteq> []}"
    using snoc by (auto simp: hop_lookup js_sort_int split: option.splits)
  show ?case
    using o by (auto simp: trace_WriteEvent_def Let_def live_step_def sorted_wrt_filter)
qed (simp add: trace_run_def newTraceStats_def)

lemma hop_order_run: "HopOrder (trace_run evs) = sorted_list_of_set {h. live h evs \<noteq> []}"
  using hop_order_inv [of evs]
  by (metis sorted_list_of_set.idem_if_sorted_distinct)

text \<open>The hops that remain after a \<open>LastHop\<close> reply.\<close>

lemma live_LastHop: "te_LastHop e \<Longrightarrow> hop_key e < h \<Longrightarrow> live h (evs @ [e]) = []"
  by (simp add: live_step_def)

lemma live_no_LastHop:
  "\<forall>e\<in>set evs. \<not> te_LastHop e \<Longrightarrow> live h evs = filter (\<lambda>e. hop_key e = h) evs"
  by (induction evs rule: rev_induct) (auto simp: live_step_def)

lemma live_subset: "set (live h evs) \<subseteq> set evs"
  by (induction evs rule: rev_induct) (auto simp: live_step_def)

lemma live_key: "e \<in> set (live h evs) \<Longrightarrow> hop_key e = h"
  by (induction evs rule: rev_induct) (auto simp: live_step_def split: if_splits)

text \<open>C3. The statistics after any sequence of events, in any order of arrival, are those of the
  specification: hop \<open>h\<close> exists exactly if some of its events survived the \<open>LastHop\<close>
  truncations, its peers are keyed by address (timeouts under \<open>*\<close>), the statistics of a peer
  are those of the hop's live events with that key, the peers are ordered by the highest sequence
  number heard, and the hops are in ascending order.\<close>

theorem trace_stats_of_events:
  "HopOrder (trace_run evs) = sorted_list_of_set {h. live h evs \<noteq> []}
   \<and> map_of (Hops (trace_run evs)) h
       = (if live h evs = [] then None else Some (hop_run h (live h evs)))
   \<and> map_of (hg_Peers (hop_run h l)) k
       = (if peer_evs k l = [] then None else Some (peer_run (peer_evs k l)))
   \<and> hg_PeerOrder (hop_run h l)
       = sort_key (\<lambda>k. - last_heard k l) (js_dedup (map peer_key l))"
  by (simp add: hop_order_run hop_lookup hop_peer_lookup hop_order)

text \<open>C20. A peer's statistics are exact: its events are all kept, stably sorted by sequence
  number; \<open>ReceivedCount\<close> and \<open>LossCount\<close> count the answered and the timed-out ones and add
  up to the number of events; \<open>TotalRTT\<close> is the sum of the round-trip times; with at least one
  answer \<open>MinRTT\<close> and \<open>MaxRTT\<close> are their minimum and maximum and
  \<open>MinRTT \<le> AvgRTT \<le> MaxRTT\<close>; without one they keep the marker -1.\<close>

theorem peer_stats_exact:
  assumes "\<forall>r\<in>set (rtts evs). 0 \<le> r"
  shows "ps_Events (peer_run evs) = sort_key te_Seq evs
    \<and> ps_ReceivedCount (peer_run evs) = int (length (received evs))
    \<and> ps_LossCount (peer_run evs) = int (length (lost evs))
    \<and> ps_ReceivedCount (peer_run evs) + ps_LossCount (peer_run evs) = int (length evs)
    \<and> ps_TotalRTT (peer_run evs) = sum_list (rtts evs)
    \<and> (if received evs = []
       then ps_MinRTT (peer_run evs) = -1 \<and> ps_MaxRTT (peer_run evs) = -1
       else ps_MinRTT (peer_run evs) = Min (set (rtts evs))
            \<and> ps_MaxRTT (peer_run evs) = Max (set (rtts evs))
            \<and> ps_MinRTT (peer_run evs) \<le> AvgRTT (peer_run evs)
            \<and> AvgRTT (peer_run evs) \<le> ps_MaxRTT (peer_run evs))"
proof -
  have "length (received evs) + length (lost evs) = length evs"
    unfolding received_def lost_def by (metis sum_length_filter_compl add.commute)
  then have n: "int (length (received evs)) + int (length (lost evs)) = int (length evs)"
    by (metis of_nat_add)
  show ?thesis
    using peer_min_max [OF assms] avg_bounds [OF assms] n
    by (auto simp: peer_events peer_counts simp del: set_map)
qed

subsection \<open>The rendered table\<close>

text \<open>What a reader of the table sees of one hop: per peer, in order, two rows of four cells, the
  hop number only on the first.\<close>

definition hop_block :: "int \<Rightarrow> TraceEvent list \<Rightarrow> Row list" where
  "hop_block h l =
     concat (map (\<lambda>(i, k). peer_rows (if i = 0 then int_to_string h @ ''.'' else []) (peer_run (peer_evs k l)))
       (List.enumerate 0 (hg_PeerOrder (hop_run h l))))"

fun separated :: "'r \<Rightarrow> 'r list list \<Rightarrow> 'r list" where
  "separated s [] = []"
| "separated s [b] = b"
| "separated s (b # b' # bs) = b @ s # separated s (b' # bs)"

lemma hop_rows_all:
  assumes "\<forall>k\<in>set ks. map_of peers k = Some (f k)"
  shows "hop_rows h peers (n = 0) ks =
    concat (map (\<lambda>(i, k). peer_rows (if i = 0 then int_to_string h @ ''.'' else []) (f k)) (List.enumerate n ks))"
  using assms
proof (induction ks arbitrary: n)
  case (Cons k ks)
  from Cons.IH [of "Suc n"] Cons.prems show ?case by simp
qed simp

lemma hop_rows_run: "hop_rows h (hg_Peers (hop_run h l)) True (hg_PeerOrder (hop_run h l)) = hop_block h l"
proof -
  have "\<forall>k\<in>set (hg_PeerOrder (hop_run h l)). map_of (hg_Peers (hop_run h l)) k = Some (peer_run (peer_evs k l))"
    by (metis hop_order_set hop_peer_lookup list.set_map peer_evs_ne)
  from hop_rows_all [OF this, of h 0] show ?thesis by (simp add: hop_block_def)
qed

lemma table_loop_separated:
  assumes "\<forall>h\<in>set hs. \<exists>g. map_of hops h = Some g \<and> hop_rows h (hg_Peers g) True (hg_PeerOrder g) = f h"
  shows "table_loop hops n hs = (if n > 0 \<and> hs \<noteq> [] then [spacerRow] else []) @ separated spacerRow (map f hs)"
  using assms
proof (induction hs arbitrary: n)
  case (Cons h hs)
  then show ?case by (cases hs) auto
qed simp

lemma ToTable_run:
  "ToTable (trace_run evs) =
     \<lparr>header = trace_header,
      rows = separated spacerRow
        (map (\<lambda>h. hop_block h (live h evs)) (sorted_list_of_set {h. live h evs \<noteq> []}))\<rparr>"
proof -
  let ?st = "trace_run evs"
  have "\<forall>h\<in>set (HopOrder ?st). \<exists>g. map_of (Hops ?st) h = Some g
      \<and> hop_rows h (hg_Peers g) True (hg_PeerOrder g) = hop_block h (live h evs)"
    using hop_order_inv [of evs] by (auto simp: hop_lookup hop_rows_run)
  from table_loop_separated [OF this, of 0]
  show ?thesis by (simp add: ToTable_def hop_order_run [symmetric])
qed

text \<open>C21. \<open>ToTable\<close> prints the statistics and nothing else: under the fixed header come the hops in
  ascending order, separated by exactly one spacer row each, and for every hop the two rows of
  each of its peers in \<open>PeerOrder\<close>, the hop number only in the first; no hop or peer that is
  listed is skipped.\<close>

theorem table_of_events:
  "ToTable (trace_run evs) =
     \<lparr>header = trace_header,
      rows = separated spacerRow
        (map (\<lambda>h. hop_block h (live h evs)) (sorted_list_of_set {h. live h evs \<noteq> []}))\<rparr>"
  by (rule ToTable_run)

lemma lossPercent_bounds:
  assumes "0 \<le> loss" and "loss \<le> tot" shows "0 \<le> lossPercent loss tot \<and> lossPercent loss tot \<le> 100"
proof (cases "tot > 0")
  case True
  have "(200 * loss + tot) div (2 * tot) \<le> (201 * tot) div (2 * tot)"
    by (rule zdiv_mono1) (use assms True in auto)
  also have "\<dots> = 100" using True by simp
  finally show ?thesis using assms True by (simp add: lossPercent_def pos_imp_zdiv_nonneg_iff)
qed (simp add: lossPercent_def)

subsection \<open>Concrete events\<close>

definition sample_event :: "int \<Rightarrow> int \<Rightarrow> int \<Rightarrow> string \<Rightarrow> TraceEvent" where
  "sample_event ttl sq rtt peer =
     (fromError [])\<lparr>te_Seq := sq, te_RTTMs := rtt, te_Peer := peer, te_OriginTTL := ttl\<rparr>"

definition sample_timeout :: "int \<Rightarrow> int \<Rightarrow> TraceEvent" where
  "sample_timeout ttl sq = (fromError [])\<lparr>te_Seq := sq, te_Timeout := True, te_OriginTTL := ttl\<rparr>"

definition sample_trace :: "TraceEvent list" where
  "sample_trace = [sample_event 1 2 3 ''192.168.1.1'', sample_event 1 1 1 ''192.168.1.1'', sample_timeout 1 3]"

lemmas sample_defs = sample_event_def sample_timeout_def sample_trace_def fromError_def

lemma peer_stats_exact_witness:
  "ps_Events (peer_run sample_trace) =
      [sample_event 1 1 1 ''192.168.1.1'', sample_event 1 2 3 ''192.168.1.1'', sample_timeout 1 3]
   \<and> ps_ReceivedCount (peer_run sample_trace) = 2 \<and> ps_LossCount (peer_run sample_trace) = 1
   \<and> ps_TotalRTT (peer_run sample_trace) = 4
   \<and> ps_MinRTT (peer_run sample_trace) = 1 \<and> ps_MaxRTT (peer_run sample_trace) = 3"
proof -
  have "\<forall>r\<in>set (rtts sample_trace). 0 \<le> r" by (simp add: sample_defs received_def)
  from peer_stats_exact [OF this] show ?thesis
    by (simp add: sample_defs received_def lost_def)
qed

text \<open>An upstream error is turned into an event without a timeout mark, a peer or a TTL, and
  \<open>WriteEvent\<close> never looks at \<open>Err\<close>: the event is entered at hop 1 under the peer \<open>*\<close> as
  one more \<^emph>\<open>received\<close> packet with a round-trip time of 0 ms, which no reply had.\<close>

theorem error_event_counts_as_reply:
  "map_of (Hops (trace_WriteEvent newTraceStats (fromError err))) 1 =
     Some (hop_run 1 [fromError err])
   \<and> map_of (hg_Peers (hop_run 1 [fromError err])) ''*'' = Some (peer_run [fromError err])
   \<and> ps_ReceivedCount (peer_run [fromError err]) = 1
   \<and> ps_LossCount (peer_run [fromError err]) = 0
   \<and> ps_MinRTT (peer_run [fromError err]) = 0
   \<and> rttCell (peer_run [fromError err]) = ''0ms 0ms/0ms/0ms''"
proof -
  have k: "hop_key (fromError err) = 1" "\<not> te_LastHop (fromError err)"
    "peer_key (fromError err) = ''*''" "\<not> te_Timeout (fromError err)" "te_RTTMs (fromError err) = 0"
    by (simp_all add: hop_key_def peer_key_def fromError_def)
  have z: "int_to_string 0 = ''0''" by code_simp
  have r: "rtts [fromError err] = [0]" "received [fromError err] = [fromError err]" "lost [fromError err] = []"
    using k by (simp_all add: received_def lost_def)
  have m: "ps_MinRTT (peer_run [fromError err]) = 0" "ps_MaxRTT (peer_run [fromError err]) = 0"
    using peer_min_max [of "[fromError err]"] r by simp_all
  have "trace_run ([] @ [fromError err]) = trace_WriteEvent newTraceStats (fromError err)"
    by (simp add: trace_run_def)
  moreover have "live 1 ([] @ [fromError err]) = [fromError err]"
    using k by (simp only: live_snoc live_Nil live_step_def) simp
  ultimately have "map_of (Hops (trace_WriteEvent newTraceStats (fromError err))) 1 = Some (hop_run 1 [fromError err])"
    by (metis hop_lookup list.distinct(1))
  moreover have "map_of (hg_Peers (hop_run 1 [fromError err])) ''*'' = Some (peer_run [fromError err])"
    using k by (simp add: hop_peer_lookup peer_evs_def)
  ultimately show ?thesis
    using k r m z
    by (simp add: peer_counts peer_events rttCell_def isTimeoutPeer_def lastRTT_def)
qed

end
