(* ===== verification/Url_Params.thy ===== *)
theory Url_Params
  imports Prelude
begin

text \<open>
  The \<open>URLSearchParams\<close> of the web platform, as far as the client uses it: \<open>set\<close>, \<open>append\<close>
  and \<open>toString\<close> (the \<^verbatim>\<open>application/x-www-form-urlencoded\<close> serialiser, applied to the UTF-8 bytes
  of the name and the value). The parser below is the receiving side of that format; every request
  the client builds is shown to be read back unchanged.
\<close>

type_synonym params = "(string \<times> string) list"

section \<open>The parameter list\<close>

definition params_append :: "string \<Rightarrow> string \<Rightarrow> params \<Rightarrow> params" where
  "params_append k v ps = ps @ [(k, v)]"

text \<open>\<open>set\<close> gives the first pair of that name the new value and drops the others.\<close>

fun params_set :: "string \<Rightarrow> string \<Rightarrow> params \<Rightarrow> params" where
  "params_set k v [] = [(k, v)]"
| "params_set k v ((k', v') # ps) =
     (if k' = k then (k, v) # filter (\<lambda>p. fst p \<noteq> k) ps else (k', v') # params_set k v ps)"

definition params_set_if :: "bool \<Rightarrow> string \<Rightarrow> string \<Rightarrow> params \<Rightarrow> params" where
  "params_set_if c k v ps = (if c then params_set k v ps else ps)"

text \<open>A parameter that is only present under a condition.\<close>

definition opt_param :: "bool \<Rightarrow> string \<Rightarrow> string \<Rightarrow> params" where
  "opt_param c k v = (if c then [(k, v)] else [])"

lemma params_set_fresh: "k \<notin> fst ` set ps \<Longrightarrow> params_set k v ps = ps @ [(k, v)]"
  by (induction ps) auto

lemma params_set_if_fresh:
  "k \<notin> fst ` set ps \<Longrightarrow> params_set_if c k v ps = ps @ opt_param c k v"
  by (simp add: params_set_if_def params_set_fresh opt_param_def)

lemma keys_opt_param: "k' \<in> fst ` set (opt_param c k v) \<longleftrightarrow> c \<and> k' = k"
  by (auto simp: opt_param_def)

lemma map_of_opt_param: "map_of (opt_param c k v @ ps) k' = (if c \<and> k' = k then Some v else map_of ps k')"
  by (simp add: opt_param_def)

lemma map_of_opt_param_end: "map_of (opt_param c k v) k' = (if c \<and> k' = k then Some v else None)"
  by (simp add: opt_param_def)

lemma distinct_opt_param:
  "distinct (map fst (opt_param c k v @ ps)) \<longleftrightarrow> (c \<longrightarrow> k \<notin> fst ` set ps) \<and> distinct (map fst ps)"
  by (auto simp: opt_param_def)

lemma distinct_opt_param_end: "distinct (map fst (opt_param c k v))"
  by (simp add: opt_param_def)

lemma keys_append: "k \<in> fst ` set (ps @ qs) \<longleftrightarrow> k \<in> fst ` set ps \<or> k \<in> fst ` set qs"
  by auto

lemma keys_Cons: "k \<in> fst ` set ((k', v) # qs) \<longleftrightarrow> k = k' \<or> k \<in> fst ` set qs"
  by auto

lemma keys_Nil: "k \<notin> fst ` set []"
  by simp

lemmas keys_simps = keys_append keys_Cons keys_Nil keys_opt_param

section \<open>The serialiser\<close>

definition utf8 :: "char \<Rightarrow> nat list" where
  "utf8 c = (if (of_char c :: nat) < 128 then [of_char c]
             else [192 + of_char c div 64, 128 + of_char c mod 64])"

definition plain_byte :: "nat \<Rightarrow> bool" where
  "plain_byte b \<longleftrightarrow> b = 42 \<or> b = 45 \<or> b = 46 \<or> b = 95 \<or> (48 \<le> b \<and> b \<le> 57)
     \<or> (65 \<le> b \<and> b \<le> 90) \<or> (97 \<le> b \<and> b \<le> 122)"

definition hex_digit :: "nat \<Rightarrow> char" where
  "hex_digit n = char_of (if n < 10 then 48 + n else 55 + n)"

definition encode_byte :: "nat \<Rightarrow> string" where
  "encode_byte b =
     (if b = 32 then ''+'' else if plain_byte b then [char_of b]
      else [CHR ''%'', hex_digit (b div 16), hex_digit (b mod 16)])"

definition form_encode :: "string \<Rightarrow> string" where
  "form_encode s = concat (map encode_byte (concat (map utf8 s)))"

definition params_toString :: "params \<Rightarrow> string" where
  "params_toString ps = js_join ''&'' (map (\<lambda>(k, v). form_encode k @ CHR ''='' # form_encode v) ps)"

section \<open>The receiving side\<close>

definition unhex :: "char \<Rightarrow> nat" where
  "unhex c = (let n = of_char c in if n < 58 then n - 48 else n - 55)"

fun decode_bytes :: "string \<Rightarrow> nat list" where
  "decode_bytes (c # cs) =
     (if c = CHR ''+'' then 32 # decode_bytes cs
      else if c = CHR ''%'' then
        (case cs of h # l # r \<Rightarrow> (16 * unhex h + unhex l) # decode_bytes r | _ \<Rightarrow> 37 # decode_bytes cs)
      else of_char c # decode_bytes cs)"
| "decode_bytes [] = []"

fun decode_utf8 :: "nat list \<Rightarrow> string" where
  "decode_utf8 (b # bs) =
     (if b < 128 then char_of b # decode_utf8 bs
      else (case bs of b' # r \<Rightarrow> char_of ((b - 192) * 64 + (b' - 128)) # decode_utf8 r | [] \<Rightarrow> []))"
| "decode_utf8 [] = []"

definition form_decode :: "string \<Rightarrow> string" where
  "form_decode s = decode_utf8 (decode_bytes s)"

definition split_pair :: "string \<Rightarrow> string \<times> string" where
  "split_pair s = (let k = takeWhile (\<lambda>c. c \<noteq> CHR ''='') s in (form_decode k, form_decode (drop (length k + 1) s)))"

definition parse_query :: "string \<Rightarrow> params" where
  "parse_query s = (if s = [] then [] else map split_pair (js_split CHR ''&'' s))"

section \<open>Round trip\<close>

lemma utf8_less: "b \<in> set (utf8 c) \<Longrightarrow> b < 256"
proof -
  have "(of_char c :: nat) < 256" by simp
  then have "(of_char c :: nat) div 64 < 4" by (intro less_mult_imp_div_less) simp
  then show "b \<in> set (utf8 c) \<Longrightarrow> b < 256" by (auto simp: utf8_def split: if_splits)
qed

lemma decode_utf8_utf8: "decode_utf8 (utf8 c @ bs) = c # decode_utf8 bs"
proof -
  have l: "(of_char c :: nat) < 256" by simp
  have "of_char c div 64 * 64 + of_char c mod 64 = (of_char c :: nat)" by simp
  then show ?thesis using l by (simp add: utf8_def)
qed

lemma decode_utf8_concat: "decode_utf8 (concat (map utf8 s)) = s"
  by (induction s) (simp_all add: decode_utf8_utf8)

lemma unhex_hex_digit [simp]: "n < 16 \<Longrightarrow> unhex (hex_digit n) = n"
  by (simp add: unhex_def hex_digit_def)

lemma char_of_eq_iff: "b < 256 \<Longrightarrow> char_of b = c \<longleftrightarrow> b = (of_char c :: nat)"
  by (metis char_of_char mod_less of_char_of)

lemma eq_char_of_iff: "b < 256 \<Longrightarrow> c = char_of b \<longleftrightarrow> b = (of_char c :: nat)"
  by (metis char_of_eq_iff)

lemma decode_encode_byte: "b < 256 \<Longrightarrow> decode_bytes (encode_byte b @ s) = b # decode_bytes s"
  by (auto simp: encode_byte_def char_of_eq_iff plain_byte_def)

lemma decode_encode_bytes: "\<forall>b\<in>set bs. b < 256 \<Longrightarrow> decode_bytes (concat (map encode_byte bs)) = bs"
  by (induction bs) (simp_all add: decode_encode_byte)

lemma form_decode_encode [simp]: "form_decode (form_encode s) = s"
proof -
  have "\<forall>b\<in>set (concat (map utf8 s)). b < 256" using utf8_less by auto
  then show ?thesis by (simp add: form_decode_def form_encode_def decode_encode_bytes decode_utf8_concat)
qed

definition form_char :: "char \<Rightarrow> bool" where
  "form_char c \<longleftrightarrow> c = CHR ''%'' \<or> c = CHR ''+'' \<or> plain_byte (of_char c)"

lemma encode_byte_chars: "b < 256 \<Longrightarrow> c \<in> set (encode_byte b) \<Longrightarrow> form_char c"
proof -
  assume b: "b < 256"
  have h: "n < 16 \<Longrightarrow> form_char (hex_digit n)" for n
    by (auto simp: form_char_def hex_digit_def plain_byte_def)
  have "b div 16 < 16" "b mod 16 < 16" using b by auto
  then show "c \<in> set (encode_byte b) \<Longrightarrow> form_char c"
    using h [of "b div 16"] h [of "b mod 16"] b
    by (auto simp: encode_byte_def form_char_def split: if_splits)
qed

lemma form_encode_chars: "c \<in> set (form_encode s) \<Longrightarrow> form_char c"
  using utf8_less encode_byte_chars by (fastforce simp: form_encode_def)

lemma form_encode_no_sep: "CHR ''='' \<notin> set (form_encode s)" "CHR ''&'' \<notin> set (form_encode s)"
  using form_encode_chars by (force simp: form_char_def plain_byte_def)+

lemma split_pair_encode: "split_pair (form_encode k @ CHR ''='' # form_encode v) = (k, v)"
proof -
  have "takeWhile (\<lambda>c. c \<noteq> CHR ''='') (form_encode k @ CHR ''='' # form_encode v) = form_encode k"
    using form_encode_no_sep(1) [of k] by (subst takeWhile_append2) auto
  then show ?thesis by (simp add: split_pair_def Let_def)
qed

theorem parse_params_toString: "parse_query (params_toString ps) = ps"
proof (cases "ps = []")
  case True
  then show ?thesis by (simp add: params_toString_def parse_query_def)
next
  case False
  let ?f = "\<lambda>(k, v). form_encode k @ CHR ''='' # form_encode v"
  have "\<forall>w\<in>set (map ?f ps). CHR ''&'' \<notin> set w"
    using form_encode_no_sep(2) by auto
  then have s: "js_split CHR ''&'' (params_toString ps) = map ?f ps"
    using False by (simp add: params_toString_def js_split_join del: set_map)
  then have "params_toString ps \<noteq> []" using False
    by (cases ps; cases "tl ps") (auto simp: params_toString_def)
  moreover have "map split_pair (map ?f ps) = ps"
    by (auto simp: split_pair_encode intro: map_idI)
  ultimately show ?thesis using s by (simp add: parse_query_def)
qed

end
