(* ===== verification/Ping_Events.thy ===== *)
theory Ping_Events
  imports Api_Types Line_Stream Url_Params
begin

text \<open>
  \<^verbatim>\<open>web/apis/globalping.ts\<close>: the list of agents, the raw probe events and the \<open>PingSample\<close>s
  they are adapted to, the request URL and the sample pipeline. \<open>JSON.parse\<close>,
  \<open>JSON.stringify\<close> and \<open>localeCompare\<close> are parameters. Counters are \<open>int\<close>; a latency in
  milliseconds is the exact quotient of the nanoseconds by \<open>1000000\<close>.
\<close>

section \<open>Agents\<close>

text \<open>\<open>process.env.NEXT_PUBLIC_API_ENDPOINT\<close> is the argument.\<close>

definition getApiEndpoint :: "string option \<Rightarrow> string" where
  "getApiEndpoint env = str_or env ''/api''"

definition NodeAttrCountryCode :: string where "NodeAttrCountryCode = ''CountryCode''"
definition NodeAttrCityName :: string where "NodeAttrCityName = ''CityName''"
definition NodeAttrISP :: string where "NodeAttrISP = ''ProviderName''"
definition NodeAttrASN :: string where "NodeAttrASN = ''ProviderASN''"
definition NodeAttrDN42ISP :: string where "NodeAttrDN42ISP = ''DN42ProviderName''"
definition NodeAttrDN42ASN :: string where "NodeAttrDN42ASN = ''DN42ProviderASN''"

record AgentEntry =
  ag_attributes :: "(string \<times> string) list option"
  ag_node_name :: "string option"

text \<open>\<open>sortAndDedup\<close>: the loop with the set of names seen and the list kept.\<close>

fun dedup_nodes :: "string list \<Rightarrow> AgentEntry list \<Rightarrow> AgentEntry list" where
  "dedup_nodes nodeSet [] = []"
| "dedup_nodes nodeSet (node # nodes) =
     (case ag_node_name node of
        Some n \<Rightarrow>
          if n \<noteq> [] \<and> n \<notin> set nodeSet then node # dedup_nodes (n # nodeSet) nodes
          else dedup_nodes nodeSet nodes
      | None \<Rightarrow> dedup_nodes nodeSet nodes)"

definition node_name_of :: "AgentEntry \<Rightarrow> string" where
  "node_name_of node = nullish (ag_node_name node) []"

definition sortAndDedup :: "(string \<Rightarrow> string \<Rightarrow> int) \<Rightarrow> AgentEntry list \<Rightarrow> AgentEntry list" where
  "sortAndDedup localeCompare nodes =
     js_sort (\<lambda>a b. localeCompare (node_name_of a) (node_name_of b)) (dedup_nodes [] nodes)"

text \<open>The parsed \<^verbatim>\<open>/conns\<close> answer: the value of every key is \<open>null\<close>, some other non-object, or an
  object whose \<open>attributes\<close> are an object or not. \<open>typeof null\<close> is \<open>object\<close>, so reading
  \<open>attributes\<close> of a \<open>null\<close> entry throws, and the \<open>catch\<close> answers the empty list.\<close>

datatype ConnValue = CV_null | CV_primitive | CV_object "(string \<times> string) list option" "string option"

definition attr_truthy :: "(string \<times> string) list \<Rightarrow> string \<Rightarrow> bool" where
  "attr_truthy attrs k = truthy_str (map_of attrs k)"

text \<open>The loop over \<open>extraLabels\<close> with its early exit.\<close>

fun labels_match :: "(string \<times> string) list \<Rightarrow> (string \<times> string) list \<Rightarrow> bool" where
  "labels_match attrs [] = True"
| "labels_match attrs ((k, v) # ls) =
     (if \<not> attr_truthy attrs k \<or> map_of attrs k \<noteq> Some v then False else labels_match attrs ls)"

definition TypeError :: js_error where
  "TypeError = JSError ''TypeError''"

fun collect_pingers :: "(string \<times> string) list option \<Rightarrow> ConnValue list \<Rightarrow> AgentEntry list result" where
  "collect_pingers extraLabels [] = Inr []"
| "collect_pingers extraLabels (CV_null # vs) = Inl TypeError"
| "collect_pingers extraLabels (CV_primitive # vs) = collect_pingers extraLabels vs"
| "collect_pingers extraLabels (CV_object attrs name # vs) =
     (case attrs of
        None \<Rightarrow> collect_pingers extraLabels vs
      | Some a \<Rightarrow>
          if \<not> labels_match a (nullish extraLabels []) then collect_pingers extraLabels vs
          else if attr_truthy a ''NodeName'' \<and> attr_truthy a ''CapabilityPing'' then
            map_sum id (\<lambda>ns. \<lparr>ag_attributes = Some a, ag_node_name = name\<rparr> # ns) (collect_pingers extraLabels vs)
          else collect_pingers extraLabels vs)"

definition getCurrentPingerOptions ::
  "(string \<Rightarrow> string \<Rightarrow> int) \<Rightarrow> (string \<times> string) list option \<Rightarrow> ConnValue list result \<Rightarrow> AgentEntry list" where
  "getCurrentPingerOptions localeCompare extraLabels response =
     (case response of
        Inl e \<Rightarrow> []
      | Inr vs \<Rightarrow> (case collect_pingers extraLabels vs of
                    Inl e \<Rightarrow> [] | Inr nodes \<Rightarrow> sortAndDedup localeCompare nodes))"

section \<open>Samples\<close>

record PingSample =
  isTimeout :: bool
  sample_from :: string
  sample_target :: string
  latencyMs :: "rat option"
  sample_mss :: "int option"
  sample_ttl :: int
  receivedTTL :: "int option"
  receivedSize :: "int option"
  sample_seq :: int
  sample_peer :: "string option"
  peerRdns :: "string option"
  peerASN :: "string option"
  peerLocation :: "string option"
  peerISP :: "string option"
  peerExactLocation :: "ExactLocation option"
  sample_lastHop :: "bool option"
  sample_pmtu :: "int option"
  sequenceNo :: "int option"
  peerIPInfo :: "BasicIPInfo option"

definition bare_sample :: "bool \<Rightarrow> string \<Rightarrow> string \<Rightarrow> int \<Rightarrow> int \<Rightarrow> PingSample" where
  "bare_sample timeout from target ttl seq =
     \<lparr>isTimeout = timeout, sample_from = from, sample_target = target, latencyMs = None,
      sample_mss = None, sample_ttl = ttl, receivedTTL = None, receivedSize = None, sample_seq = seq,
      sample_peer = None, peerRdns = None, peerASN = None, peerLocation = None, peerISP = None,
      peerExactLocation = None, sample_lastHop = None, sample_pmtu = None, sequenceNo = None,
      peerIPInfo = None\<rparr>"

text \<open>One tick of \<open>generateFakePingSampleStream\<close>; \<open>rnd i\<close> is \<open>Math.floor(Math.random() * 290)\<close>
  at the \<open>i\<close>-th draw.\<close>

fun fake_targets :: "(nat \<Rightarrow> nat) \<Rightarrow> string \<Rightarrow> string list \<Rightarrow> nat \<Rightarrow> PingSample list" where
  "fake_targets rnd source [] seq = []"
| "fake_targets rnd source (target # ts) seq =
     (bare_sample False source target 64 (int seq))\<lparr>latencyMs := Some (of_nat (rnd seq) + 10)\<rparr>
     # fake_targets rnd source ts (Suc seq)"

fun fake_tick :: "(nat \<Rightarrow> nat) \<Rightarrow> string list \<Rightarrow> string list \<Rightarrow> nat \<Rightarrow> PingSample list" where
  "fake_tick rnd [] tgts seq = []"
| "fake_tick rnd (source # ss) tgts seq =
     fake_targets rnd source tgts seq @ fake_tick rnd ss tgts (seq + length tgts)"

subsection \<open>TCP events\<close>

record TCPRequest =
  req_DstIP :: "string option"
  req_DstPort :: "int option"
  req_Timeout :: "int option"
  req_TTL :: "int option"
  req_Seq :: "int option"
  req_Ack :: "int option"
  req_Window :: "int option"

record TCPReceivedPkt =
  pkt_SrcIP :: "string option"
  pkt_DstIP :: "string option"
  pkt_TTL :: "int option"
  pkt_Size :: "int option"
  pkt_TCPHeaderLen :: "int option"
  pkt_MSS :: "int option"
  pkt_PeerRDNS :: "string list option"
  pkt_PeerASN :: "string option"
  pkt_PeerISP :: "string option"
  pkt_PeerLocation :: "string option"
  pkt_PeerExactLocation :: "ExactLocation option"

record RawTCPPingEventDataDetails =
  det_Seq :: "int option"
  det_SrcIP :: "string option"
  det_SrcPort :: "int option"
  det_Request :: "TCPRequest option"
  det_SentAt :: "string option"
  det_ReceivedAt :: "string option"
  det_ReceivedPkt :: "TCPReceivedPkt option"
  det_RTT :: "int option"
  det_SentTTL :: "int option"

datatype TCPEventType = TCP_received | TCP_timeout

record RawTCPPingEventData =
  tcp_Type :: TCPEventType
  tcp_Details :: "RawTCPPingEventDataDetails option"

record RawTCPPingEvent =
  tcp_data :: "RawTCPPingEventData option"
  tcp_metadata :: "RawPingEventMetadata option"

definition event_from :: "RawPingEventMetadata option \<Rightarrow> string" where
  "event_from md = str_or (Option.bind md meta_from) []"

definition event_target :: "RawPingEventMetadata option \<Rightarrow> string" where
  "event_target md = str_or (Option.bind md meta_target) []"

definition nanos_to_ms :: "int \<Rightarrow> rat" where
  "nanos_to_ms n = of_int n / 1000000"

definition str_or_undefined :: "string option \<Rightarrow> string option" where
  "str_or_undefined s = (if truthy_str s then s else None)"

definition first_of :: "'a list option \<Rightarrow> 'a option" where
  "first_of l = (case l of Some (x # _) \<Rightarrow> Some x | _ \<Rightarrow> None)"

definition pingSampleFromTCPEvent :: "RawTCPPingEvent \<Rightarrow> PingSample option" where
  "pingSampleFromTCPEvent event =
     (let from = event_from (tcp_metadata event); target = event_target (tcp_metadata event) in
      case tcp_data event of
        None \<Rightarrow> None
      | Some data \<Rightarrow>
        (case tcp_Details data of
           None \<Rightarrow> None
         | Some details \<Rightarrow>
             if tcp_Type data \<noteq> TCP_received then
               Some (bare_sample True from target (nullish (det_SentTTL details) 0) (nullish (det_Seq details) 0))
             else if from = [] \<or> target = [] then None
             else
               (case (det_SentTTL details, det_Seq details) of
                  (Some ttl, Some seq) \<Rightarrow>
                    (let pkt = det_ReceivedPkt details in
                     Some ((bare_sample False from target ttl seq)
                       \<lparr>latencyMs := (case det_RTT details of None \<Rightarrow> None
                                      | Some r \<Rightarrow> if r = 0 then None else Some (nanos_to_ms r)),
                        receivedTTL := Option.bind pkt pkt_TTL,
                        receivedSize := Option.bind pkt pkt_Size,
                        sample_peer := Option.bind (det_Request details) req_DstIP,
                        sample_mss := Option.bind pkt pkt_MSS,
                        peerRdns := str_or_undefined (first_of (Option.bind pkt pkt_PeerRDNS)),
                        peerASN := Option.bind pkt pkt_PeerASN,
                        peerISP := Option.bind pkt pkt_PeerISP,
                        peerLocation := Option.bind pkt pkt_PeerLocation,
                        peerExactLocation := Option.bind pkt pkt_PeerExactLocation\<rparr>))
                | _ \<Rightarrow> None)))"

subsection \<open>ICMP and UDP events\<close>

definition last_of :: "'a list option \<Rightarrow> 'a option" where
  "last_of l = (case l of None \<Rightarrow> None | Some xs \<Rightarrow> if xs = [] then None else Some (last xs))"

definition pingSampleFromEvent :: "RawPingEventData RawPingEvent \<Rightarrow> PingSample option" where
  "pingSampleFromEvent event =
     (let from = event_from (raw_metadata event); target = event_target (raw_metadata event);
          data = raw_data event
      in case Option.bind data ev_Seq of
           None \<Rightarrow> None
         | Some seq \<Rightarrow>
             (let raws = Option.bind data ev_Raw; raw = last_of raws in
              Some ((bare_sample (raws = None \<or> raws = Some []) from target
                       (nullish (Option.bind data ev_TTL) 0) seq)
                \<lparr>latencyMs := map_option nanos_to_ms (last_of (Option.bind data RTTNanoSecs)),
                 receivedSize := Option.bind raw reply_Size,
                 receivedTTL := Option.bind raw reply_TTL,
                 sample_peer := Option.bind raw reply_Peer,
                 peerRdns := last_of (Option.bind raw reply_PeerRDNS),
                 peerASN := Option.bind raw reply_PeerASN,
                 peerLocation := Option.bind raw reply_PeerLocation,
                 peerISP := Option.bind raw reply_PeerISP,
                 peerExactLocation := Option.bind raw reply_PeerExactLocation,
                 sample_lastHop := Option.bind raw reply_LastHop,
                 sample_pmtu := Option.bind raw reply_SetMTUTo,
                 peerIPInfo := Option.bind raw reply_PeerIPInfo\<rparr>)))"

subsection \<open>Adapters and the sample pipeline\<close>

definition TCPPingEventAdapter :: "unit \<Rightarrow> RawTCPPingEvent \<Rightarrow> (unit \<times> PingSample list) result" where
  "TCPPingEventAdapter = filter_step pingSampleFromTCPEvent"

definition PingEventAdapter :: "unit \<Rightarrow> RawPingEventData RawPingEvent \<Rightarrow> (unit \<times> PingSample list) result" where
  "PingEventAdapter = filter_step pingSampleFromEvent"

datatype L4PacketType = L4_icmp | L4_udp | L4_tcp

text \<open>The body of the response, as text chunks, through the tokenizer, the JSON decoder and the
  adapter the packet type selects. The two parameters read one line as the event type.\<close>

definition sample_pipe ::
  "(string \<Rightarrow> RawTCPPingEvent option) \<Rightarrow> (string \<Rightarrow> RawPingEventData RawPingEvent option) \<Rightarrow>
   L4PacketType option \<Rightarrow> string list \<Rightarrow> PingSample list result" where
  "sample_pipe parse_tcp parse_icmp l4 cs =
     (if l4 = Some L4_tcp then
        (case ndjson_pipe parse_tcp cs of
           Inl e \<Rightarrow> Inl e
         | Inr evs \<Rightarrow> pipe_through TCPPingEventAdapter (\<lambda>u. Inr (u, [])) () evs)
      else
        (case ndjson_pipe parse_icmp cs of
           Inl e \<Rightarrow> Inl e
         | Inr evs \<Rightarrow> pipe_through PingEventAdapter (\<lambda>u. Inr (u, [])) () evs))"

section \<open>The reader loop of a sample stream\<close>

text \<open>\<open>push\<close> reads one sample at a time and forwards it unless the consumer has cancelled; the
  end of the source ends the loop. The environment's moves: a read that yields a sample, a read
  that reports the end, a cancel by the consumer.\<close>

record control_scope =
  stopped :: bool
  ended :: bool
  enqueued :: "PingSample list"

datatype reader_move = Read PingSample | Read_done | Cancel

fun reader_step :: "control_scope \<Rightarrow> reader_move \<Rightarrow> control_scope" where
  "reader_step sc (Read v) =
     (if ended sc then sc
      else if stopped sc then sc else sc\<lparr>enqueued := enqueued sc @ [v]\<rparr>)"
| "reader_step sc Read_done = sc\<lparr>ended := True\<rparr>"
| "reader_step sc Cancel = sc\<lparr>stopped := True\<rparr>"

definition reader_run :: "reader_move list \<Rightarrow> control_scope" where
  "reader_run ms = foldl reader_step \<lparr>stopped = False, ended = False, enqueued = []\<rparr> ms"

section \<open>Requests\<close>

definition l4_string :: "L4PacketType \<Rightarrow> string" where
  "l4_string t = (case t of L4_icmp \<Rightarrow> ''icmp'' | L4_udp \<Rightarrow> ''udp'' | L4_tcp \<Rightarrow> ''tcp'')"

record PingRequest =
  pr_sources :: "string list"
  pr_targets :: "string list"
  pr_count :: "int option"
  pr_intervalMs :: int
  pr_pktTimeoutMs :: int
  pr_resolver :: "string option"
  pr_ttl :: "string option"
  pr_ipInfoProviderName :: "string option"
  pr_preferV4 :: "bool option"
  pr_preferV6 :: "bool option"
  pr_l4PacketType :: "L4PacketType option"
  pr_randomPayloadSize :: "int option"

definition positive :: "int option \<Rightarrow> bool" where
  "positive n = (case n of None \<Rightarrow> False | Some k \<Rightarrow> k > 0)"

definition ping_params :: "PingRequest \<Rightarrow> params" where
  "ping_params r =
     (let p = params_set ''from'' (js_join '','' (pr_sources r)) [];
          p = params_set ''targets'' (js_join '','' (pr_targets r)) p;
          p = params_set_if (positive (pr_count r)) ''count'' (int_to_string (nullish (pr_count r) 0)) p;
          p = params_set ''intervalMs'' (int_to_string (pr_intervalMs r)) p;
          p = params_set ''pktTimeoutMs'' (int_to_string (pr_pktTimeoutMs r)) p;
          p = params_set_if (truthy_str (pr_resolver r)) ''resolver'' (nullish (pr_resolver r) []) p;
          p = params_set_if (truthy_str (pr_ttl r)) ''ttl'' (nullish (pr_ttl r) []) p;
          p = params_set_if (truthy_str (pr_ipInfoProviderName r)) ''ipInfoProviderName''
                (nullish (pr_ipInfoProviderName r) []) p;
          p = params_set_if (truthy_bool (pr_preferV4 r)) ''preferV4'' ''true'' p;
          p = params_set_if (truthy_bool (pr_preferV6 r)) ''preferV6'' ''true'' p;
          p = params_set_if (pr_l4PacketType r \<noteq> None) ''l4PacketType''
                (case pr_l4PacketType r of None \<Rightarrow> [] | Some t \<Rightarrow> l4_string t) p
      in params_set_if (positive (pr_randomPayloadSize r)) ''randomPayloadSize''
           (int_to_string (nullish (pr_randomPayloadSize r) 0)) p)"

definition getPingSampleStreamURL :: "string option \<Rightarrow> PingRequest \<Rightarrow> string" where
  "getPingSampleStreamURL env r = getApiEndpoint env @ ''/ping?'' @ params_toString (ping_params r)"

definition dns_params :: "(DNSTarget \<Rightarrow> string) \<Rightarrow> DNSTarget list \<Rightarrow> string list \<Rightarrow> params" where
  "dns_params stringify tgts srcs =
     params_set ''l7PacketType'' ''dns''
       (foldl (\<lambda>p t. params_append ''dnsTarget'' (stringify t) p)
          (params_set ''from'' (js_join '','' srcs) []) tgts)"

definition dns_stream_url :: "string option \<Rightarrow> (DNSTarget \<Rightarrow> string) \<Rightarrow> DNSTarget list \<Rightarrow> string list \<Rightarrow> string" where
  "dns_stream_url env stringify tgts srcs =
     getApiEndpoint env @ ''/ping?'' @ params_toString (dns_params stringify tgts srcs)"

text \<open>The stream \<open>makeRealDNSResponseStream\<close> resolves to: the body through the tokenizer and the decoder.\<close>

definition makeRealDNSResponseStream ::
  "(string \<Rightarrow> DNSResponse RawPingEvent option) \<Rightarrow> string list \<Rightarrow> DNSResponse RawPingEvent list result" where
  "makeRealDNSResponseStream parse cs = ndjson_pipe parse cs"

record ConnEntry =
  connected_at :: "int option"
  last_heartbeat :: "int option"
  node_name :: "string option"
  registered_at :: "int option"
  attributes :: "(string \<times> string) list option"

text \<open>\<open>Conns\<close> is an object keyed by connection, enumerated in insertion order.\<close>

type_synonym Conns = "(string \<times> ConnEntry) list"

section \<open>Properties\<close>

subsection \<open>Agents\<close>

lemma dedup_nodes_names:
  "map node_name_of (dedup_nodes seen nodes) =
     dedup_seen seen (filter (\<lambda>n. n \<noteq> []) (map node_name_of nodes))"
proof (induction nodes arbitrary: seen)
  case (Cons node nodes)
  then show ?case by (cases "ag_node_name node") (simp_all add: node_name_of_def)
qed simp

lemma set_dedup_nodes: "set (dedup_nodes seen nodes) \<subseteq> set nodes"
  by (induction seen nodes rule: dedup_nodes.induct) (auto split: option.splits if_splits)

lemma labels_match_iff:
  "labels_match attrs ls \<longleftrightarrow> (\<forall>(k, v)\<in>set ls. v \<noteq> [] \<and> map_of attrs k = Some v)"
proof (induction ls)
  case (Cons kv ls)
  then show ?case
    by (cases kv; cases "map_of attrs (fst kv)") (auto simp: attr_truthy_def)
qed simp

lemma collect_pingers_spec:
  "collect_pingers extra vs = Inr ns \<Longrightarrow> n \<in> set ns \<Longrightarrow>
   \<exists>a name. CV_object (Some a) name \<in> set vs \<and> n = \<lparr>ag_attributes = Some a, ag_node_name = name\<rparr>
     \<and> attr_truthy a ''CapabilityPing'' \<and> labels_match a (nullish extra [])"
proof (induction extra vs arbitrary: ns rule: collect_pingers.induct)
  case (4 extra attrs name vs)
  then show ?case
    by (cases attrs; cases "collect_pingers extra vs") (fastforce split: if_splits)+
qed auto

text \<open>An entry of the answer that qualifies: an object with attributes that carry the wanted
  labels, a name and the ping capability.\<close>

definition qualifies :: "(string \<times> string) list \<Rightarrow> ConnValue \<Rightarrow> AgentEntry option" where
  "qualifies labels v =
     (case v of
        CV_object (Some a) name \<Rightarrow>
          if (\<forall>(k, x)\<in>set labels. x \<noteq> [] \<and> map_of a k = Some x)
             \<and> truthy_str (map_of a ''NodeName'') \<and> truthy_str (map_of a ''CapabilityPing'')
          then Some \<lparr>ag_attributes = Some a, ag_node_name = name\<rparr> else None
      | _ \<Rightarrow> None)"

lemma collect_pingers_filter:
  "collect_pingers extra vs =
     (if CV_null \<in> set vs then Inl TypeError else Inr (List.map_filter (qualifies (nullish extra [])) vs))"
proof (induction extra vs rule: collect_pingers.induct)
  case (4 extra attrs name vs)
  then show ?case
    by (cases attrs) (auto simp: qualifies_def labels_match_iff attr_truthy_def map_filter_simps)
qed (simp_all add: map_filter_simps, simp_all add: qualifies_def)

lemma set_map_filter: "set (List.map_filter f xs) = {y. \<exists>x\<in>set xs. f x = Some y}"
  by (force simp: map_filter_def)

text \<open>The agent list offered to the user, for any answer of the server, holds only qualifying
  entries with a name, each name once; without a \<open>null\<close> entry every qualifying name is
  offered, and a single \<open>null\<close> entry (or a failed request) empties the whole list.\<close>

theorem pinger_options:
  "let opts = getCurrentPingerOptions lc extra (Inr vs); q = qualifies (nullish extra []) in
   distinct (map node_name_of opts)
   \<and> (\<forall>n\<in>set opts. node_name_of n \<noteq> [] \<and> (\<exists>v\<in>set vs. q v = Some n))
   \<and> node_name_of ` set opts =
       (if CV_null \<in> set vs then {} else {node_name_of n | n v. v \<in> set vs \<and> q v = Some n} - {[]})
   \<and> getCurrentPingerOptions lc extra (Inl e) = []"
proof (cases "CV_null \<in> set vs")
  case True
  then show ?thesis by (simp add: getCurrentPingerOptions_def collect_pingers_filter)
next
  case False
  define q where "q = qualifies (nullish extra [])"
  define ns where "ns = List.map_filter q vs"
  define opts where "opts = getCurrentPingerOptions lc extra (Inr vs)"
  have opts: "opts = sortAndDedup lc ns"
    using False by (simp add: opts_def getCurrentPingerOptions_def collect_pingers_filter ns_def q_def)
  have mset: "mset (map node_name_of opts) = mset (map node_name_of (dedup_nodes [] ns))"
    by (simp add: opts sortAndDedup_def)
  have names: "map node_name_of (dedup_nodes [] ns) = js_dedup (filter (\<lambda>n. n \<noteq> []) (map node_name_of ns))"
    by (simp add: dedup_nodes_names js_dedup_def)
  have d: "distinct (map node_name_of opts)"
    using mset by (metis distinct_js_dedup mset_eq_imp_distinct_iff names)
  have s: "node_name_of ` set opts = node_name_of ` set ns - {[]}"
    using arg_cong [OF mset, of set_mset] arg_cong [OF names, of set] by auto
  have sub: "set opts \<subseteq> set ns"
    using set_dedup_nodes by (auto simp: opts sortAndDedup_def)
  have ns: "set ns = {n. \<exists>v\<in>set vs. q v = Some n}" by (simp add: ns_def set_map_filter)
  show ?thesis
    unfolding Let_def q_def [symmetric] opts_def [symmetric]
    using False d s sub ns by (auto simp: getCurrentPingerOptions_def)
qed

subsection \<open>Samples\<close>

text \<open>The samples a consumer sees depend on the text of the response only, not on how it was
  cut into chunks: they are the adapted events of its lines, in order, where lines that do not
  parse and events that cannot be adapted are left out and never fail the stream.\<close>

theorem sample_pipe_lines:
  "sample_pipe parse_tcp parse_icmp l4 cs =
     Inr (if l4 = Some L4_tcp
          then List.map_filter pingSampleFromTCPEvent (List.map_filter parse_tcp (lines_of (concat cs)))
          else List.map_filter pingSampleFromEvent (List.map_filter parse_icmp (lines_of (concat cs))))"
  by (simp add: sample_pipe_def ndjson_pipe_lines TCPPingEventAdapter_def PingEventAdapter_def
      pipe_through_def run_filter_step)

text \<open>An ICMP or UDP event becomes a sample exactly if it has a sequence number; the sample is a
  timeout exactly if the event carries no reply, and then every field that describes a reply is
  absent. A reply's fields are those of the last reply.\<close>

theorem icmp_sample:
  "case pingSampleFromEvent event of
     None \<Rightarrow> Option.bind (raw_data event) ev_Seq = None
   | Some smp \<Rightarrow>
       Some (sample_seq smp) = Option.bind (raw_data event) ev_Seq
       \<and> (case last_of (Option.bind (raw_data event) ev_Raw) of
            None \<Rightarrow> isTimeout smp \<and> sample_peer smp = None \<and> receivedTTL smp = None
                 \<and> receivedSize smp = None \<and> peerRdns smp = None \<and> sample_lastHop smp = None
                 \<and> sample_pmtu smp = None \<and> peerIPInfo smp = None
          | Some r \<Rightarrow> \<not> isTimeout smp \<and> sample_peer smp = reply_Peer r \<and> receivedTTL smp = reply_TTL r
                 \<and> receivedSize smp = reply_Size r \<and> sample_lastHop smp = reply_LastHop r
                 \<and> sample_pmtu smp = reply_SetMTUTo r \<and> peerIPInfo smp = reply_PeerIPInfo r)"
proof (cases "Option.bind (raw_data event) ev_Seq")
  case None
  then show ?thesis by (simp add: pingSampleFromEvent_def Let_def)
next
  case (Some seq)
  then show ?thesis
    by (cases "Option.bind (raw_data event) ev_Raw")
       (auto simp: pingSampleFromEvent_def Let_def bare_sample_def last_of_def)
qed

text \<open>The reader loop: samples are forwarded in order until the consumer cancels or the source ends.\<close>

lemma reader_run_snoc [simp]: "reader_run (ms @ [m]) = reader_step (reader_run ms) m"
  by (simp add: reader_run_def)

fun reads :: "reader_move list \<Rightarrow> PingSample list" where
  "reads (Read v # ms) = v # reads ms"
| "reads _ = []"

lemma reader_stays:
  "stopped sc \<or> ended sc \<Longrightarrow>
   enqueued (foldl reader_step sc ms) = enqueued sc"
proof (induction ms arbitrary: sc)
  case (Cons m ms)
  then show ?case by (cases m) auto
qed simp

lemma reader_run_from:
  "\<not> stopped sc \<Longrightarrow> \<not> ended sc \<Longrightarrow>
   enqueued (foldl reader_step sc ms) = enqueued sc @ reads ms"
proof (induction ms arbitrary: sc)
  case (Cons m ms)
  then show ?case by (cases m) (auto simp: reader_stays)
qed simp

text \<open>Whatever the interleaving of reads, the end of the source and a cancellation, the consumer
  receives exactly the samples read before the first cancellation or end, in order, and nothing
  after it.\<close>

theorem reader_prefix: "enqueued (reader_run ms) = reads ms"
  by (simp add: reader_run_def reader_run_from)

subsection \<open>Requests\<close>

lemma ping_params_list:
  "ping_params r =
     [(''from'', js_join '','' (pr_sources r)), (''targets'', js_join '','' (pr_targets r))]
     @ opt_param (positive (pr_count r)) ''count'' (int_to_string (nullish (pr_count r) 0))
     @ (''intervalMs'', int_to_string (pr_intervalMs r))
     # (''pktTimeoutMs'', int_to_string (pr_pktTimeoutMs r))
     # opt_param (truthy_str (pr_resolver r)) ''resolver'' (nullish (pr_resolver r) [])
     @ opt_param (truthy_str (pr_ttl r)) ''ttl'' (nullish (pr_ttl r) [])
     @ opt_param (truthy_str (pr_ipInfoProviderName r)) ''ipInfoProviderName'' (nullish (pr_ipInfoProviderName r) [])
     @ opt_param (truthy_bool (pr_preferV4 r)) ''preferV4'' ''true''
     @ opt_param (truthy_bool (pr_preferV6 r)) ''preferV6'' ''true''
     @ opt_param (pr_l4PacketType r \<noteq> None) ''l4PacketType''
         (case pr_l4PacketType r of None \<Rightarrow> [] | Some t \<Rightarrow> l4_string t)
     @ opt_param (positive (pr_randomPayloadSize r)) ''randomPayloadSize''
         (int_to_string (nullish (pr_randomPayloadSize r) 0))"
  unfolding ping_params_def Let_def
  by (simp add: params_set_fresh params_set_if_fresh keys_simps del: set_append image_eqI)

lemma ping_params_keys: "distinct (map fst (ping_params r))"
  unfolding ping_params_list
  by (simp add: distinct_opt_param distinct_opt_param_end keys_simps del: set_append map_append)

text \<open>The server reads back from the query string exactly the parameters of the request, in
  this order and each at most once, whatever characters sources, targets, resolver or TTL pattern
  contain; \<open>count\<close>, \<open>resolver\<close>, \<open>ttl\<close>, \<open>ipInfoProviderName\<close>, \<open>preferV4\<close>,
  \<open>preferV6\<close>, \<open>l4PacketType\<close> and \<open>randomPayloadSize\<close> appear only when they are set.\<close>

theorem ping_url_roundtrip:
  "\<exists>q. getPingSampleStreamURL env r = getApiEndpoint env @ ''/ping?'' @ q
     \<and> parse_query q = ping_params r \<and> distinct (map fst (ping_params r))
     \<and> map_of (ping_params r) ''from'' = Some (js_join '','' (pr_sources r))
     \<and> map_of (ping_params r) ''targets'' = Some (js_join '','' (pr_targets r))
     \<and> map_of (ping_params r) ''ttl'' = str_or_undefined (pr_ttl r)
     \<and> map_of (ping_params r) ''resolver'' = str_or_undefined (pr_resolver r)
     \<and> map_of (ping_params r) ''l4PacketType'' = map_option l4_string (pr_l4PacketType r)"
proof (intro exI conjI)
  show "getPingSampleStreamURL env r = getApiEndpoint env @ ''/ping?'' @ params_toString (ping_params r)"
    by (simp add: getPingSampleStreamURL_def)
  show "parse_query (params_toString (ping_params r)) = ping_params r" by (rule parse_params_toString)
  show "distinct (map fst (ping_params r))" by (rule ping_params_keys)
  show "map_of (ping_params r) ''from'' = Some (js_join '','' (pr_sources r))"
    "map_of (ping_params r) ''targets'' = Some (js_join '','' (pr_targets r))"
    unfolding ping_params_list by simp_all
  show "map_of (ping_params r) ''ttl'' = str_or_undefined (pr_ttl r)"
    "map_of (ping_params r) ''resolver'' = str_or_undefined (pr_resolver r)"
    "map_of (ping_params r) ''l4PacketType'' = map_option l4_string (pr_l4PacketType r)"
    unfolding ping_params_list str_or_undefined_def
    by (cases "pr_ttl r", simp_all add: map_of_opt_param map_of_opt_param_end del: map_of_append)
       (cases "pr_resolver r"; simp; fail | cases "pr_l4PacketType r"; simp)+
qed

definition sample_conns :: "ConnValue list" where
  "sample_conns = [CV_object (Some [(''NodeName'', ''lax''), (''CapabilityPing'', ''true'')]) (Some ''lax''),
            CV_primitive, CV_object (Some [(''NodeName'', ''nyc'')]) (Some ''nyc'')]"

lemma pinger_options_witness:
  "node_name_of ` set (getCurrentPingerOptions (\<lambda>a b. 0) None (Inr sample_conns)) = {''lax''}"
proof -
  let ?n = "\<lparr>ag_attributes = Some [(''NodeName'', ''lax''), (''CapabilityPing'', ''true'')], ag_node_name = Some ''lax''\<rparr>"
  have q: "v \<in> set sample_conns \<and> qualifies [] v = Some n \<longleftrightarrow> v = hd sample_conns \<and> n = ?n" for n v
    by (auto simp: sample_conns_def qualifies_def truthy_str_def)
  have n: "CV_null \<notin> set sample_conns" by (simp add: sample_conns_def)
  have m: "node_name_of ?n = ''lax''" by (simp add: node_name_of_def)
  have "node_name_of ` set (getCurrentPingerOptions (\<lambda>a b. 0) None (Inr sample_conns))
     = {node_name_of n | n v. v \<in> set sample_conns \<and> qualifies [] v = Some n} - {[]}"
    using pinger_options [of "\<lambda>a b. 0" None sample_conns "JSError []"] n
    unfolding Let_def nullish_simps by presburger
  then show ?thesis unfolding q by (simp add: m)
qed

end
