(* ===== verification/Node_Directory.thy ===== *)
theory Node_Directory
  imports Ping_Events
begin

text \<open>
  \<^verbatim>\<open>web/apis/utils.ts\<close>: deduplication, the position of an agent, the 12-degree grid that groups
  agents on the map, and the replay of recorded samples with timers. Positions are exact
  rationals: \<open>parseFloat\<close> yields the number the decimal literal denotes.
\<close>

section \<open>Numbers from text\<close>

datatype js_number = NaN | Infinite | Finite rat

definition js_exponent :: "string \<Rightarrow> rat" where
  "js_exponent r =
     (case r of
        c # r' \<Rightarrow>
          if c = CHR ''e'' \<or> c = CHR ''E'' then
            (let neg = (r' \<noteq> [] \<and> hd r' = CHR ''-'');
                 d = takeWhile is_digit (if r' \<noteq> [] \<and> (hd r' = CHR ''-'' \<or> hd r' = CHR ''+'') then tl r' else r')
             in if d = [] then 1 else if neg then 1 / 10 ^ string_val d else 10 ^ string_val d)
          else 1
      | [] \<Rightarrow> 1)"

definition js_parseFloat :: "string \<Rightarrow> js_number" where
  "js_parseFloat s =
     (let t = dropWhile is_ws s;
          neg = (t \<noteq> [] \<and> hd t = CHR ''-'');
          u = (if t \<noteq> [] \<and> (hd t = CHR ''-'' \<or> hd t = CHR ''+'') then tl t else t);
          ip = takeWhile is_digit u; r = dropWhile is_digit u;
          frac = (r \<noteq> [] \<and> hd r = CHR ''.'');
          fp = (if frac then takeWhile is_digit (tl r) else []);
          r' = (if frac then dropWhile is_digit (tl r) else r)
      in if take 8 u = ''Infinity'' then Infinite
         else if ip = [] \<and> fp = [] then NaN
         else (let v = of_nat (string_val (ip @ fp)) / 10 ^ length fp * js_exponent r'
               in Finite (if neg then - v else v)))"

section \<open>Positions and the grid\<close>

definition dedup :: "string list \<Rightarrow> string list" where
  "dedup arr = js_dedup arr"

definition getNodeLatLon :: "ConnEntry \<Rightarrow> (rat \<times> rat) option" where
  "getNodeLatLon conn =
     (case Option.bind (attributes conn) (\<lambda>a. map_of a ''ExactLocation'') of
        None \<Rightarrow> None
      | Some locString \<Rightarrow>
          if locString = [] then None
          else (case js_split CHR '','' locString of
                  [a, b] \<Rightarrow> (case (js_parseFloat a, js_parseFloat b) of
                              (Finite lat, Finite lon) \<Rightarrow> Some (lat, lon) | _ \<Rightarrow> None)
                | _ \<Rightarrow> None))"

definition getGridIndex :: "rat \<times> rat \<Rightarrow> int \<times> int" where
  "getGridIndex latLon = (\<lfloor>fst latLon / 12\<rfloor>, \<lfloor>snd latLon / 12\<rfloor>)"

definition getGridKey :: "rat \<times> rat \<Rightarrow> string" where
  "getGridKey latLon =
     (let (latIndex, lonIndex) = getGridIndex latLon
      in int_to_string latIndex @ '','' @ int_to_string lonIndex)"

record NodeGroup =
  ng_nodes :: "ConnEntry list"
  ng_groupName :: string
  ng_latLon :: "rat \<times> rat"

text \<open>The loop over the connections; \<open>groups\<close> is the record keyed by grid cell.\<close>

definition node_selected :: "string set \<Rightarrow> ConnEntry \<Rightarrow> bool" where
  "node_selected sourceSet conn = (\<not> (truthy_str (node_name conn) \<and> the (node_name conn) \<notin> sourceSet))"

definition add_node :: "string set \<Rightarrow> (string \<times> NodeGroup) list \<Rightarrow> ConnEntry \<Rightarrow> (string \<times> NodeGroup) list" where
  "add_node sourceSet groups connEntry =
     (if \<not> node_selected sourceSet connEntry then groups
      else case getNodeLatLon connEntry of
        None \<Rightarrow> groups
      | Some latLon \<Rightarrow>
          (let gridKey = getGridKey latLon
           in upsert (\<lambda>g (c :: ConnEntry). g\<lparr>ng_nodes := ng_nodes g @ [c]\<rparr>)
                \<lparr>ng_nodes = [], ng_groupName = gridKey, ng_latLon = latLon\<rparr> gridKey connEntry groups))"

definition getNodeGroups :: "Conns \<Rightarrow> string set \<Rightarrow> NodeGroup list" where
  "getNodeGroups conns sourceSet = map snd (foldl (add_node sourceSet) [] (map snd conns))"

subsection \<open>The groups partition the located agents\<close>

definition on_map :: "string set \<Rightarrow> ConnEntry \<Rightarrow> bool" where
  "on_map sourceSet c \<longleftrightarrow> node_selected sourceSet c \<and> getNodeLatLon c \<noteq> None"

definition located :: "string set \<Rightarrow> Conns \<Rightarrow> ConnEntry list" where
  "located sourceSet conns =
     filter (on_map sourceSet) (map snd conns)"

definition cell_of :: "ConnEntry \<Rightarrow> string" where
  "cell_of c = getGridKey (the (getNodeLatLon c))"

abbreviation "push_node \<equiv> \<lambda>g (c :: ConnEntry). g\<lparr>ng_nodes := ng_nodes g @ [c]\<rparr>"

definition empty_group :: "ConnEntry \<Rightarrow> NodeGroup" where
  "empty_group c = \<lparr>ng_nodes = [], ng_groupName = cell_of c, ng_latLon = the (getNodeLatLon c)\<rparr>"

lemma add_nodes_group_by:
  "foldl (add_node S) [] cs =
     group_by push_node empty_group cell_of (filter (on_map S) cs)"
proof (induction cs rule: rev_induct)
  case (snoc c cs)
  have "add_node S m c =
      (if on_map S c then upsert push_node (empty_group c) (cell_of c) c m else m)" for m
    by (cases "getNodeLatLon c") (simp_all add: add_node_def on_map_def cell_of_def empty_group_def Let_def)
  with snoc show ?case by simp
qed simp

lemma foldl_push_node: "foldl push_node g cs = g\<lparr>ng_nodes := ng_nodes g @ cs\<rparr>"
  by (induction cs arbitrary: g) simp_all

lemma group_by_list:
  "group_by step s0 key es =
     map (\<lambda>k. (k, let g = filter (\<lambda>e. key e = k) es in foldl step (s0 (hd g)) g)) (js_dedup (map key es))"
proof -
  let ?m = "group_by step s0 key es"
  have "?m = map (\<lambda>k. (k, the (map_of ?m k))) (map fst ?m)"
    by (rule sym) (auto simp: map_idI comp_def intro!: map_idI)
  also have "\<dots> = map (\<lambda>k. (k, let g = filter (\<lambda>e. key e = k) es in foldl step (s0 (hd g)) g)) (js_dedup (map key es))"
    unfolding keys_group_by
    by (rule map_cong) (auto simp: map_of_group_by Let_def filter_empty_conv)
  finally show ?thesis .
qed

text \<open>C29. The map markers partition the agents: \<open>getNodeGroups\<close> returns one group per occupied
  grid cell, in order of first appearance, named after the cell, placed at the first agent of the
  cell, and holding exactly the selected agents of that cell that have a position, in order.\<close>

theorem node_groups_partition:
  "getNodeGroups conns S =
     map (\<lambda>k. let g = filter (\<lambda>c. cell_of c = k) (located S conns)
              in \<lparr>ng_nodes = g, ng_groupName = k, ng_latLon = the (getNodeLatLon (hd g))\<rparr>)
       (js_dedup (map cell_of (located S conns)))"
proof -
  have "cell_of (hd (filter (\<lambda>c. cell_of c = k) cs)) = k" if "k \<in> set (js_dedup (map cell_of cs))" for k cs
  proof -
    from that have "filter (\<lambda>c. cell_of c = k) cs \<noteq> []" by (auto simp: filter_empty_conv)
    then have "hd (filter (\<lambda>c. cell_of c = k) cs) \<in> set (filter (\<lambda>c. cell_of c = k) cs)" by (rule hd_in_set)
    then show ?thesis by simp
  qed
  then show ?thesis
    by (simp add: getNodeGroups_def add_nodes_group_by located_def group_by_list foldl_push_node
        empty_group_def Let_def del: set_js_dedup filter_filter cong: map_cong)
qed

text \<open>Two positions share a cell exactly if both coordinates fall in the same 12-degree band.\<close>

lemma int_to_string_no_comma: "CHR '','' \<notin> set (int_to_string i)"
proof -
  have "CHR '','' \<notin> set (nat_to_string n)" for n
    using nat_to_string_digits [of "CHR '',''" n] by (auto simp: is_digit_def)
  then show ?thesis by (simp add: int_to_string_def)
qed

lemma append_sep_inj:
  fixes c :: char
  assumes "c \<notin> set a" "c \<notin> set a'" and e: "a @ c # b = a' @ c # b'"
  shows "a = a' \<and> b = b'"
  using assms
proof (induction a arbitrary: a')
  case (Cons x xs)
  then show ?case by (cases a') auto
next
  case Nil
  then show ?case by (cases a') auto
qed

text \<open>The printed cell name identifies the cell: two positions get the same grid key exactly if
  they have the same grid index.\<close>

theorem grid_key_identifies_cell: "getGridKey p = getGridKey q \<longleftrightarrow> getGridIndex p = getGridIndex q"
proof
  assume k: "getGridKey p = getGridKey q"
  obtain a b a' b' where g: "getGridIndex p = (a, b)" "getGridIndex q = (a', b')" by fastforce
  with k have "int_to_string a @ CHR '','' # int_to_string b = int_to_string a' @ CHR '','' # int_to_string b'"
    by (simp add: getGridKey_def)
  from append_sep_inj [OF int_to_string_no_comma int_to_string_no_comma this]
  show "getGridIndex p = getGridIndex q" by (simp add: g)
qed (simp add: getGridKey_def)

section \<open>Replaying recorded samples\<close>

text \<open>\<open>streamFromSamples\<close> arms one timer per sample and closes the stream with the last one. The
  state is what the timers and \<open>cancel\<close> share; \<open>sent\<close> is what the consumer received, \<open>live\<close>
  the timers not yet cleared.\<close>

record replay_state =
  rp_closed :: bool
  rp_timers :: "nat set"
  rp_sent :: "PingSample list"
  rp_finished :: bool

datatype replay_move = Fire nat | Cancel_replay

definition replay_start :: "PingSample list \<Rightarrow> replay_state" where
  "replay_start smps =
     (if smps = [] then \<lparr>rp_closed = True, rp_timers = {}, rp_sent = [], rp_finished = True\<rparr>
      else \<lparr>rp_closed = False, rp_timers = {0..<length smps}, rp_sent = [], rp_finished = False\<rparr>)"

fun replay_step :: "PingSample list \<Rightarrow> replay_state \<Rightarrow> replay_move \<Rightarrow> replay_state" where
  "replay_step smps st (Fire idx) =
     (if idx \<notin> rp_timers st then st
      else let st = st\<lparr>rp_timers := rp_timers st - {idx}\<rparr> in
        if rp_closed st then st
        else let st = st\<lparr>rp_sent := rp_sent st @ [smps ! idx]\<rparr> in
          if idx = length smps - 1 then st\<lparr>rp_closed := True, rp_finished := True\<rparr> else st)"
| "replay_step smps st Cancel_replay = st\<lparr>rp_closed := True, rp_timers := {}\<rparr>"

definition replay_run :: "PingSample list \<Rightarrow> replay_move list \<Rightarrow> replay_state" where
  "replay_run smps ms = foldl (replay_step smps) (replay_start smps) ms"

definition baseDelayMs :: nat where "baseDelayMs = 300"
definition jitterMs :: nat where "jitterMs = 125"

text \<open>The delay of timer \<open>idx\<close>; \<open>r idx\<close> is \<open>Math.floor(Math.random() * jitterMs)\<close>.\<close>

definition delayMs :: "(nat \<Rightarrow> nat) \<Rightarrow> nat \<Rightarrow> nat" where
  "delayMs r idx = baseDelayMs * (idx + 1) + r idx"

lemma delay_strict:
  assumes "\<forall>i. r i < jitterMs" and "i < j" shows "delayMs r i < delayMs r j"
proof -
  have "r i < 125" using assms(1) by (simp add: jitterMs_def)
  moreover from assms(2) have "300 * (i + 1) + 300 \<le> 300 * (j + 1)" by simp
  ultimately show ?thesis by (simp add: delayMs_def baseDelayMs_def)
qed

text \<open>The timers fire by increasing delay, hence by index: the moves of a run that is cancelled
  after \<open>n\<close> timers have fired.\<close>

definition fire_order :: "(nat \<Rightarrow> nat) \<Rightarrow> nat \<Rightarrow> nat list" where
  "fire_order r n = sort_key (delayMs r) [0..<n]"

lemma fire_order_index:
  assumes "\<forall>i. r i < jitterMs" shows "fire_order r n = [0..<n]"
proof -
  have "sorted (map (delayMs r) [0..<n])"
    using delay_strict [OF assms] by (auto simp: sorted_iff_nth_mono_less intro: less_imp_le)
  then show ?thesis by (simp add: fire_order_def sorted_sort_id sort_key_id_if_sorted)
qed

lemma replay_run_snoc: "replay_run smps (ms @ [m]) = replay_step smps (replay_run smps ms) m"
  by (simp add: replay_run_def)

lemma replay_fires:
  assumes "n < length smps"
  shows "replay_run smps (map Fire [0..<n]) =
    \<lparr>rp_closed = False, rp_timers = {n..<length smps}, rp_sent = take n smps, rp_finished = False\<rparr>"
  using assms
proof (induction n)
  case 0
  then show ?case by (auto simp: replay_run_def replay_start_def)
next
  case (Suc n)
  then have ih: "replay_run smps (map Fire [0..<n]) =
    \<lparr>rp_closed = False, rp_timers = {n..<length smps}, rp_sent = take n smps, rp_finished = False\<rparr>" by simp
  have "{n..<length smps} - {n} = {Suc n..<length smps}" by auto
  with Suc.prems show ?case
    by (simp add: replay_run_snoc ih Let_def take_Suc_conv_app_nth)
qed

lemma replay_closed_stays:
  "rp_closed st \<Longrightarrow> rp_sent (foldl (replay_step smps) st ms) = rp_sent st
   \<and> rp_finished (foldl (replay_step smps) st ms) = rp_finished st"
proof (induction ms arbitrary: st)
  case (Cons m ms)
  then show ?case by (cases m) (auto simp: Let_def)
qed simp

text \<open>C30. With jitters below \<open>jitterMs\<close> the timers fire in index order, so a consumer that never
  cancels receives all samples in order and then the end of the stream, and one that cancels after
  \<open>n\<close> samples has received exactly the first \<open>n\<close> and receives nothing more, whatever timers
  were already due.\<close>

theorem replay_in_order:
  assumes "\<forall>i. r i < jitterMs" and "n \<le> length smps"
  shows "let full = replay_run smps (map Fire (fire_order r (length smps)));
             cut = replay_run smps (map Fire (fire_order r n) @ Cancel_replay # ms)
         in rp_sent full = smps \<and> rp_finished full
            \<and> rp_sent cut = take n smps \<and> (rp_finished cut \<longleftrightarrow> n = length smps)"
proof -
  have full: "rp_sent (replay_run smps (map Fire [0..<length smps])) = smps
      \<and> rp_finished (replay_run smps (map Fire [0..<length smps]))"
  proof (cases smps rule: rev_cases)
    case (snoc ys y)
    then have "replay_run smps (map Fire [0..<length ys]) =
      \<lparr>rp_closed = False, rp_timers = {length ys..<length smps}, rp_sent = ys, rp_finished = False\<rparr>"
      using replay_fires [of "length ys" smps] by simp
    with snoc show ?thesis by (auto simp: replay_run_def)
  qed (simp add: replay_run_def replay_start_def)
  have "rp_sent (replay_run smps (map Fire [0..<n])) = take n smps
      \<and> (rp_finished (replay_run smps (map Fire [0..<n])) \<longleftrightarrow> n = length smps)"
    using replay_fires [of n smps] full assms(2) by (cases "n = length smps") auto
  moreover have "replay_run smps (map Fire [0..<n] @ Cancel_replay # ms) =
      foldl (replay_step smps) (replay_step smps (replay_run smps (map Fire [0..<n])) Cancel_replay) ms"
    by (simp add: replay_run_def)
  ultimately show ?thesis
    using full by (simp add: Let_def fire_order_index [OF assms(1)] replay_closed_stays)
qed

lemma replay_in_order_witness:
  "rp_sent (replay_run [bare_sample False ''a'' ''b'' 64 0, bare_sample False ''a'' ''b'' 64 1]
      (map Fire (fire_order (\<lambda>i. 124 - i) 1) @ [Cancel_replay, Fire 1])) = [bare_sample False ''a'' ''b'' 64 0]"
proof -
  have "\<forall>i. 124 - i < jitterMs" unfolding jitterMs_def by presburger
  from replay_in_order [OF this, of 1
      "[bare_sample False ''a'' ''b'' 64 0, bare_sample False ''a'' ''b'' 64 1]" "[Fire 1]"]
  show ?thesis by (simp add: Let_def)
qed

end
