(* ===== verification/World_Map.thy ===== *)
theory World_Map
  imports Prelude
begin

text \<open>
  \<^verbatim>\<open>web/components/worldmap.tsx\<close>: the polygons of the map data, the projection onto the
  canvas, the view box under zooming and dragging, the paths along great circles and the shapes
  drawn for markers and paths. Coordinates of the canvas are numbers of any ordered field;
  angles and points on the sphere are reals. The quaternions of \<^verbatim>\<open>three\<close> are a parameter.
\<close>

section \<open>Polygons of the map data\<close>

text \<open>The coordinates of a geometry are JSON: numbers, arrays and everything else.\<close>

datatype coords = C_num rat | C_arr "coords list" | C_other

fun number_pair :: "coords \<Rightarrow> bool" where
  "number_pair (C_arr [C_num x, C_num y]) = True"
| "number_pair _ = False"

definition isPolygon :: "coords \<Rightarrow> bool" where
  "isPolygon c = (case c of C_arr (p # ps) \<Rightarrow> number_pair p | _ \<Rightarrow> False)"

fun yieldPolygons :: "coords \<Rightarrow> coords list" where
  "yieldPolygons (C_arr cs) =
     (if isPolygon (C_arr cs) then [C_arr cs] else concat (map yieldPolygons cs))"
| "yieldPolygons _ = []"

record Feature =
  ft_coordinates :: "coords option"

record FlatShape =
  fs_groupId :: nat
  fs_feature :: Feature
  fs_polygon :: coords

fun flat_from :: "nat \<Rightarrow> Feature list \<Rightarrow> FlatShape list" where
  "flat_from groupId [] = []"
| "flat_from groupId (f # fs) =
     (case ft_coordinates f of
        None \<Rightarrow> []
      | Some c \<Rightarrow> map (\<lambda>p. \<lparr>fs_groupId = groupId, fs_feature = f, fs_polygon = p\<rparr>) (yieldPolygons c))
     @ flat_from (Suc groupId) fs"

definition toFlatShape :: "Feature list \<Rightarrow> FlatShape list" where
  "toFlatShape features = flat_from 0 features"

section \<open>Projection\<close>

definition getProjector :: "'a \<Rightarrow> 'a \<Rightarrow> 'a \<times> 'a \<Rightarrow> 'a \<times> 'a :: linordered_field" where
  "getProjector canvasX canvasY point =
     (let (longitude, latitude) = point
      in ((longitude - (-180)) * (canvasX / 360), (180 + (latitude - (-90)) * (-1)) * (canvasY / 180)))"

definition RenderPolygon :: "('a \<times> 'a \<Rightarrow> 'a \<times> 'a) \<Rightarrow> ('a \<times> 'a) list \<Rightarrow> ('a \<times> 'a) list" where
  "RenderPolygon projector polygon = map projector (polygon @ [polygon ! 0])"

record Marker =
  lonLat :: "rat \<times> rat"
  mk_fill :: "string option"
  mk_radius :: "rat option"
  mk_strokeWidth :: "rat option"
  mk_stroke :: "string option"
  mk_tooltip :: "string list option"
  mk_open :: "bool option"
  mk_index :: "string option"
  mk_metadata :: "(string \<times> int) list option"

record marker_shape =
  ms_centre :: "rat \<times> rat"
  ms_r :: rat
  ms_label :: "(string \<times> (rat \<times> rat) \<times> rat) option"

definition RenderMarker :: "(rat \<times> rat \<Rightarrow> rat \<times> rat) \<Rightarrow> Marker \<Rightarrow> marker_shape" where
  "RenderMarker projector marker =
     (let (x, y) = projector (lonLat marker); radius = max 1 (nullish (mk_radius marker) 0)
      in \<lparr>ms_centre = (x, y), ms_r = radius,
          ms_label = (if truthy_str (mk_index marker)
                      then Some (the (mk_index marker), (x + radius * (7 / 4), y + radius * (7 / 4)), radius * 2)
                      else None)\<rparr>)"

text \<open>The tooltip of a marker: forced open by the marker, otherwise by hovering.\<close>

datatype tooltip_event = Tip_open | Tip_close

definition tooltip_step :: "Marker \<Rightarrow> bool \<Rightarrow> tooltip_event \<Rightarrow> bool" where
  "tooltip_step marker is_open ev =
     (case ev of
        Tip_open \<Rightarrow> if mk_tooltip marker \<noteq> None then True else is_open
      | Tip_close \<Rightarrow> if truthy_bool (mk_open marker) then is_open else False)"

text \<open>The coordinates of a path are computed in floating point; \<open>None\<close> is \<open>NaN\<close>.\<close>

type_synonym point = "real option \<times> real option"

record Path =
  path_stroke :: "string option"
  path_strokeWidth :: "rat option"
  path_points :: "point list"

datatype path_op = Move_to point | Line_to point

definition RenderPath :: "(point \<Rightarrow> point) \<Rightarrow> Path \<Rightarrow> path_op list option" where
  "RenderPath projector path =
     (if length (path_points path) < 2 then None
      else Some (Move_to (projector (path_points path ! 0))
                 # map (\<lambda>p. Line_to (projector p)) (tl (path_points path))))"

section \<open>The view box\<close>

record view_box =
  offsetX :: rat
  offsetY :: rat
  projXLen :: rat
  projYLen :: rat

record canvas_view =
  cv_box :: view_box
  cv_ratio :: "rat option"
  cv_drag :: "((rat \<times> rat) \<times> (rat \<times> rat) \<times> view_box) option"





definition zoom_box :: "view_box \<Rightarrow> rat \<Rightarrow> view_box" where
  "zoom_box b delta =
     (let ratio = projYLen b / projXLen b;
          newProjYLen = projYLen b * (1 + delta / 280);
          newProjXLen = newProjYLen / ratio;
          deltaX = projXLen b - newProjXLen;
          deltaY = projYLen b - newProjYLen
      in \<lparr>offsetX = offsetX b + deltaX / 2, offsetY = offsetY b + deltaY / 2,
          projXLen = newProjXLen, projYLen = newProjYLen\<rparr>)"


text \<open>\<open>useZoomControl\<close>: the key state.\<close>

datatype key_event = Key_down string | Key_up string

definition zoom_key :: "bool \<Rightarrow> key_event \<Rightarrow> bool" where
  "zoom_key zoomEnabled ev =
     (case ev of
        Key_down k \<Rightarrow> if k = ''Meta'' then True else zoomEnabled
      | Key_up k \<Rightarrow> if k = ''Meta'' then False else zoomEnabled)"

section \<open>Great circles\<close>

type_synonym vec = "real \<times> real \<times> real"

record 'q quaternions =
  setFromAxisAngle :: "vec \<Rightarrow> real \<Rightarrow> 'q"
  multiply :: "'q \<Rightarrow> 'q \<Rightarrow> 'q"
  applyQuaternion :: "vec \<Rightarrow> 'q \<Rightarrow> vec"
  setFromUnitVectors :: "vec \<Rightarrow> vec \<Rightarrow> 'q"
  slerp_identity :: "'q \<Rightarrow> real \<Rightarrow> 'q"

definition getQuatFromLat :: "'q quaternions \<Rightarrow> real \<Rightarrow> 'q" where
  "getQuatFromLat Q lat = setFromAxisAngle Q (1, 0, 0) (((-1) * lat * pi) / 180)"

definition getQuatFromLon :: "'q quaternions \<Rightarrow> real \<Rightarrow> 'q" where
  "getQuatFromLon Q lon = setFromAxisAngle Q (0, 1, 0) ((lon * pi) / 180)"

definition latLonToQuat :: "'q quaternions \<Rightarrow> real \<Rightarrow> real \<Rightarrow> 'q" where
  "latLonToQuat Q lat lon = multiply Q (getQuatFromLon Q lon) (getQuatFromLat Q lat)"

definition baseVector :: vec where
  "baseVector = (0, 0, 1)"

text \<open>\<open>Math.atan(a / b)\<close>: for a zero divisor the quotient is an infinity, or not a number. The reals have
  one zero, and it is read as the positive one; for the \<open>-0\<close> of the floating-point numbers the code's
  quotient is the other infinity, which turns the longitude by 180 degrees.\<close>

definition atan_quot :: "real \<Rightarrow> real \<Rightarrow> real option" where
  "atan_quot a b =
     (if b \<noteq> 0 then Some (arctan (a / b))
      else if a > 0 then Some (pi / 2) else if a < 0 then Some (- (pi / 2)) else None)"

definition xyzToLatLon :: "vec \<Rightarrow> real option \<times> real option" where
  "xyzToLatLon v =
     (let (x, y, z) = v;
          lat = map_option (\<lambda>t. t * 180 / pi) (atan_quot y (sqrt (z * z + x * x)));
          lonDelta = map_option (\<lambda>t. t * 180 / pi) (atan_quot z x)
      in (lat, map_option (\<lambda>l. if x \<ge> 0 then 90 - l else (-1) * (90 + l)) lonDelta))"

definition getGeodesicPoints :: "'q quaternions \<Rightarrow> vec \<Rightarrow> vec \<Rightarrow> nat \<Rightarrow> vec list" where
  "getGeodesicPoints Q startPoint endPoint numPoints =
     (let quaternion = setFromUnitVectors Q startPoint endPoint
      in map (\<lambda>i. applyQuaternion Q startPoint (slerp_identity Q quaternion (of_nat i / of_nat numPoints)))
           [0..<Suc numPoints])"

definition apart :: "real option \<Rightarrow> real option \<Rightarrow> bool" where
  "apart lon1 lon2 =
     (case (lon1, lon2) of
        (Some a, Some b) \<Rightarrow> sin (((a + 180) * pi) / 180) * sin (((b + 180) * pi) / 180) < 0
      | _ \<Rightarrow> False)"

fun mark_from :: "nat \<Rightarrow> point list \<Rightarrow> (nat \<times> nat) option" where
  "mark_from i (p # q # ps) =
     (if apart (fst p) (fst q) then Some (i, Suc i) else mark_from (Suc i) (q # ps))"
| "mark_from i _ = None"

definition markVector3 :: "point list \<Rightarrow> (nat \<times> nat) option" where
  "markVector3 points = mark_from 0 points"

definition plain_path :: "point list \<Rightarrow> Path" where
  "plain_path ps = \<lparr>path_stroke = None, path_strokeWidth = None, path_points = ps\<rparr>"

definition cut_paths :: "point list \<Rightarrow> Path list" where
  "cut_paths lonLats =
     (case markVector3 lonLats of
        None \<Rightarrow> [plain_path lonLats]
      | Some (i, j) \<Rightarrow>
          (let lonLats1 = take (i + 1) lonLats; lonLats2 = drop (i + 1) lonLats
           in (if length lonLats1 > 1 then [plain_path lonLats1] else [])
              @ (if length lonLats2 > 1 then [plain_path lonLats2] else [])))"

definition toGeodesicPaths :: "'q quaternions \<Rightarrow> real \<times> real \<Rightarrow> real \<times> real \<Rightarrow> nat \<Rightarrow> Path list" where
  "toGeodesicPaths Q src dst numPoints =
     (let xyzFrom = applyQuaternion Q baseVector (latLonToQuat Q (fst src) (snd src));
          xyzTo = applyQuaternion Q baseVector (latLonToQuat Q (fst dst) (snd dst))
      in cut_paths (map prod.swap (map xyzToLatLon (getGeodesicPoints Q xyzFrom xyzTo numPoints))))"

section \<open>The polygons are the rings of the nested arrays\<close>

datatype nest = Ring "(rat \<times> rat) list" | Nest "nest list"

definition ring_coords :: "(rat \<times> rat) list \<Rightarrow> coords" where
  "ring_coords ps = C_arr (map (\<lambda>(x, y). C_arr [C_num x, C_num y]) ps)"

fun nest_coords :: "nest \<Rightarrow> coords" where
  "nest_coords (Ring ps) = ring_coords ps"
| "nest_coords (Nest ns) = C_arr (map nest_coords ns)"

fun rings :: "nest \<Rightarrow> (rat \<times> rat) list list" where
  "rings (Ring ps) = (if ps = [] then [] else [ps])"
| "rings (Nest ns) = concat (map rings ns)"

lemma number_pairD: "number_pair c \<Longrightarrow> \<exists>x y. c = C_arr [C_num x, C_num y]"
  by (auto elim!: number_pair.elims)

lemma not_pair: "\<not> number_pair (nest_coords n)"
proof
  assume "number_pair (nest_coords n)"
  then obtain x y where e: "nest_coords n = C_arr [C_num x, C_num y]" using number_pairD by blast
  have c: "nest_coords m \<noteq> C_num z" for m z by (cases m) (simp_all add: ring_coords_def)
  show False
  proof (cases n)
    case (Ring ps)
    then show False using e by (cases ps) (auto simp: ring_coords_def split: prod.splits)
  next
    case (Nest ns)
    then show False using e c by (cases ns) auto
  qed
qed

text \<open>Every polygon of the map data is found, in order and whole, however deeply the arrays of a
  geometry nest: the pieces are exactly its non-empty rings, each carrying its feature and the
  feature's position as the group, and a feature without coordinates contributes none.\<close>

theorem flat_shapes_are_the_rings:
  "yieldPolygons (nest_coords n) = map ring_coords (rings n)
   \<and> toFlatShape (map (\<lambda>g. \<lparr>ft_coordinates = map_option nest_coords g\<rparr>) gs)
     = concat (map (\<lambda>(i, g). case g of None \<Rightarrow> []
         | Some m \<Rightarrow> map (\<lambda>r. \<lparr>fs_groupId = i, fs_feature = \<lparr>ft_coordinates = Some (nest_coords m)\<rparr>,
                              fs_polygon = ring_coords r\<rparr>) (rings m)) (List.enumerate 0 gs))"
proof -
  have y: "yieldPolygons (nest_coords n) = map ring_coords (rings n)" for n
  proof (induction n)
    case (Ring ps)
    show ?case
    proof (cases ps)
      case Nil
      then show ?thesis by (simp add: ring_coords_def isPolygon_def)
    next
      case (Cons p qs)
      then have "isPolygon (ring_coords ps)" by (cases p) (simp add: ring_coords_def isPolygon_def)
      then show ?thesis using Cons by (simp add: ring_coords_def)
    qed
  next
    case (Nest ns)
    have "\<not> isPolygon (C_arr (map nest_coords ns))"
      using not_pair by (cases ns) (simp_all add: isPolygon_def)
    moreover have "map (yieldPolygons \<circ> nest_coords) ns = map (map ring_coords \<circ> rings) ns"
      using Nest.IH by simp
    ultimately show ?case by (simp add: map_concat comp_def cong: map_cong)
  qed
  have "flat_from k (map (\<lambda>g. \<lparr>ft_coordinates = map_option nest_coords g\<rparr>) gs)
     = concat (map (\<lambda>(i, g). case g of None \<Rightarrow> []
         | Some m \<Rightarrow> map (\<lambda>r. \<lparr>fs_groupId = i, fs_feature = \<lparr>ft_coordinates = Some (nest_coords m)\<rparr>,
                              fs_polygon = ring_coords r\<rparr>) (rings m)) (List.enumerate k gs))" for k
    by (induction gs arbitrary: k) (auto simp: y split: option.splits)
  with y show ?thesis by (simp add: toFlatShape_def)
qed

section \<open>Projection and view box\<close>

text \<open>The projection maps the whole globe onto the canvas: every longitude and latitude lands
  inside it, the corners on its corners, east to the right and north to the top, and different
  points never coincide.\<close>

theorem projector_onto_canvas:
  fixes canvasX canvasY :: "'a :: linordered_field"
  assumes "0 < canvasX" and "0 < canvasY"
    and "-180 \<le> lon" and "lon \<le> 180" and "-90 \<le> lat" and "lat \<le> 90"
  shows "case getProjector canvasX canvasY (lon, lat) of (x, y) \<Rightarrow>
      0 \<le> x \<and> x \<le> canvasX \<and> 0 \<le> y \<and> y \<le> canvasY
      \<and> (x < fst (getProjector canvasX canvasY p) \<longleftrightarrow> lon < fst p)
      \<and> (y < snd (getProjector canvasX canvasY p) \<longleftrightarrow> snd p < lat)
      \<and> (getProjector canvasX canvasY p = (x, y) \<longleftrightarrow> p = (lon, lat))
      \<and> getProjector canvasX canvasY (-180, 90) = (0, 0)
      \<and> getProjector canvasX canvasY (180, -90) = (canvasX, canvasY)"
proof -
  have e: "getProjector canvasX canvasY q = ((fst q + 180) * (canvasX / 360), (90 - snd q) * (canvasY / 180))" for q
    by (cases q) (simp add: getProjector_def)
  have X: "0 < canvasX / 360" and Y: "0 < canvasY / 180" using assms(1,2) by simp_all
  have "(lon + 180) * (canvasX / 360) \<le> 360 * (canvasX / 360)" using X assms(4) by (intro mult_right_mono) auto
  moreover have "(90 - lat) * (canvasY / 180) \<le> 180 * (canvasY / 180)" using Y assms(5) by (intro mult_right_mono) auto
  moreover have "0 \<le> (lon + 180) * (canvasX / 360)" "0 \<le> (90 - lat) * (canvasY / 180)"
    using X Y assms(3,6) by (auto intro!: mult_nonneg_nonneg)
  moreover have "(lon + 180) * (canvasX / 360) < (fst p + 180) * (canvasX / 360) \<longleftrightarrow> lon < fst p"
    using X mult_less_cancel_right_pos [OF X, of "lon + 180" "fst p + 180"] by simp
  moreover have "(90 - lat) * (canvasY / 180) < (90 - snd p) * (canvasY / 180) \<longleftrightarrow> snd p < lat"
    using Y mult_less_cancel_right_pos [OF Y, of "90 - lat" "90 - snd p"] by simp
  moreover have "(fst p + 180) * (canvasX / 360) = (lon + 180) * (canvasX / 360) \<longleftrightarrow> fst p = lon"
    using X by (simp only: mult_cancel_right) auto
  moreover have "(90 - snd p) * (canvasY / 180) = (90 - lat) * (canvasY / 180) \<longleftrightarrow> snd p = lat"
    using Y by (simp only: mult_cancel_right) auto
  ultimately show ?thesis by (simp add: e prod_eq_iff)
qed

text \<open>Zooming keeps the centre and the proportions of the view box; panning keeps its size.\<close>

definition box_ok :: "view_box \<Rightarrow> bool" where
  "box_ok b \<longleftrightarrow> 0 < projXLen b \<and> 0 < projYLen b"

definition box_centre :: "view_box \<Rightarrow> rat \<times> rat" where
  "box_centre b = (offsetX b + projXLen b / 2, offsetY b + projYLen b / 2)"

lemma zoom_box_scale:
  assumes "box_ok b"
  shows "projXLen (zoom_box b d) = projXLen b * (1 + d / 280)"
    and "projYLen (zoom_box b d) = projYLen b * (1 + d / 280)"
    and "box_centre (zoom_box b d) = box_centre b"
  using assms by (simp_all add: zoom_box_def Let_def box_ok_def box_centre_def field_simps)





text \<open>A zoom keeps the centre and the proportions of the view box, and the box stays valid exactly
  if the wheel turned back by less than 280: one faster event makes both lengths negative or zero.\<close>

theorem zoom_keeps_centre:
  assumes "box_ok b"
  shows "box_centre (zoom_box b d) = box_centre b
    \<and> projXLen (zoom_box b d) * projYLen b = projXLen b * projYLen (zoom_box b d)
    \<and> (box_ok (zoom_box b d) \<longleftrightarrow> -280 < d)"
proof -
  have "0 < 1 + d / 280 \<longleftrightarrow> 0 < d + 280" by (simp add: field_simps)
  also have "\<dots> \<longleftrightarrow> -280 < d" by linarith
  finally have "0 < 1 + d / 280 \<longleftrightarrow> -280 < d" .
  then show ?thesis
    using assms zoom_box_scale [OF assms, of d] by (simp add: box_ok_def zero_less_mult_iff)
qed

definition sample_view :: canvas_view where
  "sample_view = \<lparr>cv_box = \<lparr>offsetX = 0, offsetY = 0, projXLen = 360, projYLen = 200\<rparr>, cv_ratio = None, cv_drag = None\<rparr>"


lemma zoom_keeps_centre_witness:
  "box_centre (zoom_box (cv_box sample_view) (-300)) = (180, 100) \<and> \<not> box_ok (zoom_box (cv_box sample_view) (-300))"
  using zoom_keeps_centre [of "cv_box sample_view" "-300"] by (simp add: sample_view_def box_ok_def box_centre_def)

lemma projector_onto_canvas_witness:
  "case getProjector 360000 200000 (121, 31 :: rat) of (x, y) \<Rightarrow> 0 \<le> x \<and> x \<le> 360000 \<and> 0 \<le> y \<and> y \<le> 200000"
  using projector_onto_canvas [of 360000 200000 121 "31 :: rat" "(0, 0)"] by (simp split: prod.splits)

section \<open>Cutting the paths\<close>

text \<open>On longitudes between -180 and 180 degrees the sign test of \<open>markVector3\<close> says that the two
  points lie strictly on different sides of Greenwich.\<close>

definition opposite :: "real \<Rightarrow> real \<Rightarrow> bool" where
  "opposite a b \<longleftrightarrow> a < 0 \<and> 0 < b \<or> b < 0 \<and> 0 < a"

lemma sin_shift:
  assumes "-180 < a" and "a < 180"
  shows "sin (((a + 180) * pi) / 180) < 0 \<longleftrightarrow> 0 < a" and "0 < sin (((a + 180) * pi) / 180) \<longleftrightarrow> a < 0"
proof -
  have e: "sin (((a + 180) * pi) / 180) = - sin (a * pi / 180)"
    by (simp add: add_divide_distrib distrib_right sin_add)
  have pos: "0 < sin (b * pi / 180)" if "0 < b" "b < 180" for b
    using that by (intro sin_gt_zero) (auto simp: field_simps)
  have "0 < sin (a * pi / 180)" if "0 < a" using pos [of a] that assms by simp
  moreover have "0 < sin (- (a * pi / 180))" if "a < 0" using pos [of "- a"] that assms by simp
  ultimately show "sin (((a + 180) * pi) / 180) < 0 \<longleftrightarrow> 0 < a" "0 < sin (((a + 180) * pi) / 180) \<longleftrightarrow> a < 0"
    unfolding e by (cases a "0 :: real" rule: linorder_cases; force)+
qed

lemma apart_opposite:
  assumes "-180 < a" and "a < 180" and "-180 < b" and "b < 180"
  shows "apart (Some a) (Some b) \<longleftrightarrow> opposite a b"
  using sin_shift [OF assms(1,2)] sin_shift [OF assms(3,4)]
  by (auto simp: apart_def opposite_def mult_less_0_iff)

definition lon_of :: "point \<Rightarrow> real" where
  "lon_of p = (case fst p of Some a \<Rightarrow> a | None \<Rightarrow> 0)"

definition proper :: "point \<Rightarrow> bool" where
  "proper p \<longleftrightarrow> (case fst p of Some a \<Rightarrow> -180 < a \<and> a < 180 | None \<Rightarrow> False)"

definition piece :: "point list \<Rightarrow> Path list" where
  "piece ps = (if length ps > 1 then [plain_path ps] else [])"

lemma mark_from_find:
  assumes "list_all proper ps"
  shows "mark_from i ps = map_option (\<lambda>k. (i + k, Suc (i + k)))
     (List.find (\<lambda>k. opposite (lon_of (ps ! k)) (lon_of (ps ! Suc k))) [0..<length ps - 1])"
  using assms
proof (induction i ps rule: mark_from.induct)
  case (1 i p q ps)
  have a: "apart (fst p) (fst q) \<longleftrightarrow> opposite (lon_of p) (lon_of q)"
    using "1.prems" by (auto simp: proper_def lon_of_def apart_opposite split: option.splits)
  have u: "[0..<Suc (length ps)] = 0 # map Suc [0..<length ps]" by (simp only: map_Suc_upt upt_conv_Cons zero_less_Suc)
  have f: "List.find P (map Suc ks) = map_option Suc (List.find (\<lambda>k. P (Suc k)) ks)" for P ks
    by (induction ks) auto
  show ?case
  proof (cases "apart (fst p) (fst q)")
    case True
    then show ?thesis using a by (simp add: u del: upt_Suc)
  next
    case False
    then show ?thesis using a "1.IH" [OF False] "1.prems"
      by (simp add: u f option.map_comp comp_def del: upt_Suc)
  qed
qed simp_all

text \<open>A path is cut exactly once, between the first two neighbouring points that lie on different
  sides of Greenwich; both pieces are kept whole, except that a piece of a single point is not
  drawn. A path without such neighbours is one piece.\<close>

theorem path_cut_at_first_change:
  assumes "list_all proper ps"
  shows "cut_paths ps =
    (case List.find (\<lambda>k. opposite (lon_of (ps ! k)) (lon_of (ps ! Suc k))) [0..<length ps - 1] of
       None \<Rightarrow> [plain_path ps]
     | Some k \<Rightarrow> piece (take (Suc k) ps) @ piece (drop (Suc k) ps))"
  by (auto simp: cut_paths_def markVector3_def mark_from_find [OF assms] piece_def Let_def split: option.splits)

definition at_lon :: "real \<Rightarrow> point" where
  "at_lon a = (Some a, Some 50)"

lemma path_cut_at_first_change_witness:
  "cut_paths [at_lon 170, at_lon 175, at_lon (-175)] = [plain_path [at_lon 170, at_lon 175]]"
proof -
  have "list_all proper [at_lon 170, at_lon 175, at_lon (-175)]" by (simp add: proper_def at_lon_def)
  from path_cut_at_first_change [OF this] show ?thesis
    by (simp add: at_lon_def lon_of_def opposite_def piece_def upt_rec)
qed

text \<open>The test meant for the antimeridian also fires at Greenwich, where neighbouring points are
  near each other on the map: a path from 2 degrees west to 2 degrees east loses the segment that
  crosses it, and because only the first change is cut, a path that then also passes 180 degrees
  keeps the segment that runs across the whole map.\<close>

theorem greenwich_is_cut:
  "cut_paths [at_lon (-2), at_lon (-1), at_lon 1, at_lon 2]
     = [plain_path [at_lon (-2), at_lon (-1)], plain_path [at_lon 1, at_lon 2]]
   \<and> cut_paths [at_lon (-2), at_lon (-1), at_lon 1, at_lon 179, at_lon (-179)]
     = [plain_path [at_lon (-2), at_lon (-1)], plain_path [at_lon 1, at_lon 179, at_lon (-179)]]"
proof -
  have p: "proper (at_lon a)" if "-180 < a" "a < 180" for a using that by (simp add: proper_def at_lon_def)
  have "list_all proper [at_lon (-2), at_lon (-1), at_lon 1, at_lon 2]"
    "list_all proper [at_lon (-2), at_lon (-1), at_lon 1, at_lon 179, at_lon (-179)]"
    by (simp_all add: p)
  from this [THEN mark_from_find [where i = 0]] show ?thesis
    by (simp add: cut_paths_def markVector3_def at_lon_def lon_of_def opposite_def upt_rec)
qed

section \<open>Latitude and longitude round trip\<close>

text \<open>What the code relies on of \<^verbatim>\<open>three\<close>: applying a product is applying the right factor first,
  and a rotation about the x or y axis by an angle is the usual one.\<close>

definition rotations :: "'q quaternions \<Rightarrow> bool" where
  "rotations Q \<longleftrightarrow>
     (\<forall>v a b. applyQuaternion Q v (multiply Q a b) = applyQuaternion Q (applyQuaternion Q v b) a)
     \<and> (\<forall>x y z t. applyQuaternion Q (x, y, z) (setFromAxisAngle Q (1, 0, 0) t)
           = (x, y * cos t - z * sin t, y * sin t + z * cos t))
     \<and> (\<forall>x y z t. applyQuaternion Q (x, y, z) (setFromAxisAngle Q (0, 1, 0) t)
           = (x * cos t + z * sin t, y, z * cos t - x * sin t))"

lemma sphere_point:
  assumes "rotations Q"
  shows "applyQuaternion Q baseVector (latLonToQuat Q lat lon)
     = (cos (lat * pi / 180) * sin (lon * pi / 180), sin (lat * pi / 180), cos (lat * pi / 180) * cos (lon * pi / 180))"
  using assms by (simp add: rotations_def latLonToQuat_def getQuatFromLat_def getQuatFromLon_def baseVector_def)

lemma atan_lon:
  assumes "0 < c" and "0 < t" and "t < pi"
  shows "atan_quot (c * cos t) (c * sin t) = Some (pi / 2 - t)"
    and "atan_quot (c * cos t) (- (c * sin t)) = Some (t - pi / 2)"
proof -
  have s: "0 < sin t" using assms by (simp add: sin_gt_zero)
  have "cos t / sin t = tan (pi / 2 - t)" by (simp add: tan_def sin_diff cos_diff)
  then have "arctan (cos t / sin t) = pi / 2 - t" using assms by (simp add: arctan_tan)
  then show "atan_quot (c * cos t) (c * sin t) = Some (pi / 2 - t)"
    and "atan_quot (c * cos t) (- (c * sin t)) = Some (t - pi / 2)"
    using s assms by (simp_all add: atan_quot_def arctan_minus)
qed

text \<open>C40. A point of the sphere reads back as the latitude and longitude it was made from, for every
  latitude strictly between the poles and every longitude strictly between -180 and 180 degrees,
  Greenwich (where the quotient is infinite) included.\<close>

theorem latLon_roundtrip:
  assumes "rotations Q" and "-90 < lat" and "lat < 90" and "-180 < lon" and "lon < 180"
  shows "xyzToLatLon (applyQuaternion Q baseVector (latLonToQuat Q lat lon)) = (Some lat, Some lon)"
proof -
  define a where "a = lat * pi / 180"
  define l where "l = lon * pi / 180"
  have a: "-(pi / 2) < a" "a < pi / 2" 
    using mult_strict_right_mono [OF assms(2) pi_gt_zero] mult_strict_right_mono [OF assms(3) pi_gt_zero]
    by (simp_all add: a_def)
  have l: "- pi < l" "l < pi" 
    using mult_strict_right_mono [OF assms(4) pi_gt_zero] mult_strict_right_mono [OF assms(5) pi_gt_zero]
    by (simp_all add: l_def)
  have c: "0 < cos a" using a by (intro cos_gt_zero_pi) auto
  have "cos a * cos l * (cos a * cos l) + cos a * sin l * (cos a * sin l) = (cos a)\<^sup>2 * ((sin l)\<^sup>2 + (cos l)\<^sup>2)"
    by algebra
  also have "\<dots> = (cos a)\<^sup>2" by simp
  finally have "cos a * cos l * (cos a * cos l) + cos a * sin l * (cos a * sin l) = (cos a)\<^sup>2" .
  then have r: "sqrt (cos a * cos l * (cos a * cos l) + cos a * sin l * (cos a * sin l)) = cos a"
    using c by simp
  have "sin a / cos a = tan a" by (simp add: tan_def)
  then have lat: "atan_quot (sin a) (cos a) = Some a" using a c by (simp add: atan_quot_def arctan_tan)
  have unscale: "a * 180 / pi = lat" "l * 180 / pi = lon" by (simp_all add: a_def l_def)
  have lon: "map_option (\<lambda>m. if cos a * sin l \<ge> 0 then 90 - m else (-1) * (90 + m))
      (map_option (\<lambda>t. t * 180 / pi) (atan_quot (cos a * cos l) (cos a * sin l))) = Some (l * 180 / pi)"
  proof (cases l "0 :: real" rule: linorder_cases)
    case greater
    then have "0 < sin l" using l by (simp add: sin_gt_zero)
    then show ?thesis using atan_lon(1) [OF c greater l(2)] c by (simp add: field_simps)
  next
    case less
    then have n: "0 < - l" "- l < pi" using l by simp_all
    then have "sin l < 0" using sin_gt_zero [of "- l"] by simp
    then have "cos a * sin l < 0" using c by (simp add: mult_pos_neg)
    then show ?thesis using atan_lon(2) [OF c n] by (simp add: field_simps)
  next
    case equal
    then show ?thesis using c by (simp add: atan_quot_def)
  qed
  show ?thesis
    unfolding sphere_point [OF assms(1)] a_def [symmetric] l_def [symmetric] xyzToLatLon_def Let_def prod.case
    using lon by (simp add: r lat unscale)
qed

definition rotation_functions :: "(vec \<Rightarrow> vec) quaternions" where
  "rotation_functions =
     \<lparr>setFromAxisAngle = (\<lambda>axis t (x, y, z).
        if axis = (1, 0, 0) then (x, y * cos t - z * sin t, y * sin t + z * cos t)
        else (x * cos t + z * sin t, y, z * cos t - x * sin t)),
      multiply = (\<lambda>a b. a \<circ> b), applyQuaternion = (\<lambda>v q. q v),
      setFromUnitVectors = (\<lambda>v w. id), slerp_identity = (\<lambda>q t. q)\<rparr>"

lemma latLon_roundtrip_witness:
  "xyzToLatLon (applyQuaternion rotation_functions baseVector (latLonToQuat rotation_functions 31 121))
     = (Some 31, Some 121)"
  by (rule latLon_roundtrip) (simp_all add: rotations_def rotation_functions_def)

end
