(* ===== verification/Canvas_Table.thy ===== *)
theory Canvas_Table
  imports Prelude
begin

text \<open>
  \<^verbatim>\<open>web/components/canvastable.tsx\<close>: the table drawn on a canvas for the shareable reports.
  The drawing context is modelled by its three text settings and the list of calls made on it;
  \<open>measure font text\<close> is the browser's \<open>measureText\<close> under the font set on the context, and
  \<open>num\<close> the printing of a number inside a template string. Lengths are exact rationals.
\<close>

section \<open>The drawing context\<close>

record TextMetrics =
  tm_width :: rat
  fontBoundingBoxAscent :: rat
  fontBoundingBoxDescent :: rat

datatype canvas_op =
    Op_size int int
  | Op_fillRect string rat rat rat rat
  | Op_setTransform rat rat
  | Op_text string rat rat

record canvas_ctx =
  cx_font :: string
  cx_fillStyle :: string
  cx_textBaseline :: string
  cx_ops :: "canvas_op list"

text \<open>The attributes \<^verbatim>\<open>width\<close> and \<^verbatim>\<open>height\<close> are read as non-negative integers: the digits before the
  point count, and a text without such a number leaves the default of 300 by 150. (A number from
  \<open>10 ^ 21\<close> on, or a positive one below \<open>10 ^ - 6\<close>, is printed with an exponent; no canvas is so large or small.)
  Setting the width or height of a canvas resets the state of its context.\<close>

definition canvas_attr :: "int \<Rightarrow> rat \<Rightarrow> int" where
  "canvas_attr unset x = (if x < 0 then unset else \<lfloor>x\<rfloor>)"

definition set_size :: "rat \<Rightarrow> rat \<Rightarrow> canvas_ctx \<Rightarrow> canvas_ctx" where
  "set_size w h ctx =
     \<lparr>cx_font = ''10px sans-serif'', cx_fillStyle = ''#000000'', cx_textBaseline = ''alphabetic'',
      cx_ops = cx_ops ctx @ [Op_size (canvas_attr 300 w) (canvas_attr 150 h)]\<rparr>"

definition draw :: "canvas_op \<Rightarrow> canvas_ctx \<Rightarrow> canvas_ctx" where
  "draw dop ctx = ctx\<lparr>cx_ops := cx_ops ctx @ [dop]\<rparr>"

section \<open>Lines\<close>

record LineDrawCtx =
  fillStyle :: "string option"
  baseline :: "string option"
  font :: "string option"
  ly :: rat
  lineGap :: rat
  lastMetrics :: "TextMetrics option"
  lx :: rat
  maxWidth :: "rat option"
  maxRight :: "rat option"
  maxHeight :: "rat option"

definition set_text_style :: "LineDrawCtx \<Rightarrow> canvas_ctx \<Rightarrow> canvas_ctx" where
  "set_text_style l ctx =
     ctx\<lparr>cx_textBaseline := (if truthy_str (baseline l) then the (baseline l) else cx_textBaseline ctx),
         cx_fillStyle := (if truthy_str (fillStyle l) then the (fillStyle l) else cx_fillStyle ctx),
         cx_font := (if truthy_str (font l) then the (font l) else cx_font ctx)\<rparr>"

definition drawLine ::
  "(string \<Rightarrow> string \<Rightarrow> TextMetrics) \<Rightarrow> LineDrawCtx \<Rightarrow> canvas_ctx \<Rightarrow> string \<Rightarrow> LineDrawCtx \<times> canvas_ctx" where
  "drawLine measureText l ctx line =
     (let ctx = draw (Op_text line (lx l) (ly l)) (set_text_style l ctx);
          lineMs = measureText (cx_font ctx) line;
          newHeight = ly l + fontBoundingBoxAscent lineMs + fontBoundingBoxDescent lineMs + lineGap l
      in (l\<lparr>ly := newHeight,
            lastMetrics := Some lineMs,
            maxWidth := Some (max (nullish (maxWidth l) 0) (tm_width lineMs)),
            maxRight := Some (max (nullish (maxRight l) 0) (lx l + tm_width lineMs)),
            maxHeight := Some (max (nullish (maxHeight l) 0) newHeight)\<rparr>, ctx))"

section \<open>Columns\<close>

record Cell =
  cell_content :: string
  cell_empty :: "bool option"

type_synonym canvas_row = "Cell list"
type_synonym canvas_col = "Cell list"

definition empty_cell :: Cell where
  "empty_cell = \<lparr>cell_content = [], cell_empty = Some True\<rparr>"

definition reStructureTable :: "canvas_row list \<Rightarrow> canvas_col list" where
  "reStructureTable rs =
     (if length rs = 0 then []
      else map (\<lambda>c. map (\<lambda>r. if length (rs ! r) \<ge> c + 1 then rs ! r ! c else empty_cell) [0..<length rs])
             [0..<length (rs ! 0)])"

record ColDrawCtx =
  lineDrawCtx :: LineDrawCtx
  columnGap :: rat
  y0 :: "rat option"

fun draw_lines ::
  "(string \<Rightarrow> string \<Rightarrow> TextMetrics) \<Rightarrow> LineDrawCtx \<Rightarrow> canvas_ctx \<Rightarrow> string list \<Rightarrow> LineDrawCtx \<times> canvas_ctx" where
  "draw_lines measureText l ctx [] = (l, ctx)"
| "draw_lines measureText l ctx (t # ts) =
     (case drawLine measureText l ctx t of (l', ctx') \<Rightarrow> draw_lines measureText l' ctx' ts)"

definition drawCol ::
  "(string \<Rightarrow> string \<Rightarrow> TextMetrics) \<Rightarrow> ColDrawCtx \<Rightarrow> canvas_ctx \<Rightarrow> canvas_col \<Rightarrow> ColDrawCtx \<times> canvas_ctx" where
  "drawCol measureText col ctx column =
     (let y = nullish (y0 col) (ly (lineDrawCtx col));
          l = (lineDrawCtx col)\<lparr>maxWidth := Some 0, ly := y\<rparr>
      in case draw_lines measureText l ctx (map cell_content column) of (l', ctx') \<Rightarrow>
           (\<lparr>lineDrawCtx = l'\<lparr>lx := lx l' + nullish (maxWidth l') 0 + columnGap col, maxWidth := Some 0\<rparr>,
             columnGap = columnGap col, y0 = Some y\<rparr>, ctx'))"

fun draw_cols ::
  "(string \<Rightarrow> string \<Rightarrow> TextMetrics) \<Rightarrow> ColDrawCtx \<Rightarrow> canvas_ctx \<Rightarrow> canvas_col list \<Rightarrow> ColDrawCtx \<times> canvas_ctx" where
  "draw_cols measureText col ctx [] = (col, ctx)"
| "draw_cols measureText col ctx (c # cs) =
     (case drawCol measureText col ctx c of (col', ctx') \<Rightarrow> draw_cols measureText col' ctx' cs)"

definition carriageReturn :: "LineDrawCtx \<Rightarrow> LineDrawCtx" where
  "carriageReturn l = l\<lparr>lx := 0\<rparr>"

section \<open>Painting\<close>

record DimensionCtx =
  dim_w :: rat
  dim_h :: rat
  maxW :: rat
  maxH :: rat

definition initial_line :: "(rat \<Rightarrow> string) \<Rightarrow> rat \<Rightarrow> LineDrawCtx" where
  "initial_line num dpi =
     \<lparr>fillStyle = Some ''#fff'', baseline = Some ''top'', font = Some (num (16 * dpi) @ ''px sans-serif''),
      ly = 0, lineGap = 6 * dpi, lastMetrics = None, lx = 0, maxWidth = None, maxRight = None,
      maxHeight = None\<rparr>"

definition doPaint ::
  "(string \<Rightarrow> string \<Rightarrow> TextMetrics) \<Rightarrow> (rat \<Rightarrow> string) \<Rightarrow> rat \<Rightarrow> canvas_ctx \<Rightarrow> DimensionCtx
    \<Rightarrow> canvas_row list \<Rightarrow> canvas_row list \<Rightarrow> DimensionCtx \<times> canvas_ctx" where
  "doPaint measureText num dpi ctx dims preamble tabularData =
     (let canvasW = max (dim_w dims * dpi) (maxW dims);
          canvasH = max (dim_h dims * dpi) (maxH dims);
          ctx = (set_size canvasW canvasH ctx)\<lparr>cx_fillStyle := ''#262626''\<rparr>;
          ctx = draw (Op_fillRect ''#262626'' 0 0 canvasW canvasH) ctx;
          deltaX = 10 * dpi; deltaY = 10 * dpi;
          ctx = draw (Op_setTransform deltaX deltaY) ctx
      in case draw_lines measureText (initial_line num dpi) ctx
                (map (\<lambda>row. cell_content (row ! 0)) (filter (\<lambda>row. length row > 0) preamble)) of
           (lineCtx, ctx) \<Rightarrow>
             (case draw_cols measureText \<lparr>lineDrawCtx = lineCtx, columnGap = 30 * dpi, y0 = None\<rparr> ctx
                     (reStructureTable tabularData) of
                (colCtx, ctx) \<Rightarrow>
                  (let lineCtx = carriageReturn (lineDrawCtx colCtx)
                   in (dims\<lparr>maxW := nullish (maxRight lineCtx) 0 + 2 * deltaX,
                           maxH := nullish (maxHeight lineCtx) 0 + 2 * deltaY\<rparr>, ctx))))"

text \<open>\<open>CanvasTable\<close>: the effect runs whenever the preamble or the table changes; it paints the new content
  with the remembered dimensions and renews the resize observer, whose callback updates the
  width and height and paints the content of the effect that made it. \<open>dimRef\<close> lives across all of
  them. Before the first effect there is no observer.\<close>

record canvas_state =
  ct_dims :: DimensionCtx
  ct_ctx :: canvas_ctx
  ct_content :: "(canvas_row list \<times> canvas_row list) option"

datatype canvas_event =
    Canvas_effect "canvas_row list" "canvas_row list"
  | Canvas_resize rat rat

definition paint_content ::
  "(string \<Rightarrow> string \<Rightarrow> TextMetrics) \<Rightarrow> (rat \<Rightarrow> string) \<Rightarrow> rat \<Rightarrow> DimensionCtx
    \<Rightarrow> canvas_row list \<times> canvas_row list \<Rightarrow> canvas_state \<Rightarrow> canvas_state" where
  "paint_content measureText num dpi dims c s =
     (case doPaint measureText num dpi (ct_ctx s) dims (fst c) (snd c) of
        (dims', ctx') \<Rightarrow> \<lparr>ct_dims = dims', ct_ctx = ctx', ct_content = Some c\<rparr>)"

definition canvas_step ::
  "(string \<Rightarrow> string \<Rightarrow> TextMetrics) \<Rightarrow> (rat \<Rightarrow> string) \<Rightarrow> rat \<Rightarrow> canvas_state \<Rightarrow> canvas_event \<Rightarrow> canvas_state" where
  "canvas_step measureText num dpi s ev =
     (case ev of
        Canvas_effect preamble tab \<Rightarrow> paint_content measureText num dpi (ct_dims s) (preamble, tab) s
      | Canvas_resize w h \<Rightarrow>
          (case ct_content s of
             None \<Rightarrow> s
           | Some c \<Rightarrow> paint_content measureText num dpi ((ct_dims s)\<lparr>dim_w := w, dim_h := h\<rparr>) c s))"

section \<open>Transposition\<close>

lemma reStructureTable_length:
  "length (reStructureTable rs) = (if rs = [] then 0 else length (hd rs))"
  by (cases rs) (simp_all add: reStructureTable_def)

lemma reStructureTable_nth:
  assumes "c < length (hd rs)" and "r < length rs"
  shows "reStructureTable rs ! c ! r = (if c < length (rs ! r) then rs ! r ! c else empty_cell)"
    and "length (reStructureTable rs ! c) = length rs"
proof -
  have n: "length rs \<noteq> 0" and z: "c < length (rs ! 0)"
    using assms by (cases rs; simp)+
  have "reStructureTable rs ! c
      = map (\<lambda>r. if length (rs ! r) \<ge> c + 1 then rs ! r ! c else empty_cell) [0..<length rs]"
    using n z by (simp add: reStructureTable_def)
  then show "reStructureTable rs ! c ! r = (if c < length (rs ! r) then rs ! r ! c else empty_cell)"
    and "length (reStructureTable rs ! c) = length rs"
    using assms(2) by (simp_all only: nth_map length_map length_upt nth_upt Suc_eq_plus1 [symmetric] Suc_le_eq
        minus_nat.diff_0 add_0 if_True if_False split: if_splits) 
qed

section \<open>Where the text goes\<close>

text \<open>The height a line takes, the lines of a block, and the width of a column.\<close>

definition line_height :: "(string \<Rightarrow> TextMetrics) \<Rightarrow> rat \<Rightarrow> string \<Rightarrow> rat" where
  "line_height m gap t = fontBoundingBoxAscent (m t) + fontBoundingBoxDescent (m t) + gap"

fun block_ops :: "(string \<Rightarrow> TextMetrics) \<Rightarrow> rat \<Rightarrow> rat \<Rightarrow> rat \<Rightarrow> string list \<Rightarrow> canvas_op list" where
  "block_ops m gap x y [] = []"
| "block_ops m gap x y (t # ts) = Op_text t x y # block_ops m gap x (y + line_height m gap t) ts"

definition block_width :: "(string \<Rightarrow> TextMetrics) \<Rightarrow> string list \<Rightarrow> rat" where
  "block_width m ts = foldl (\<lambda>w t. max w (tm_width (m t))) 0 ts"

fun cols_ops ::
  "(string \<Rightarrow> TextMetrics) \<Rightarrow> rat \<Rightarrow> rat \<Rightarrow> rat \<Rightarrow> rat \<Rightarrow> string list list \<Rightarrow> canvas_op list" where
  "cols_ops m gap cgap x y [] = []"
| "cols_ops m gap cgap x y (c # cs) =
     block_ops m gap x y c @ cols_ops m gap cgap (x + block_width m c + cgap) y cs"

text \<open>The right and bottom edges a list of drawing calls reaches.\<close>

definition fits_in :: "(string \<Rightarrow> TextMetrics) \<Rightarrow> rat \<Rightarrow> rat \<Rightarrow> rat \<Rightarrow> canvas_op \<Rightarrow> bool" where
  "fits_in m gap R H dop =
     (case dop of Op_text t x y \<Rightarrow> x + tm_width (m t) \<le> R \<and> y + line_height m gap t \<le> H | _ \<Rightarrow> True)"

lemma fits_in_mono: "fits_in m gap R H dop \<Longrightarrow> R \<le> R' \<Longrightarrow> H \<le> H' \<Longrightarrow> fits_in m gap R' H' dop"
  by (cases dop) (auto simp: fits_in_def)

text \<open>A line context set up by \<open>doPaint\<close>: the style is complete, so the settings left over on
  the drawing context play no part.\<close>

definition styled :: "string \<Rightarrow> LineDrawCtx \<Rightarrow> bool" where
  "styled f l \<longleftrightarrow> font l = Some f \<and> f \<noteq> [] \<and> truthy_str (fillStyle l) \<and> truthy_str (baseline l)"

definition edges :: "LineDrawCtx \<Rightarrow> rat \<times> rat" where
  "edges l = (nullish (maxRight l) 0, nullish (maxHeight l) 0)"

lemma drawLine_spec:
  assumes "styled f l" and "drawLine measureText l ctx t = (l1, ctx1)"
  shows "styled f l1" and "cx_ops ctx1 = cx_ops ctx @ [Op_text t (lx l) (ly l)]"
    and "lx l1 = lx l" and "lineGap l1 = lineGap l"
    and "nullish (maxWidth l1) 0 = max (nullish (maxWidth l) 0) (tm_width (measureText f t))"
    and "ly l1 = ly l + line_height (measureText f) (lineGap l) t"
    and "edges l1 = (max (fst (edges l)) (lx l + tm_width (measureText f t)),
                     max (snd (edges l)) (ly l + line_height (measureText f) (lineGap l) t))"
  using assms by (auto simp: drawLine_def Let_def styled_def draw_def set_text_style_def edges_def line_height_def
      algebra_simps)

lemma draw_lines_spec:
  assumes "styled f l" and "draw_lines measureText l ctx ts = (l', ctx')"
  shows "cx_ops ctx' = cx_ops ctx @ block_ops (measureText f) (lineGap l) (lx l) (ly l) ts
    \<and> styled f l' \<and> lx l' = lx l \<and> lineGap l' = lineGap l
    \<and> nullish (maxWidth l') 0 = foldl (\<lambda>w t. max w (tm_width (measureText f t))) (nullish (maxWidth l) 0) ts
    \<and> fst (edges l) \<le> fst (edges l') \<and> snd (edges l) \<le> snd (edges l')
    \<and> list_all (fits_in (measureText f) (lineGap l) (fst (edges l')) (snd (edges l')))
           (block_ops (measureText f) (lineGap l) (lx l) (ly l) ts)"
  using assms
proof (induction ts arbitrary: l ctx)
  case Nil
  then show ?case by simp
next
  case (Cons t ts)
  obtain l1 ctx1 where d: "drawLine measureText l ctx t = (l1, ctx1)" by fastforce
  note D = drawLine_spec [OF Cons.prems(1) d]
  have rest: "draw_lines measureText l1 ctx1 ts = (l', ctx')" using Cons.prems(2) by (simp add: d)
  from Cons.IH [OF D(1) rest] show ?case
    by (simp add: D fits_in_def)
qed


definition col_ready :: "string \<Rightarrow> rat \<Rightarrow> ColDrawCtx \<Rightarrow> bool" where
  "col_ready f y col \<longleftrightarrow> styled f (lineDrawCtx col) \<and> nullish (y0 col) (ly (lineDrawCtx col)) = y"

lemma drawCol_spec:
  assumes "col_ready f y col" and "drawCol measureText col ctx c = (col', ctx')"
  shows "cx_ops ctx' = cx_ops ctx
      @ block_ops (measureText f) (lineGap (lineDrawCtx col)) (lx (lineDrawCtx col)) y (map cell_content c)
    \<and> col_ready f y col' \<and> columnGap col' = columnGap col
    \<and> lineGap (lineDrawCtx col') = lineGap (lineDrawCtx col)
    \<and> lx (lineDrawCtx col') = lx (lineDrawCtx col) + block_width (measureText f) (map cell_content c) + columnGap col
    \<and> fst (edges (lineDrawCtx col)) \<le> fst (edges (lineDrawCtx col'))
    \<and> snd (edges (lineDrawCtx col)) \<le> snd (edges (lineDrawCtx col'))
    \<and> list_all (fits_in (measureText f) (lineGap (lineDrawCtx col))
                  (fst (edges (lineDrawCtx col'))) (snd (edges (lineDrawCtx col'))))
        (block_ops (measureText f) (lineGap (lineDrawCtx col)) (lx (lineDrawCtx col)) y (map cell_content c))"
proof -
  let ?l = "(lineDrawCtx col)\<lparr>maxWidth := Some 0, ly := y\<rparr>"
  obtain l' ctx1 where d: "draw_lines measureText ?l ctx (map cell_content c) = (l', ctx1)" by fastforce
  have s: "styled f ?l" using assms(1) by (simp add: col_ready_def styled_def)
  have y: "nullish (y0 col) (ly (lineDrawCtx col)) = y" using assms(1) by (simp add: col_ready_def)
  have e: "edges ?l = edges (lineDrawCtx col)" by (simp add: edges_def)
  have "ctx' = ctx1" and "col' = \<lparr>lineDrawCtx = l'\<lparr>lx := lx l' + nullish (maxWidth l') 0 + columnGap col, maxWidth := Some 0\<rparr>,
             columnGap = columnGap col, y0 = Some y\<rparr>"
    using assms(2) d unfolding drawCol_def y Let_def by simp_all
  then show ?thesis
    using draw_lines_spec [OF s d] e
    by (simp add: col_ready_def styled_def edges_def block_width_def)
qed

lemma draw_cols_spec:
  assumes "col_ready f y col" and "draw_cols measureText col ctx cs = (col', ctx')"
  shows "cx_ops ctx' = cx_ops ctx
      @ cols_ops (measureText f) (lineGap (lineDrawCtx col)) (columnGap col) (lx (lineDrawCtx col)) y
          (map (map cell_content) cs)
    \<and> fst (edges (lineDrawCtx col)) \<le> fst (edges (lineDrawCtx col'))
    \<and> snd (edges (lineDrawCtx col)) \<le> snd (edges (lineDrawCtx col'))
    \<and> list_all (fits_in (measureText f) (lineGap (lineDrawCtx col))
                  (fst (edges (lineDrawCtx col'))) (snd (edges (lineDrawCtx col'))))
        (cols_ops (measureText f) (lineGap (lineDrawCtx col)) (columnGap col) (lx (lineDrawCtx col)) y
          (map (map cell_content) cs))"
  using assms
proof (induction cs arbitrary: col ctx)
  case Nil
  then show ?case by simp
next
  case (Cons c cs)
  obtain col1 ctx1 where d: "drawCol measureText col ctx c = (col1, ctx1)" by fastforce
  note D = drawCol_spec [OF Cons.prems(1) d]
  have rest: "draw_cols measureText col1 ctx1 cs = (col', ctx')" using Cons.prems(2) by (simp add: d)
  have "col_ready f y col1" using D by simp
  from Cons.IH [OF this rest] D show ?case
    by (auto simp: list_all_iff intro: fits_in_mono)
qed


section \<open>What a paint does\<close>

definition paint_font :: "(rat \<Rightarrow> string) \<Rightarrow> rat \<Rightarrow> string" where
  "paint_font num dpi = num (16 * dpi) @ ''px sans-serif''"

definition preamble_lines :: "canvas_row list \<Rightarrow> string list" where
  "preamble_lines preamble = map (\<lambda>row. cell_content (row ! 0)) (filter (\<lambda>row. length row > 0) preamble)"

definition paint_texts ::
  "(string \<Rightarrow> TextMetrics) \<Rightarrow> rat \<Rightarrow> canvas_row list \<Rightarrow> canvas_row list \<Rightarrow> canvas_op list" where
  "paint_texts m dpi preamble tab =
     block_ops m (6 * dpi) 0 0 (preamble_lines preamble)
     @ cols_ops m (6 * dpi) (30 * dpi) 0 (sum_list (map (line_height m (6 * dpi)) (preamble_lines preamble)))
         (map (map cell_content) (reStructureTable tab))"

lemma draw_lines_ly:
  assumes "styled f l" and "draw_lines measureText l ctx ts = (l', ctx')"
  shows "ly l' = ly l + sum_list (map (line_height (measureText f) (lineGap l)) ts)"
  using assms
proof (induction ts arbitrary: l ctx)
  case Nil
  then show ?case by simp
next
  case (Cons t ts)
  obtain l1 ctx1 where d: "drawLine measureText l ctx t = (l1, ctx1)" by fastforce
  note D = drawLine_spec [OF Cons.prems(1) d]
  have rest: "draw_lines measureText l1 ctx1 ts = (l', ctx')" using Cons.prems(2) by (simp add: d)
  from Cons.IH [OF D(1) rest] show ?case by (simp add: D)
qed

lemma doPaint_spec:
  fixes dpi :: rat
  defines "m \<equiv> (\<lambda>measureText num. measureText (paint_font num dpi))"
  assumes "doPaint measureText num dpi ctx dims preamble tab = (dims', ctx')"
  shows "cx_ops ctx' = cx_ops ctx
      @ Op_size (canvas_attr 300 (max (dim_w dims * dpi) (maxW dims))) (canvas_attr 150 (max (dim_h dims * dpi) (maxH dims)))
      # Op_fillRect ''#262626'' 0 0 (max (dim_w dims * dpi) (maxW dims)) (max (dim_h dims * dpi) (maxH dims))
      # Op_setTransform (10 * dpi) (10 * dpi) # paint_texts (m measureText num) dpi preamble tab
    \<and> list_all (fits_in (m measureText num) (6 * dpi) (maxW dims' - 20 * dpi) (maxH dims' - 20 * dpi))
        (paint_texts (m measureText num) dpi preamble tab)
    \<and> 20 * dpi \<le> maxW dims' \<and> 20 * dpi \<le> maxH dims'"
proof -
  let ?f = "paint_font num dpi" and ?l = "initial_line num dpi"
  define ctx0 where "ctx0 = draw (Op_setTransform (10 * dpi) (10 * dpi))
    (draw (Op_fillRect ''#262626'' 0 0 (max (dim_w dims * dpi) (maxW dims)) (max (dim_h dims * dpi) (maxH dims)))
      ((set_size (max (dim_w dims * dpi) (maxW dims)) (max (dim_h dims * dpi) (maxH dims)) ctx)\<lparr>cx_fillStyle := ''#262626''\<rparr>))"
  obtain l1 ctx1 where d: "draw_lines measureText ?l ctx0 (preamble_lines preamble) = (l1, ctx1)" by fastforce
  let ?c = "\<lparr>lineDrawCtx = l1, columnGap = 30 * dpi, y0 = None\<rparr>"
  obtain col2 ctx2 where e: "draw_cols measureText ?c ctx1 (reStructureTable tab) = (col2, ctx2)" by fastforce
  have st: "styled ?f ?l" by (simp add: styled_def initial_line_def paint_font_def)
  note L = draw_lines_spec [OF st d] and Y = draw_lines_ly [OF st d]
  have r: "col_ready ?f (ly l1) ?c" using L by (simp add: col_ready_def)
  note C = draw_cols_spec [OF r e]
  have res: "ctx' = ctx2" "maxW dims' = fst (edges (lineDrawCtx col2)) + 20 * dpi"
      "maxH dims' = snd (edges (lineDrawCtx col2)) + 20 * dpi"
    using assms(2) d e unfolding doPaint_def Let_def ctx0_def [symmetric] preamble_lines_def
    by (auto simp: carriageReturn_def edges_def)
  have ops0: "cx_ops ctx0 = cx_ops ctx @ [Op_size (canvas_attr 300 (max (dim_w dims * dpi) (maxW dims)))
        (canvas_attr 150 (max (dim_h dims * dpi) (maxH dims))),
      Op_fillRect ''#262626'' 0 0 (max (dim_w dims * dpi) (maxW dims)) (max (dim_h dims * dpi) (maxH dims)),
      Op_setTransform (10 * dpi) (10 * dpi)]"
    by (simp add: ctx0_def draw_def set_size_def)
  have init: "lineGap ?l = 6 * dpi" "lx ?l = 0" "ly ?l = 0" by (simp_all add: initial_line_def)
  have "edges ?l = (0, 0)" by (simp add: edges_def initial_line_def)
  then show ?thesis
    using L C Y unfolding m_def paint_texts_def res ops0 init list_all_append
    by (auto simp: list_all_iff intro: fits_in_mono)
qed


section \<open>The grid\<close>

definition col_x :: "(string \<Rightarrow> TextMetrics) \<Rightarrow> rat \<Rightarrow> string list list \<Rightarrow> nat \<Rightarrow> rat" where
  "col_x m cgap cs c = sum_list (map (\<lambda>col. block_width m col + cgap) (take c cs))"

lemma block_ops_grid:
  assumes "\<And>t. line_height m gap t = h"
  shows "block_ops m gap x y ts = map (\<lambda>r. Op_text (ts ! r) x (y + of_nat r * h)) [0..<length ts]"
proof (induction ts arbitrary: y)
  case Nil
  then show ?case by simp
next
  case (Cons t ts)
  then show ?case by (simp add: assms map_upt_Suc algebra_simps del: upt_Suc)
qed

lemma sum_line_heights:
  assumes "\<And>t. line_height m gap t = h"
  shows "sum_list (map (line_height m gap) ts) = of_nat (length ts) * h"
  by (induction ts) (simp_all add: assms algebra_simps)

lemma cols_ops_grid:
  assumes "\<And>t. line_height m gap t = h"
  shows "cols_ops m gap cgap x y cs =
     concat (map (\<lambda>c. map (\<lambda>r. Op_text (cs ! c ! r) (x + col_x m cgap cs c) (y + of_nat r * h)) [0..<length (cs ! c)])
               [0..<length cs])"
proof (induction cs arbitrary: x)
  case Nil
  then show ?case by simp
next
  case (Cons c cs)
  then show ?case
    by (simp add: block_ops_grid [OF assms] map_upt_Suc col_x_def algebra_simps del: upt_Suc)
qed

lemma block_width_ge: "t \<in> set ts \<Longrightarrow> tm_width (m t) \<le> block_width m ts"
proof -
  have mono: "w \<le> foldl (\<lambda>w t. max w (tm_width (m t))) w ts" for w ts
    by (induction ts arbitrary: w) (auto intro: order_trans [OF max.cobounded1])
  have "t \<in> set ts \<Longrightarrow> tm_width (m t) \<le> foldl (\<lambda>w t. max w (tm_width (m t))) w ts" for w
    by (induction ts arbitrary: w) (auto intro: order_trans [OF max.cobounded2 mono])
  then show "t \<in> set ts \<Longrightarrow> tm_width (m t) \<le> block_width m ts" by (simp add: block_width_def)
qed

lemma block_width_nonneg: "0 \<le> block_width m ts"
proof -
  have "w \<le> foldl (\<lambda>w t. max w (tm_width (m t))) w ts" for w
    by (induction ts arbitrary: w) (auto intro: order_trans [OF max.cobounded1])
  then show ?thesis by (simp add: block_width_def)
qed

lemma col_x_apart:
  assumes "0 \<le> cgap" and "c < d" and "d \<le> length cs" and "t \<in> set (cs ! c)"
  shows "col_x m cgap cs c + tm_width (m t) + cgap \<le> col_x m cgap cs d"
proof -
  let ?f = "\<lambda>col. block_width m col + cgap"
  have "take d cs = take c cs @ cs ! c # drop (Suc c) (take d cs)"
    using id_take_nth_drop [of c "take d cs"] assms(2,3) by (simp add: min_def)
  then have "col_x m cgap cs d = col_x m cgap cs c + ?f (cs ! c) + sum_list (map ?f (drop (Suc c) (take d cs)))"
    unfolding col_x_def by (metis (no_types, lifting) add.assoc list.simps(9) map_append sum_list.Cons sum_list.append)
  moreover have "0 \<le> sum_list (map ?f (drop (Suc c) (take d cs)))"
    using assms(1) block_width_nonneg [of m] by (intro sum_list_nonneg) (auto intro: add_nonneg_nonneg)
  ultimately show ?thesis using block_width_ge [OF assms(4), of m] by simp
qed

text \<open>The content shown at column \<open>c\<close> of row \<open>r\<close>: rows may be shorter or longer than the first.\<close>

definition shown :: "canvas_row list \<Rightarrow> nat \<Rightarrow> nat \<Rightarrow> string" where
  "shown rs c r = (if c < length (rs ! r) then cell_content (rs ! r ! c) else [])"

lemma reStructureTable_shown:
  assumes "c < length (reStructureTable rs)"
  shows "map cell_content (reStructureTable rs ! c) = map (shown rs c) [0..<length rs]"
proof -
  have ne: "rs \<noteq> []" and c: "c < length (hd rs)" using assms by (auto simp: reStructureTable_length split: if_splits)
  show ?thesis
  proof (rule nth_equalityI)
    show "length (map cell_content (reStructureTable rs ! c)) = length (map (shown rs c) [0..<length rs])"
      using ne reStructureTable_nth(2) [OF c, of 0] by simp
    fix r assume "r < length (map cell_content (reStructureTable rs ! c))"
    then have r: "r < length rs" using ne reStructureTable_nth(2) [OF c, of 0] by simp
    then show "map cell_content (reStructureTable rs ! c) ! r = map (shown rs c) [0..<length rs] ! r"
      using reStructureTable_nth(2) [OF c r] reStructureTable_nth(1) [OF c r] by (simp add: shown_def empty_cell_def)
  qed
qed

text \<open>C36. A paint draws the preamble lines and then the table as a grid: row \<open>r\<close> of every column is
  at the same height, the cell at column \<open>c\<close> shows the \<open>c\<close>-th cell of the row or nothing when the
  row is shorter, columns beyond the first row's length are dropped, and the text of a column ends
  at least the column gap before every later column starts. The line height of the font does not
  depend on the text (the font bounding box is a property of the font).\<close>

theorem painted_table_grid:
  fixes dpi :: rat and measureText num
  defines "m \<equiv> measureText (paint_font num dpi)"
  assumes h: "\<And>t. line_height m (6 * dpi) t = h" and "0 \<le> dpi"
    and paint: "doPaint measureText num dpi ctx dims preamble tab = (dims', ctx')"
  defines "texts \<equiv> map (map cell_content) (reStructureTable tab)"
    and "n \<equiv> (if tab = [] then 0 else length (hd tab))"
  shows "\<exists>start. cx_ops ctx' = cx_ops ctx @ start
      @ map (\<lambda>i. Op_text (preamble_lines preamble ! i) 0 (of_nat i * h)) [0..<length (preamble_lines preamble)]
      @ concat (map (\<lambda>c. map (\<lambda>r. Op_text (shown tab c r) (col_x m (30 * dpi) texts c)
                                 (of_nat (length (preamble_lines preamble) + r) * h)) [0..<length tab]) [0..<n])
     \<and> (\<forall>c d r. c < d \<and> d < n \<and> r < length tab \<longrightarrow>
          col_x m (30 * dpi) texts c + tm_width (m (shown tab c r)) + 30 * dpi \<le> col_x m (30 * dpi) texts d)"
proof -
  have n: "length texts = n" by (simp add: texts_def n_def reStructureTable_length)
  have t: "texts ! c = map (shown tab c) [0..<length tab]" if "c < n" for c
    using that n reStructureTable_shown [of c tab] by (simp add: texts_def)
  have grid: "cols_ops m (6 * dpi) (30 * dpi) 0 y texts =
      concat (map (\<lambda>c. map (\<lambda>r. Op_text (shown tab c r) (col_x m (30 * dpi) texts c) (y + of_nat r * h))
                     [0..<length tab]) [0..<n])" for y
    unfolding cols_ops_grid [OF h] n by (intro arg_cong [where f = concat] map_cong) (auto simp: t)
  have pre: "sum_list (map (line_height m (6 * dpi)) (preamble_lines preamble)) = of_nat (length (preamble_lines preamble)) * h"
    by (rule sum_line_heights [OF h])
  have apart: "col_x m (30 * dpi) texts c + tm_width (m (shown tab c r)) + 30 * dpi \<le> col_x m (30 * dpi) texts d"
    if "c < d" "d < n" "r < length tab" for c d r
    using that assms(3) t [of c] n by (intro col_x_apart) auto
  show ?thesis
    using doPaint_spec [OF paint] apart
    unfolding paint_texts_def m_def [symmetric] texts_def [symmetric] block_ops_grid [OF h] grid pre
    by (auto simp: algebra_simps)
qed









definition sample_measure :: "string \<Rightarrow> string \<Rightarrow> TextMetrics" where
  "sample_measure f t = \<lparr>tm_width = 8 * of_nat (length t), fontBoundingBoxAscent = 12, fontBoundingBoxDescent = 4\<rparr>"

definition sample_ctx :: canvas_ctx where
  "sample_ctx = \<lparr>cx_font = [], cx_fillStyle = [], cx_textBaseline = [], cx_ops = []\<rparr>"

definition sample_dims :: DimensionCtx where
  "sample_dims = \<lparr>dim_w = 0, dim_h = 0, maxW = 0, maxH = 0\<rparr>"

definition text_cell :: "string \<Rightarrow> Cell" where
  "text_cell t = \<lparr>cell_content = t, cell_empty = None\<rparr>"

definition sample_rows :: "canvas_row list" where
  "sample_rows = [[text_cell ''a'', text_cell ''b''], [text_cell ''ccc'']]"

lemma painted_table_grid_witness:
  "\<exists>start. cx_ops (snd (doPaint sample_measure (\<lambda>x. ''16'') 1 sample_ctx sample_dims [] sample_rows)) =
     start @ [Op_text ''a'' 0 0, Op_text ''ccc'' 0 22, Op_text ''b'' 54 0, Op_text [] 54 22]"
proof -
  obtain d c where p: "doPaint sample_measure (\<lambda>x. ''16'') 1 sample_ctx sample_dims [] sample_rows = (d, c)" by fastforce
  have r: "map (map cell_content) (reStructureTable sample_rows) = [[''a'', ''ccc''], [''b'', []]]" by code_simp
  have w: "col_x (sample_measure f) 30 [[''a'', ''ccc''], [''b'', []]] 1 = 54"
      "col_x (sample_measure f) 30 [[''a'', ''ccc''], [''b'', []]] 0 = 0" for f
    by (simp_all add: col_x_def block_width_def sample_measure_def)
  have n: "length sample_rows = 2" "length (hd sample_rows) = 2" "sample_rows \<noteq> []"
    by (simp_all add: sample_rows_def)
  have c: "shown sample_rows 0 0 = ''a''" "shown sample_rows 0 1 = ''ccc''" "shown sample_rows 1 0 = ''b''" "shown sample_rows 1 1 = []"
    by (simp_all add: shown_def sample_rows_def text_cell_def)
  have h: "line_height (sample_measure f) (6 * 1) t = 22" for f t by (simp add: line_height_def sample_measure_def)
  have i: "[0..<2] = [0, 1]" by (simp add: upt_rec)
  obtain start where "cx_ops c = start
      @ [Op_text ''a'' 0 0, Op_text ''ccc'' 0 22, Op_text ''b'' 54 0, Op_text [] 54 22]"
    using painted_table_grid [OF h _ p] n unfolding r mult_1_right
    by (auto simp: w [unfolded One_nat_def] c [unfolded One_nat_def] i preamble_lines_def sample_ctx_def)
  then show ?thesis by (auto simp: p)
qed

definition sample_canvas :: canvas_state where
  "sample_canvas = \<lparr>ct_dims = sample_dims, ct_ctx = sample_ctx, ct_content = None\<rparr>"

text \<open>The first paint of new content can be clipped: its canvas has the size of the content before. Here the effect
  hands over a longer line, the canvas stays 28 wide, and the line ends at 90.\<close>

theorem new_content_is_clipped_at_first:
  defines "step \<equiv> canvas_step sample_measure (\<lambda>x. ''16'') 1"
  shows "drop 4 (cx_ops (ct_ctx (foldl step sample_canvas
      [Canvas_effect [] [[text_cell ''a'']], Canvas_effect [] [[text_cell ''0123456789'']]])))
      = [Op_size 28 42, Op_fillRect ''#262626'' 0 0 28 42, Op_setTransform 10 10, Op_text ''0123456789'' 0 0]"
  unfolding step_def sample_canvas_def sample_dims_def sample_ctx_def by code_simp


end
