(* ===== verification/Display.thy ===== *)
theory Display
  imports Prelude
begin

text \<open>
  Small display helpers: \<^verbatim>\<open>web/components/colorfunc.tsx\<close> (latency colours), \<^verbatim>\<open>strings.tsx\<close> and
  \<^verbatim>\<open>web/utls/strings.ts\<close> (capitalisation), and \<open>toFixed\<close> of the language. Numbers are exact
  rationals; an upper end of \<open>Infinity\<close> is \<open>None\<close>.
\<close>

section \<open>Colours\<close>

record ColorEncoding =
  ce_color :: string
  ce_range :: "rat \<times> rat option"

definition colorGreen :: string where "colorGreen = ''#4caf50''"
definition colorYellow :: string where "colorYellow = ''#ff9800''"
definition colorRed :: string where "colorRed = ''#f44336''"
definition colorGrey :: string where "colorGrey = ''#9e9e9e''"

definition encodings :: "ColorEncoding list" where
  "encodings =
     [\<lparr>ce_color = colorGreen, ce_range = (0, Some 100)\<rparr>,
      \<lparr>ce_color = colorYellow, ce_range = (100, Some 250)\<rparr>,
      \<lparr>ce_color = colorRed, ce_range = (250, None)\<rparr>]"

definition in_range :: "rat \<Rightarrow> rat \<times> rat option \<Rightarrow> bool" where
  "in_range x r \<longleftrightarrow> fst r \<le> x \<and> (case snd r of None \<Rightarrow> True | Some u \<Rightarrow> x < u)"

definition getLatencyColor :: "rat option \<Rightarrow> string" where
  "getLatencyColor latency =
     (case latency of
        None \<Rightarrow> ''inherit''
      | Some l \<Rightarrow> (case List.find (\<lambda>e. in_range l (ce_range e)) encodings of
                    Some e \<Rightarrow> ce_color e | None \<Rightarrow> colorGrey))"

text \<open>\<open>formatNumber\<close> of the integral ends of the legend's ranges.\<close>

definition formatNumber :: "int option \<Rightarrow> string" where
  "formatNumber n =
     (case n of None \<Rightarrow> ''Infinity'' | Some i \<Rightarrow> if i = 0 then ''0'' else int_to_string i @ ''ms'')"

definition latencyColorEncodingToString :: "ColorEncoding \<Rightarrow> string" where
  "latencyColorEncodingToString e =
     ''['' @ formatNumber (Some \<lfloor>fst (ce_range e)\<rfloor>) @ '', ''
     @ formatNumber (map_option floor (snd (ce_range e))) @ '')''"

text \<open>The colour of a latency: the legend's ranges cover every non-negative latency without
  overlap, so exactly one entry applies; a missing latency inherits, a negative one is grey.\<close>

theorem latency_color_cases:
  "getLatencyColor None = ''inherit''
   \<and> getLatencyColor (Some l) =
       (if l < 0 then colorGrey else if l < 100 then colorGreen else if l < 250 then colorYellow else colorRed)
   \<and> length (filter (\<lambda>e. in_range l (ce_range e)) encodings) = (if l < 0 then 0 else 1)"
  by (auto simp: getLatencyColor_def encodings_def in_range_def)

section \<open>Text\<close>

definition firstLetterCap :: "string \<Rightarrow> string" where
  "firstLetterCap s = (case s of [] \<Rightarrow> [] | c # cs \<Rightarrow> to_upper_char c # cs)"

text \<open>\<open>x.toFixed(d)\<close> of a non-negative number: the nearest multiple of \<open>10\<^sup>-\<^sup>d\<close>, a tie upwards.\<close>

definition pad_digits :: "nat \<Rightarrow> nat \<Rightarrow> string" where
  "pad_digits d n = (let s = nat_to_string n in replicate (d - length s) CHR ''0'' @ s)"

definition toFixed :: "nat \<Rightarrow> rat \<Rightarrow> string" where
  "toFixed d x =
     (let n = nat \<lfloor>x * 10 ^ d + 1 / 2\<rfloor>; q = n div 10 ^ d; r = n mod 10 ^ d
      in if d = 0 then nat_to_string n else nat_to_string q @ ''.'' @ pad_digits d r)"

text \<open>\<open>toFixed\<close> of a number of either sign: the sign of a negative number is kept.\<close>

definition signed_toFixed :: "nat \<Rightarrow> rat \<Rightarrow> string" where
  "signed_toFixed d x = (if x < 0 then CHR ''-'' # toFixed d (- x) else toFixed d x)"

text \<open>\<^verbatim>\<open>s.replace(/\.?0+$/, "")\<close>: the run of zeros at the end and a point before it.\<close>

definition strip_zeros :: "string \<Rightarrow> string" where
  "strip_zeros s =
     (let z = takeWhile (\<lambda>c. c = CHR ''0'') (rev s); r = dropWhile (\<lambda>c. c = CHR ''0'') (rev s)
      in if z = [] then s
         else if r \<noteq> [] \<and> hd r = CHR ''.'' then rev (tl r) else rev r)"

lemma strip_zeros_point: "strip_zeros (s @ ''.'' @ replicate (Suc d) CHR ''0'') = s"
proof -
  have "takeWhile (\<lambda>c. c = CHR ''0'') (replicate n CHR ''0'' @ CHR ''.'' # t) = replicate n CHR ''0''
      \<and> dropWhile (\<lambda>c. c = CHR ''0'') (replicate n CHR ''0'' @ CHR ''.'' # t) = CHR ''.'' # t" for n t
    by (induction n) auto
  from this [of "Suc d" "rev s"] show ?thesis by (simp add: strip_zeros_def del: replicate_Suc)
qed

end
