(* ===== verification/Report.thy ===== *)
theory Report
  imports Trace Canvas_Table Display
begin

text \<open>
  \<^verbatim>\<open>web/components/traceroutereport.tsx\<close>: the contents of the two shareable reports, which
  \<^verbatim>\<open>canvastable.tsx\<close> paints. Dates are milliseconds, printed by the parameter \<open>toISO\<close>
  (\<open>new Date(d).toISOString()\<close>); round trip times are exact rationals.
\<close>

section \<open>The report records\<close>

record TracerouteReportLocation =
  rl_city :: "string option"
  rl_countryAlpha2 :: "string option"

record TracerouteReportISP =
  ri_ispName :: string
  ri_asn :: string
  ri_network :: "string option"

record TracerouteReportSource =
  rs_nodeName :: string
  rs_isp :: "TracerouteReportISP option"
  rs_loc :: "TracerouteReportLocation option"

datatype TracerouteReportMode = Mode_tcp | Mode_icmp | Mode_udp

record TracerouteReportRTTStat =
  rr_lastMs :: rat
  rr_samples :: "rat list"

record TracerouteReportTXRXStat =
  rx_sent :: int
  rx_replies :: int

record TracerouteReportPeer =
  rp_timeout :: "bool option"
  rp_rdns :: "string option"
  rp_ip :: string
  rp_loc :: "TracerouteReportLocation option"
  rp_isp :: "TracerouteReportISP option"
  rp_rtt :: "TracerouteReportRTTStat option"
  rp_stat :: "TracerouteReportTXRXStat option"
  rp_pmtu :: "int option"

record TracerouteReportHop =
  rh_ttl :: int
  rh_peers :: "TracerouteReportPeer list"

record TracerouteReport =
  tr_date :: int
  tr_sources :: "TracerouteReportSource list"
  tr_destination :: string
  tr_mode :: TracerouteReportMode

record PingReport =
  pg_date :: int
  pg_mode :: TracerouteReportMode
  pg_sources :: "string list"
  pg_targets :: "string list"
  pg_preferV4 :: "bool option"
  pg_preferV6 :: "bool option"
  pg_rtts :: "(string \<times> (string \<times> rat) list) list"

section \<open>Text of the parts\<close>

definition strip_trailing :: "char \<Rightarrow> string \<Rightarrow> string" where
  "strip_trailing c s = rev (dropWhile (\<lambda>x. x = c) (rev s))"

definition strip_dot :: "string \<Rightarrow> string" where
  "strip_dot s = (if s \<noteq> [] \<and> last s = CHR ''.'' then butlast s else s)"

definition formatNumStr :: "string \<Rightarrow> string" where
  "formatNumStr num = strip_dot (strip_trailing CHR ''0'' num)"

definition renderLoc :: "TracerouteReportLocation option \<Rightarrow> string" where
  "renderLoc loc =
     (case loc of None \<Rightarrow> []
      | Some l \<Rightarrow>
          (let locLine = (if truthy_str (rl_city l) then [the (rl_city l)] else [])
                         @ (if truthy_str (rl_countryAlpha2 l) then [the (rl_countryAlpha2 l)] else [])
           in if length locLine = 0 then [] else js_join '', '' locLine))"

definition renderISP :: "TracerouteReportISP option \<Rightarrow> string" where
  "renderISP isp =
     (case isp of None \<Rightarrow> []
      | Some i \<Rightarrow>
          if truthy_str (ri_network i) then the (ri_network i)
          else (let ispLine = (if ri_asn i \<noteq> [] then [ri_asn i] else [])
                              @ (if ri_ispName i \<noteq> [] then [ri_ispName i] else [])
                in if length ispLine = 0 then [] else js_join '' '' ispLine))"

definition renderSource :: "TracerouteReportSource option \<Rightarrow> string" where
  "renderSource src =
     (case src of None \<Rightarrow> []
      | Some s \<Rightarrow>
          if rs_nodeName s = [] then []
          else (let ispLine = renderISP (rs_isp s); locLine = renderLoc (rs_loc s)
                in js_join '', ''
                     ([''Node '' @ rs_nodeName s]
                      @ (if ispLine \<noteq> [] then [ispLine] else [])
                      @ (if locLine \<noteq> [] then [locLine] else []))))"

definition mode_string :: "TracerouteReportMode \<Rightarrow> string" where
  "mode_string m = (case m of Mode_tcp \<Rightarrow> ''tcp'' | Mode_icmp \<Rightarrow> ''icmp'' | Mode_udp \<Rightarrow> ''udp'')"

definition content :: "string \<Rightarrow> Cell" where
  "content t = \<lparr>cell_content = t, cell_empty = None\<rparr>"

section \<open>The reports\<close>

definition date_row :: "(int \<Rightarrow> string) \<Rightarrow> int \<Rightarrow> canvas_row list" where
  "date_row toISO date = (if date \<noteq> 0 then [[content (''Date: '' @ toISO date)]] else [])"

definition traceroute_preamble :: "(int \<Rightarrow> string) \<Rightarrow> TracerouteReport \<Rightarrow> canvas_row list" where
  "traceroute_preamble toISO report =
     date_row toISO (tr_date report)
     @ map (\<lambda>line. [content (''Source: '' @ line)])
         (filter (\<lambda>line. line \<noteq> []) (map (\<lambda>src. renderSource (Some src)) (tr_sources report)))
     @ (if tr_destination report \<noteq> [] then [[content (''Destination: '' @ tr_destination report)]] else [])
     @ [[content (''Mode: '' @ js_toUpperCase (mode_string (tr_mode report)))]]"

definition body_row :: "Row \<Rightarrow> canvas_row" where
  "body_row row = (if truthy_bool (spacer row) then [empty_cell] else map content (cells row))"

definition renderTracerouteReport ::
  "(int \<Rightarrow> string) \<Rightarrow> TracerouteReport \<Rightarrow> Table \<Rightarrow> canvas_row list \<times> canvas_row list" where
  "renderTracerouteReport toISO report table =
     (traceroute_preamble toISO report,
      map (\<lambda>headerRow. map content (cells headerRow)) (header table) @ [[empty_cell]]
      @ map body_row (rows table))"

definition report_rtt :: "PingReport \<Rightarrow> string \<Rightarrow> string \<Rightarrow> rat option" where
  "report_rtt report tgt src = Option.bind (map_of (pg_rtts report) tgt) (\<lambda>m. map_of m src)"

definition rtt_text :: "rat \<Rightarrow> string" where
  "rtt_text rtt = formatNumStr (toFixed 2 rtt) @ ''ms''"

fun target_cells :: "PingReport \<Rightarrow> string \<Rightarrow> string list \<Rightarrow> canvas_row" where
  "target_cells report tgt [] = []"
| "target_cells report tgt (src # srcs) =
     (case report_rtt report tgt src of
        None \<Rightarrow> target_cells report tgt srcs
      | Some rtt \<Rightarrow> content (rtt_text rtt) # target_cells report tgt srcs)"

definition backslash :: char where
  "backslash = char_of (92 :: nat)"

definition ping_preamble :: "(int \<Rightarrow> string) \<Rightarrow> PingReport \<Rightarrow> canvas_row list" where
  "ping_preamble toISO report =
     date_row toISO (pg_date report)
     @ [[content (''Mode: '' @ js_toUpperCase (mode_string (pg_mode report)))]]
     @ (if truthy_bool (pg_preferV4 report) then [[content ''Prefer IPv4: true'']] else [])
     @ (if truthy_bool (pg_preferV6 report) then [[content ''Prefer IPv6: true'']] else [])"

definition renderPingReport :: "(int \<Rightarrow> string) \<Rightarrow> PingReport \<Rightarrow> canvas_row list \<times> canvas_row list" where
  "renderPingReport toISO report =
     (ping_preamble toISO report,
      if length (pg_sources report) > 0 then
        (content (''Tgt'' @ [backslash] @ ''Src'') # map (\<lambda>src. content (js_toUpperCase src)) (pg_sources report))
        # (if length (pg_targets report) > 0
           then map (\<lambda>tgt. content tgt # target_cells report tgt (pg_sources report)) (pg_targets report)
           else [])
      else [])"

text \<open>The preview dialogs render nothing without a report (or table); saving uses the report's date.\<close>

definition ping_preview :: "(int \<Rightarrow> string) \<Rightarrow> PingReport option \<Rightarrow> canvas_row list \<times> canvas_row list" where
  "ping_preview toISO report = (case report of Some r \<Rightarrow> renderPingReport toISO r | None \<Rightarrow> ([], []))"

definition traceroute_preview ::
  "(int \<Rightarrow> string) \<Rightarrow> TracerouteReport option \<Rightarrow> Table option \<Rightarrow> canvas_row list \<times> canvas_row list" where
  "traceroute_preview toISO report table =
     (case (report, table) of (Some r, Some t) \<Rightarrow> renderTracerouteReport toISO r t | _ \<Rightarrow> ([], []))"

definition export_name :: "(int \<Rightarrow> string) \<Rightarrow> string \<Rightarrow> int option \<Rightarrow> string option" where
  "export_name toISO kind date =
     map_option (\<lambda>d. map (\<lambda>c. if c = CHR '' '' then CHR ''_'' else c) (kind @ ''-'' @ toISO d @ ''.png'')) date"

section \<open>Numbers\<close>

text \<open>Trimming never eats the digits of an integral part: \<open>toFixed\<close> with a positive number of
  digits always prints a point, where the run of zeros stops.\<close>

lemma strip_trailing_append:
  assumes "s \<noteq> []" and "last s \<noteq> c" shows "strip_trailing c (s @ replicate n c) = s"
proof -
  have "dropWhile (\<lambda>x. x = c) (replicate n c @ rev s) = rev s"
  proof (induction n)
    case 0
    then show ?case using assms by (cases s rule: rev_cases) auto
  qed simp
  then show ?thesis by (simp add: strip_trailing_def)
qed

lemma formatNumStr_whole: "formatNumStr (s @ ''.'' @ replicate n CHR ''0'') = s"
  using strip_trailing_append [of "s @ ''.''" "CHR ''0''" n] by (simp add: formatNumStr_def strip_dot_def)

lemma formatNumStr_fraction:
  assumes "last s \<noteq> CHR ''0''" and "last s \<noteq> CHR ''.''" and "s \<noteq> []"
  shows "formatNumStr (s @ replicate n CHR ''0'') = s"
  using strip_trailing_append [OF assms(3,1), of n] assms(2) by (simp add: formatNumStr_def strip_dot_def)

lemma toFixed_nat:
  assumes "0 < d" shows "toFixed d (of_nat n) = nat_to_string n @ ''.'' @ replicate d CHR ''0''"
proof -
  have e: "of_nat n * 10 ^ d + 1 / 2 = of_int (int (n * 10 ^ d)) + (1 / 2 :: rat)" by simp
  have f: "\<lfloor>of_nat n * 10 ^ d + (1 / 2 :: rat)\<rfloor> = int (n * 10 ^ d)"
    unfolding e by (rule floor_unique) simp_all
  have z: "nat_to_string 0 = ''0''" by code_simp
  have "replicate (d - Suc 0) CHR ''0'' @ ''0'' = replicate d CHR ''0''"
    using assms by (metis Suc_pred One_nat_def replicate_append_same replicate_Suc)
  then show ?thesis using assms by (simp add: toFixed_def Let_def f pad_digits_def z del: of_nat_mult of_nat_power)
qed

section \<open>What the ping report shows\<close>

lemma target_cells_answered:
  "target_cells report tgt srcs =
     map (\<lambda>src. content (rtt_text (the (report_rtt report tgt src))))
       (filter (\<lambda>src. report_rtt report tgt src \<noteq> None) srcs)"
  by (induction srcs) (auto split: option.splits)

lemma shown_simps: "shown (row # rs) c 0 = (if c < length row then cell_content (row ! c) else [])"
    "shown (row # rs) c (Suc r) = shown rs c r"
  by (simp_all add: shown_def)

text \<open>The painted ping report, for any report with a source: under the header the row of a target
  starts with the target and goes on with the times of the sources that answered it, in order and
  without gaps, so the column of source \<open>j\<close> shows its own time exactly as long as no earlier source
  is missing: \<open>renderPingReport\<close> pushes no cell for a missing time.\<close>

theorem ping_report_columns:
  fixes toISO :: "int \<Rightarrow> string" and report :: PingReport
  assumes "pg_sources report \<noteq> []" and "i < length (pg_targets report)"
    and "j < length (pg_sources report)"
  defines "tab \<equiv> snd (renderPingReport toISO report)"
    and "tgt \<equiv> pg_targets report ! i"
    and "answered \<equiv> filter (\<lambda>src. report_rtt report (pg_targets report ! i) src \<noteq> None) (pg_sources report)"
  shows "length (reStructureTable tab) = Suc (length (pg_sources report))
    \<and> shown tab 0 (Suc i) = tgt
    \<and> shown tab (Suc j) 0 = js_toUpperCase (pg_sources report ! j)
    \<and> shown tab (Suc j) (Suc i)
      = (if j < length answered then rtt_text (the (report_rtt report tgt (answered ! j))) else [])
    \<and> (list_all (\<lambda>src. report_rtt report tgt src \<noteq> None) (take (Suc j) (pg_sources report)) \<longrightarrow>
      shown tab (Suc j) (Suc i) = rtt_text (the (report_rtt report tgt (pg_sources report ! j))))"
proof -
  have ne: "length (pg_sources report) > 0" "length (pg_targets report) > 0" using assms(1,2) by auto
  let ?h = "content (''Tgt'' @ [backslash] @ ''Src'') # map (\<lambda>src. content (js_toUpperCase src)) (pg_sources report)"
  have tab: "tab = ?h # map (\<lambda>tgt. content tgt # target_cells report tgt (pg_sources report)) (pg_targets report)"
    using ne by (simp add: tab_def renderPingReport_def)
  have len: "length (reStructureTable tab) = Suc (length (pg_sources report))"
    by (simp add: reStructureTable_length tab)
  have c0: "shown tab 0 (Suc i) = tgt" using assms(2) by (simp add: tab shown_def content_def tgt_def)
  have h: "shown tab (Suc j) 0 = js_toUpperCase (pg_sources report ! j)"
    using assms(3) by (simp add: tab shown_def content_def)
  have cell: "shown tab (Suc j) (Suc i)
      = (if j < length answered then rtt_text (the (report_rtt report tgt (answered ! j))) else [])"
    using assms(2) by (simp add: tab shown_def content_def target_cells_answered tgt_def answered_def)
  have own: "shown tab (Suc j) (Suc i) = rtt_text (the (report_rtt report tgt (pg_sources report ! j)))"
    if all: "list_all (\<lambda>src. report_rtt report tgt src \<noteq> None) (take (Suc j) (pg_sources report))"
  proof -
    let ?P = "\<lambda>src. report_rtt report tgt src \<noteq> None" and ?t = "take (Suc j) (pg_sources report)"
    have "answered = ?t @ filter ?P (drop (Suc j) (pg_sources report))"
      using all filter_append [of ?P ?t "drop (Suc j) (pg_sources report)"]
      by (simp add: answered_def tgt_def list_all_iff filter_id_conv)
    moreover have "length ?t = Suc j" using assms(3) by simp
    ultimately have "j < length answered \<and> answered ! j = pg_sources report ! j"
      by (simp add: nth_append)
    then show ?thesis using cell by simp
  qed
  show ?thesis using len c0 h cell own by simp
qed

definition shifted_report :: PingReport where
  "shifted_report =
     \<lparr>pg_date = 0, pg_mode = Mode_icmp, pg_sources = [''lax'', ''nyc''], pg_targets = [''example.org''],
      pg_preferV4 = None, pg_preferV6 = None, pg_rtts = [(''example.org'', [(''nyc'', 80)])]\<rparr>"

text \<open>A report in which only the second source has a time shows that time under the first source.\<close>

theorem ping_report_shifts_column:
  "shown (snd (renderPingReport toISO shifted_report)) 1 0 = ''LAX''
   \<and> report_rtt shifted_report ''example.org'' ''lax'' = None
   \<and> shown (snd (renderPingReport toISO shifted_report)) 1 1 = ''80ms''
   \<and> shown (snd (renderPingReport toISO shifted_report)) 2 1 = []"
proof -
  have t: "rtt_text 80 = ''80ms''"
  proof -
    have "nat_to_string 80 = ''80''" by code_simp
    then show ?thesis using toFixed_nat [of 2 80] formatNumStr_whole [of "''80''" 2] by (simp add: rtt_text_def)
  qed
  have u: "js_toUpperCase ''lax'' = ''LAX''" by code_simp
  show ?thesis
    by (simp add: t u shifted_report_def renderPingReport_def shown_def report_rtt_def content_def numeral_2_eq_2)
qed

section \<open>What the traceroute report shows\<close>

lemma peer_rows_width: "list_all (\<lambda>r. length (cells r) \<le> 4 \<and> spacer r = Some False) (peer_rows hopCell ps)"
  by (simp add: peer_rows_def fromCells_def)

lemma hop_rows_width: "list_all (\<lambda>r. length (cells r) \<le> 4 \<and> spacer r = Some False) (hop_rows h peers first ks)"
  by (induction h peers first ks rule: hop_rows.induct) (auto simp: peer_rows_width split: option.splits)

lemma table_loop_width:
  "list_all (\<lambda>r. length (cells r) \<le> 4 \<and> (truthy_bool (spacer r) \<longrightarrow> cells r = [])) (table_loop hops i hs)"
proof (induction hops i hs rule: table_loop.induct)
  case (2 hops hopIdx hopTTL rest)
  have "list_all (\<lambda>r. length (cells r) \<le> 4 \<and> (truthy_bool (spacer r) \<longrightarrow> cells r = [])) (hop_rows hopTTL p True ks)"
    for p ks by (rule list.pred_mono_strong [OF hop_rows_width]) simp
  then show ?case using 2 by (auto simp: spacerRow_def split: option.splits)
qed simp

text \<open>The traceroute report shows the whole table: painting the rendered table of any statistics
  gives four columns, the two header rows, one blank row and then every row of \<open>ToTable\<close>, each of
  its cells in its own column; no cell is lost to the width of the first row, and a spacer is a
  blank row.\<close>

theorem traceroute_report_complete:
  "let tab = snd (renderTracerouteReport toISO report (ToTable st)); body = rows (ToTable st) in
   length (reStructureTable tab) = 4 \<and> length tab = 3 + length body
   \<and> shown tab c 2 = []
   \<and> (i < length body \<longrightarrow>
        (c < length (cells (body ! i)) \<longrightarrow> c < 4 \<and> shown tab c (3 + i) = cells (body ! i) ! c)
        \<and> (\<not> c < length (cells (body ! i)) \<longrightarrow> shown tab c (3 + i) = []))"
proof -
  let ?body = "rows (ToTable st)"
  have tab: "snd (renderTracerouteReport toISO report (ToTable st))
      = [map content (cells (trace_header ! 0)), map content (cells (trace_header ! 1)), [empty_cell]]
        @ map body_row ?body"
    by (simp add: renderTracerouteReport_def ToTable_def trace_header_def)
  have w: "length (cells (?body ! i)) \<le> 4 \<and> (truthy_bool (spacer (?body ! i)) \<longrightarrow> cells (?body ! i) = [])"
    if "i < length ?body"
    using that table_loop_width [of "Hops st" 0 "HopOrder st"]
    by (auto simp: ToTable_def list_all_length split: if_splits)
  have s: "shown (snd (renderTracerouteReport toISO report (ToTable st))) c (3 + i) = shown (map body_row ?body) c i"
    by (simp add: tab numeral_3_eq_3 shown_simps)
  have b: "shown (map body_row ?body) c i = (if c < length (cells (?body ! i)) then cells (?body ! i) ! c else [])"
    if "i < length ?body"
    using that w [OF that] by (auto simp: shown_def body_row_def content_def empty_cell_def)
  show ?thesis
    unfolding Let_def s
    using w b by (auto simp: tab reStructureTable_length trace_header_def fromCells_def shown_def empty_cell_def)
qed

lemma ping_report_columns_witness:
  "length (reStructureTable (snd (renderPingReport (\<lambda>d. []) shifted_report))) = 3
   \<and> shown (snd (renderPingReport (\<lambda>d. []) shifted_report)) 2 1 = []"
proof -
  have "filter (\<lambda>src. report_rtt shifted_report ''example.org'' src \<noteq> None) [''lax'', ''nyc''] = [''nyc'']"
    by (simp add: report_rtt_def shifted_report_def)
  then show ?thesis
    using ping_report_columns [of shifted_report 0 1 "\<lambda>d. []"]
    by (simp add: shifted_report_def numeral_2_eq_2 numeral_3_eq_3)
qed

definition sample_report :: TracerouteReport where
  "sample_report = \<lparr>tr_date = 0, tr_sources = [], tr_destination = ''example.org'', tr_mode = Mode_udp\<rparr>"

lemma traceroute_report_complete_witness:
  "shown (snd (renderTracerouteReport (\<lambda>d. []) sample_report (ToTable (trace_run [fromError ''x''])))) 1 3 = ''*''"
proof -
  have "length (rows (ToTable (trace_run [fromError ''x'']))) = 2"
     "cells (rows (ToTable (trace_run [fromError ''x''])) ! 0) = [''1.'', ''*'', ''0ms 0ms/0ms/0ms'', ''1/1/0%'']" by code_simp+
  then show ?thesis
    using traceroute_report_complete [of "\<lambda>d. []" sample_report "trace_run [fromError ''x'']" 1 0]
    by (auto simp: Let_def)
qed

end
