(* ===== verification/Ping_Display.thy ===== *)
theory Ping_Display
  imports Ping_Events Node_Directory World_Map Report
begin

text \<open>
  \<^verbatim>\<open>web/components/pingdisplay.tsx\<close>: the table of ping results. The map of cells is shared between
  successive states of the component, and \<open>updateTableCellDataMap\<close> writes to one of its inner
  objects in place, so the inner objects live in an explicit store and the outer map holds their
  addresses. The stream of a task is started by a timer, stopped by the pause button and by the
  cleanup of the effect. Numbers are exact; \<open>num\<close> prints one inside a template string.
\<close>

section \<open>The map of cells\<close>

record TableCellData =
  latest_latency :: "rat option"
  latest_mss :: "int option"
  latestSample :: PingSample
  cell_samples :: "PingSample list"

type_synonym cell_object = "(string \<times> TableCellData) list"

record cell_store =
  objects :: "nat \<Rightarrow> cell_object"
  fresh :: nat

type_synonym TableCellDataMap = "(string \<times> nat) list"

definition cell_of_sample :: "PingSample \<Rightarrow> PingSample list \<Rightarrow> TableCellData" where
  "cell_of_sample sample older =
     \<lparr>latest_latency = latencyMs sample, latest_mss = sample_mss sample, latestSample = sample,
      cell_samples = sample # older\<rparr>"

definition alloc :: "cell_object \<Rightarrow> cell_store \<Rightarrow> nat \<times> cell_store" where
  "alloc obj st = (fresh st, st\<lparr>objects := (objects st)(fresh st := obj), fresh := Suc (fresh st)\<rparr>)"

definition updateTableCellDataMap ::
  "PingSample \<Rightarrow> TableCellDataMap \<times> cell_store \<Rightarrow> TableCellDataMap \<times> cell_store" where
  "updateTableCellDataMap sample s =
     (let (prev, st) = s; tgt = sample_target sample; src = sample_from sample;
          (newMap, st) = (case map_of prev tgt of
             Some a \<Rightarrow> (prev, st)
           | None \<Rightarrow> (let (a, st) = alloc [] st in (AList.update tgt a prev, st)));
          a = the (map_of newMap tgt)
      in case map_of (objects st a) src of
           None \<Rightarrow> (newMap, st\<lparr>objects := (objects st)(a := AList.update src (cell_of_sample sample []) (objects st a))\<rparr>)
         | Some cell \<Rightarrow>
             (let (a', st) = alloc (AList.update src (cell_of_sample sample (cell_samples cell)) (objects st a)) st
              in (AList.update tgt a' newMap, st)))"

record latest_data =
  ld_datum :: "PingSample option"
  ld_latency :: "rat option"
  ld_mss :: "int option"
  ld_historySamples :: "PingSample list"

definition find_cell :: "TableCellDataMap \<times> cell_store \<Rightarrow> string \<Rightarrow> string \<Rightarrow> TableCellData option" where
  "find_cell s target source =
     Option.bind (map_of (fst s) target) (\<lambda>a. map_of (objects (snd s) a) source)"

definition getLatestDataFromMap :: "TableCellDataMap \<times> cell_store \<Rightarrow> string \<Rightarrow> string \<Rightarrow> latest_data" where
  "getLatestDataFromMap s target source =
     (let data = find_cell s target source
      in \<lparr>ld_datum = map_option latestSample data,
          ld_latency = Option.bind data latest_latency,
          ld_mss = Option.bind data latest_mss,
          ld_historySamples = (case data of None \<Rightarrow> [] | Some c \<Rightarrow> cell_samples c)\<rparr>)"

definition report_mode :: "PendingTask \<Rightarrow> TracerouteReportMode" where
  "report_mode task =
     (if truthy_bool (useUDP task) then Mode_udp
      else if task_type task = T_tcpping then Mode_tcp else Mode_icmp)"

definition buildPingReport :: "int \<Rightarrow> TableCellDataMap \<times> cell_store \<Rightarrow> PendingTask \<Rightarrow> PingReport" where
  "buildPingReport now s task =
     \<lparr>pg_date = now, pg_mode = report_mode task, pg_sources = sources task, pg_targets = targets task,
      pg_preferV4 = preferV4 task, pg_preferV6 = preferV6 task,
      pg_rtts = map (\<lambda>(tgt, a). (tgt, List.map_filter (\<lambda>(src, cell). map_option (Pair src) (latest_latency cell))
                                       (objects (snd s) a))) (fst s)\<rparr>"

text \<open>The share button does nothing without a source and a target.\<close>

definition share_report :: "int \<Rightarrow> TableCellDataMap \<times> cell_store \<Rightarrow> PendingTask \<Rightarrow> PingReport option" where
  "share_report now s task =
     (if length (sources task) > 0 \<and> length (targets task) > 0 then Some (buildPingReport now s task) else None)"

section \<open>Markers\<close>

definition template_opt :: "string option \<Rightarrow> string" where
  "template_opt s = nullish s ''undefined''"

definition marker_index :: "PingSample \<Rightarrow> string" where
  "marker_index p = ''TTL='' @ int_to_string (sample_ttl p) @ '', IP='' @ template_opt (sample_peer p)"

definition updateMarkers :: "rat \<Rightarrow> PingSample \<Rightarrow> Marker list \<Rightarrow> Marker list" where
  "updateMarkers ratio p markers =
     (case peerExactLocation p of
        None \<Rightarrow> markers
      | Some exact \<Rightarrow>
          (case latencyMs p of
             None \<Rightarrow> markers
           | Some rtt \<Rightarrow>
               (let index = marker_index p;
                    kept = (if list_ex (\<lambda>m. mk_index m = Some index) markers
                            then filter (\<lambda>m. mk_index m \<noteq> Some index) markers else markers)
                in kept @ [\<lparr>lonLat = (Longitude exact, Latitude exact), mk_fill = Some (getLatencyColor (Some rtt)),
                            mk_radius = Some (8 * ratio), mk_strokeWidth = Some (3 * ratio),
                            mk_stroke = Some ''white'',
                            mk_tooltip = Some ([''TTL: '' @ int_to_string (sample_ttl p), ''IP: '' @ nullish (sample_peer p) []]
                              @ (if truthy_str (peerRdns p) then [''RDNS: '' @ the (peerRdns p)] else [])),
                            mk_open = None, mk_index = Some index, mk_metadata = None\<rparr>])))"

definition latLonToLonLat :: "rat \<times> rat \<Rightarrow> rat \<times> rat" where
  "latLonToLonLat latLon = (snd latLon, fst latLon)"

definition name_char :: "char \<Rightarrow> bool" where
  "name_char c \<longleftrightarrow> is_digit c \<or> (65 \<le> (of_char c :: nat) \<and> (of_char c :: nat) \<le> 90)
     \<or> (97 \<le> (of_char c :: nat) \<and> (of_char c :: nat) \<le> 122) \<or> c \<in> {CHR ''.'', CHR ''_'', CHR ''-''}"

definition trimPrefix :: "string \<Rightarrow> string" where
  "trimPrefix s =
     (let p = takeWhile name_char s; r = dropWhile name_char s
      in if p \<noteq> [] \<and> r \<noteq> [] \<and> hd r = CHR ''/'' then tl r else s)"

definition group_latencies ::
  "TableCellDataMap \<times> cell_store \<Rightarrow> string \<Rightarrow> NodeGroup \<Rightarrow> (string \<times> rat) list" where
  "group_latencies s target g =
     List.map_filter (\<lambda>node.
       if \<not> truthy_str (node_name node) then None
       else (case ld_latency (getLatestDataFromMap s target (the (node_name node))) of
               Some l \<Rightarrow> if l \<ge> 0 then Some (the (node_name node), l) else None
             | None \<Rightarrow> None)) (ng_nodes g)"

definition group_marker :: "rat \<Rightarrow> TableCellDataMap \<times> cell_store \<Rightarrow> string \<Rightarrow> NodeGroup \<Rightarrow> Marker" where
  "group_marker ratio s target g =
     (let pairs = group_latencies s target g;
          latencies = sort (map snd pairs);
          latenciesMap = foldl (\<lambda>m (k, v). AList.update k v m) [] pairs;
          color = (if latencies \<noteq> [] then getLatencyColor (Some (latencies ! 0)) else colorGrey);
          tip = (if latencies \<noteq> []
                     then concat (map (\<lambda>(n, l). n @ '': '' @ toFixed 3 l @ '' ms'' @ [newline]) latenciesMap)
                     else [])
      in \<lparr>lonLat = latLonToLonLat (ng_latLon g), mk_fill = Some color,
          mk_radius = Some (8 * ratio), mk_strokeWidth = Some (3 * ratio), mk_stroke = Some ''white'',
          mk_tooltip = (if tip \<noteq> [] then Some [tip] else None), mk_open = None,
          mk_index = (case ng_nodes g of
                        [] \<Rightarrow> None
                      | n # ns \<Rightarrow> if truthy_str (node_name n)
                                 then Some (js_toUpperCase (trimPrefix (the (node_name n)))) else None),
          mk_metadata = None\<rparr>)"

definition maximumExtraMarkers :: nat where
  "maximumExtraMarkers = 100"

definition hop_markers :: "rat \<Rightarrow> TableCellDataMap \<times> cell_store \<Rightarrow> string \<Rightarrow> string list \<Rightarrow> Marker list" where
  "hop_markers ratio s target srcs =
     foldl (\<lambda>ms src. foldl (\<lambda>ms p. updateMarkers ratio p ms) ms (ld_historySamples (getLatestDataFromMap s target src)))
       [] srcs"

definition extra_markers :: "rat \<Rightarrow> TableCellDataMap \<times> cell_store \<Rightarrow> string \<Rightarrow> string list \<Rightarrow> Marker list" where
  "extra_markers ratio s target srcs =
     (let extraMarkers = hop_markers ratio s target srcs
      in if length extraMarkers > maximumExtraMarkers then take maximumExtraMarkers extraMarkers else extraMarkers)"

definition target_markers ::
  "rat \<Rightarrow> Conns option \<Rightarrow> TableCellDataMap \<times> cell_store \<Rightarrow> string \<Rightarrow> string list \<Rightarrow> Marker list" where
  "target_markers ratio conns s target srcs =
     map (group_marker ratio s target) (case conns of None \<Rightarrow> [] | Some c \<Rightarrow> getNodeGroups c (set srcs))
     @ extra_markers ratio s target srcs"

section \<open>Text of a cell\<close>

definition sample_line :: "PingSample option \<Rightarrow> string" where
  "sample_line smp =
     (case smp of None \<Rightarrow> []
      | Some p \<Rightarrow>
          if isTimeout p then
            js_join '' '' [''Timeout:'', ''seq='' @ int_to_string (sample_seq p), ''ttl='' @ int_to_string (sample_ttl p)]
          else js_join '' ''
            ((case receivedSize p of None \<Rightarrow> [] | Some n \<Rightarrow> [int_to_string n @ '' bytes''])
             @ (if truthy_str (sample_peer p) then
                  (if truthy_str (peerRdns p)
                   then [''from '' @ the (peerRdns p) @ '' ('' @ the (sample_peer p) @ ''):'']
                   else [''from '' @ the (sample_peer p) @ '':''])
                else [])
             @ [''seq='' @ int_to_string (sample_seq p)]
             @ (case receivedTTL p of None \<Rightarrow> [] | Some n \<Rightarrow> [''ttl='' @ int_to_string n])
             @ (case sample_mss p of None \<Rightarrow> [] | Some n \<Rightarrow> [''mss='' @ int_to_string n])
             @ (case latencyMs p of None \<Rightarrow> [] | Some l \<Rightarrow> [''time='' @ formatNumStr (toFixed 3 l) @ ''ms''])))"

definition optional_line :: "string \<Rightarrow> string option \<Rightarrow> string list" where
  "optional_line label s = (if truthy_str s then [label @ '': '' @ the s] else [])"

definition ShowMoreDetails :: "(rat \<Rightarrow> string) \<Rightarrow> PingSample \<Rightarrow> PingSample list \<Rightarrow> string list \<times> string list" where
  "ShowMoreDetails num p historySamples =
     (optional_line ''Peer'' (sample_peer p) @ optional_line ''RDNS'' (peerRdns p)
      @ optional_line ''ASN'' (peerASN p) @ optional_line ''ISP'' (peerISP p)
      @ optional_line ''Location'' (peerLocation p)
      @ (case peerExactLocation p of None \<Rightarrow> []
         | Some e \<Rightarrow> [''LatLon: '' @ num (Latitude e) @ '', '' @ num (Longitude e)]),
      map (\<lambda>h. sample_line (Some h)) historySamples)"

text \<open>A cell of the table; a text of \<open>None\<close> is the dash.\<close>

record ping_cell =
  pc_color :: string
  pc_text :: "string option"
  pc_mss :: "string option"
  pc_details :: "(string list \<times> string list) option"

definition ping_cell_view :: "(rat \<Rightarrow> string) \<Rightarrow> TableCellDataMap \<times> cell_store \<Rightarrow> string \<Rightarrow> string \<Rightarrow> ping_cell" where
  "ping_cell_view num s target source =
     (let d = getLatestDataFromMap s target source
      in \<lparr>pc_color = getLatencyColor (ld_latency d),
          pc_text = (case ld_latency d of
                       Some l \<Rightarrow> if (case ld_datum d of Some p \<Rightarrow> isTimeout p | None \<Rightarrow> False) then None
                                else Some (toFixed 3 l @ '' ms'')
                     | None \<Rightarrow> None),
          pc_mss = map_option (\<lambda>m. ''MSS='' @ int_to_string m) (ld_mss d),
          pc_details = map_option (\<lambda>p. ShowMoreDetails num p (ld_historySamples d)) (ld_datum d)\<rparr>)"

datatype Orientation = TGT_SRC | SRC_TGT

definition rotate_orientation :: "Orientation \<Rightarrow> Orientation" where
  "rotate_orientation prev = (if prev = TGT_SRC then SRC_TGT else TGT_SRC)"

definition table_head :: "Orientation \<Rightarrow> PendingTask \<Rightarrow> string list" where
  "table_head orientation task =
     (case orientation of
        TGT_SRC \<Rightarrow> [''Target''] @ map js_toUpperCase (sources task) @ [''Overview'']
      | SRC_TGT \<Rightarrow> [''Source''] @ targets task)"

definition table_body ::
  "(rat \<Rightarrow> string) \<Rightarrow> Orientation \<Rightarrow> PendingTask \<Rightarrow> TableCellDataMap \<times> cell_store \<Rightarrow> (string \<times> ping_cell list) list" where
  "table_body num orientation task s =
     (case orientation of
        TGT_SRC \<Rightarrow> map (\<lambda>t. (t, map (ping_cell_view num s t) (sources task))) (targets task)
      | SRC_TGT \<Rightarrow> map (\<lambda>f. (js_toUpperCase f, map (\<lambda>t. ping_cell_view num s t f) (targets task))) (sources task))"

section \<open>Running and pausing\<close>

definition launch_request :: "string \<Rightarrow> PendingTask \<Rightarrow> PingRequest" where
  "launch_request resolver task =
     \<lparr>pr_sources = sources task, pr_targets = targets task, pr_count = None,
      pr_intervalMs = (if task_type task = T_tcpping then 1000 else 300), pr_pktTimeoutMs = 3000,
      pr_resolver = Some resolver, pr_ttl = None, pr_ipInfoProviderName = Some ''auto'',
      pr_preferV4 = preferV4 task, pr_preferV6 = preferV6 task,
      pr_l4PacketType = Some (if truthy_bool (useUDP task) then L4_udp
                              else if task_type task = T_tcpping then L4_tcp else L4_icmp),
      pr_randomPayloadSize = None\<rparr>"

text \<open>A stream started by \<open>launchStream\<close>: whether its reader is still open, and the value a read
  has resolved to whose callback has not run yet. A cancelled reader resolves no further read
  with a value.\<close>

record ping_stream =
  reader_open :: bool
  in_flight :: "PingSample option"

record ping_display =
  pd_running :: bool
  pd_timer :: bool
  pd_readerRef :: "nat option"
  pd_streams :: "ping_stream list"
  pd_cells :: "TableCellDataMap \<times> cell_store"

datatype ping_move =
    P_timer
  | P_toggle
  | P_unmount
  | P_resolve nat PingSample
  | P_end nat
  | P_callback nat

definition cancelStream :: "ping_display \<Rightarrow> ping_display" where
  "cancelStream d =
     (case pd_readerRef d of
        None \<Rightarrow> d
      | Some i \<Rightarrow> d\<lparr>pd_readerRef := None, pd_streams := (pd_streams d)[i := (pd_streams d ! i)\<lparr>reader_open := False\<rparr>]\<rparr>)"

text \<open>The cleanup of the effect and its body, run when \<open>running\<close> changes.\<close>

definition effect_cleanup :: "ping_display \<Rightarrow> ping_display" where
  "effect_cleanup d = cancelStream (d\<lparr>pd_timer := False\<rparr>)"

definition run_effect :: "ping_display \<Rightarrow> ping_display" where
  "run_effect d = (if pd_running d then d\<lparr>pd_timer := True\<rparr> else d)"

definition toggle_running :: "ping_display \<Rightarrow> ping_display" where
  "toggle_running d =
     (if pd_running d then run_effect (effect_cleanup ((cancelStream d)\<lparr>pd_running := False\<rparr>))
      else run_effect (effect_cleanup (d\<lparr>pd_running := True\<rparr>)))"

definition launchStream :: "ping_display \<Rightarrow> ping_display" where
  "launchStream d =
     d\<lparr>pd_timer := False, pd_streams := pd_streams d @ [\<lparr>reader_open = True, in_flight = None\<rparr>],
       pd_readerRef := Some (length (pd_streams d))\<rparr>"

definition ping_init :: ping_display where
  "ping_init = run_effect
     \<lparr>pd_running = True, pd_timer = False, pd_readerRef = None, pd_streams = [],
      pd_cells = ([], \<lparr>objects = (\<lambda>_. []), fresh = 0\<rparr>)\<rparr>"

inductive ping_step :: "ping_display \<Rightarrow> ping_move \<Rightarrow> ping_display \<Rightarrow> bool" where
  timer: "pd_timer d \<Longrightarrow> ping_step d P_timer (launchStream d)"
| toggle: "ping_step d P_toggle (toggle_running d)"
| unmount: "ping_step d P_unmount (effect_cleanup d)"
| resolve: "i < length (pd_streams d) \<Longrightarrow> reader_open (pd_streams d ! i) \<Longrightarrow> in_flight (pd_streams d ! i) = None
    \<Longrightarrow> ping_step d (P_resolve i smp)
          (d\<lparr>pd_streams := (pd_streams d)[i := (pd_streams d ! i)\<lparr>in_flight := Some smp\<rparr>]\<rparr>)"
| stream_end: "i < length (pd_streams d) \<Longrightarrow> reader_open (pd_streams d ! i) \<Longrightarrow> in_flight (pd_streams d ! i) = None
    \<Longrightarrow> ping_step d (P_end i) (d\<lparr>pd_streams := (pd_streams d)[i := (pd_streams d ! i)\<lparr>reader_open := False\<rparr>]\<rparr>)"
| callback: "i < length (pd_streams d) \<Longrightarrow> in_flight (pd_streams d ! i) = Some smp
    \<Longrightarrow> ping_step d (P_callback i)
          (d\<lparr>pd_streams := (pd_streams d)[i := (pd_streams d ! i)\<lparr>in_flight := None\<rparr>],
             pd_cells := updateTableCellDataMap smp (pd_cells d)\<rparr>)"

code_pred (modes: i \<Rightarrow> i \<Rightarrow> o \<Rightarrow> bool) ping_step .

inductive_cases ping_stepE: "ping_step d mv d'"

inductive ping_steps :: "ping_display \<Rightarrow> ping_move list \<Rightarrow> ping_display \<Rightarrow> bool" where
  refl: "ping_steps d [] d"
| step: "ping_steps d mvs d1 \<Longrightarrow> ping_step d1 mv d2 \<Longrightarrow> ping_steps d (mvs @ [mv]) d2"

section \<open>The cells hold the history of their samples\<close>

definition wf_cells :: "TableCellDataMap \<times> cell_store \<Rightarrow> bool" where
  "wf_cells s \<longleftrightarrow>
     (\<forall>t a. map_of (fst s) t = Some a \<longrightarrow> a < fresh (snd s))
     \<and> (\<forall>t t' a. map_of (fst s) t = Some a \<and> map_of (fst s) t' = Some a \<longrightarrow> t = t')
     \<and> (\<forall>a. distinct (map fst (objects (snd s) a)))"

definition no_cells :: "TableCellDataMap \<times> cell_store" where
  "no_cells = ([], \<lparr>objects = (\<lambda>_. []), fresh = 0\<rparr>)"

lemma wf_no_cells: "wf_cells no_cells"
  by (simp add: wf_cells_def no_cells_def)

definition new_object :: "PingSample \<Rightarrow> TableCellDataMap \<times> cell_store \<Rightarrow> cell_object" where
  "new_object p s =
     (let obj = (case map_of (fst s) (sample_target p) of None \<Rightarrow> [] | Some a \<Rightarrow> objects (snd s) a)
      in AList.update (sample_from p)
           (cell_of_sample p (case map_of obj (sample_from p) of None \<Rightarrow> [] | Some c \<Rightarrow> cell_samples c)) obj)"

text \<open>The three branches of the update: a new target, a known target with a new source (written in
  place), and a known pair (copied).\<close>

lemma update_new_target:
  assumes "map_of m (sample_target p) = None"
  shows "updateTableCellDataMap p (m, st) =
     (AList.update (sample_target p) (fresh st) m,
      st\<lparr>objects := (objects st)(fresh st := new_object p (m, st)), fresh := Suc (fresh st)\<rparr>)"
  using assms by (simp add: updateTableCellDataMap_def alloc_def new_object_def update_conv' Let_def)

lemma update_new_source:
  assumes "map_of m (sample_target p) = Some a" and "map_of (objects st a) (sample_from p) = None"
  shows "updateTableCellDataMap p (m, st) = (m, st\<lparr>objects := (objects st)(a := new_object p (m, st))\<rparr>)"
  using assms by (simp add: updateTableCellDataMap_def new_object_def Let_def)

lemma update_known_pair:
  assumes "map_of m (sample_target p) = Some a" and "map_of (objects st a) (sample_from p) = Some c"
  shows "updateTableCellDataMap p (m, st) =
     (AList.update (sample_target p) (fresh st) m,
      st\<lparr>objects := (objects st)(fresh st := new_object p (m, st)), fresh := Suc (fresh st)\<rparr>)"
  using assms by (simp add: updateTableCellDataMap_def alloc_def new_object_def Let_def)

definition written_in_place :: "PingSample \<Rightarrow> TableCellDataMap \<times> cell_store \<Rightarrow> bool" where
  "written_in_place p s =
     (case map_of (fst s) (sample_target p) of
        None \<Rightarrow> False | Some a \<Rightarrow> map_of (objects (snd s) a) (sample_from p) = None)"

definition grown :: "PingSample \<Rightarrow> TableCellDataMap \<times> cell_store \<Rightarrow> TableCellDataMap \<times> cell_store" where
  "grown p s =
     (AList.update (sample_target p) (fresh (snd s)) (fst s),
      (snd s)\<lparr>objects := (objects (snd s))(fresh (snd s) := new_object p s), fresh := Suc (fresh (snd s))\<rparr>)"

lemma update_eq:
  "updateTableCellDataMap p s =
     (if written_in_place p s
      then (fst s, (snd s)\<lparr>objects := (objects (snd s))(the (map_of (fst s) (sample_target p)) := new_object p s)\<rparr>)
      else grown p s)"
proof (cases s)
  case (Pair m st)
  show ?thesis
  proof (cases "map_of m (sample_target p)")
    case None
    then show ?thesis by (simp add: Pair update_new_target written_in_place_def grown_def)
  next
    case (Some a)
    then show ?thesis
      by (cases "map_of (objects st a) (sample_from p)")
         (simp_all add: Pair update_new_source update_known_pair written_in_place_def grown_def)
  qed
qed

lemma new_object_lookup:
  "map_of (new_object p s) f =
     (if f = sample_from p
      then Some (cell_of_sample p (case find_cell s (sample_target p) f of None \<Rightarrow> [] | Some c \<Rightarrow> cell_samples c))
      else find_cell s (sample_target p) f)"
  by (auto simp: new_object_def find_cell_def update_conv' Let_def split: option.splits)

lemma new_object_distinct: "wf_cells s \<Longrightarrow> distinct (map fst (new_object p s))"
  by (auto simp: new_object_def wf_cells_def Let_def distinct_update split: option.splits)

lemma wf_fresh: "wf_cells s \<Longrightarrow> map_of (fst s) t \<noteq> Some (fresh (snd s))"
  unfolding wf_cells_def by fastforce

lemma wf_objects: "wf_cells s \<Longrightarrow> distinct (map fst (objects (snd s) a))"
  by (simp add: wf_cells_def)

lemma update_wf:
  assumes "wf_cells s" shows "wf_cells (updateTableCellDataMap p s)"
proof (cases "written_in_place p s")
  case True
  then show ?thesis
    using assms new_object_distinct [OF assms, of p] by (simp add: update_eq wf_cells_def)
next
  case False
  have "wf_cells (grown p s)"
    using assms wf_fresh [OF assms] new_object_distinct [OF assms, of p]
    by (auto simp: wf_cells_def grown_def update_conv' less_Suc_eq split: if_splits)
  with False show ?thesis by (simp add: update_eq)
qed

lemma update_find_cell:
  assumes "wf_cells s"
  shows "find_cell (updateTableCellDataMap p s) t f =
     (if t = sample_target p \<and> f = sample_from p
      then Some (cell_of_sample p (case find_cell s t f of None \<Rightarrow> [] | Some c \<Rightarrow> cell_samples c))
      else find_cell s t f)"
proof -
  have "find_cell (updateTableCellDataMap p s) t f
    = (if t = sample_target p then map_of (new_object p s) f else find_cell s t f)"
  proof (cases "written_in_place p s")
    case True
    then obtain a where a: "map_of (fst s) (sample_target p) = Some a"
      by (auto simp: written_in_place_def split: option.splits)
    have "map_of (fst s) t \<noteq> Some a" if "t \<noteq> sample_target p"
      using assms a that unfolding wf_cells_def by blast
    then show ?thesis using True a by (cases "map_of (fst s) t") (auto simp: update_eq find_cell_def)
  next
    case False
    then show ?thesis using wf_fresh [OF assms, of t]
      by (cases "map_of (fst s) t") (auto simp: update_eq grown_def find_cell_def update_conv')
  qed
  then show ?thesis by (simp add: new_object_lookup)
qed

definition after_samples :: "PingSample list \<Rightarrow> TableCellDataMap \<times> cell_store" where
  "after_samples ps = foldl (\<lambda>s p. updateTableCellDataMap p s) no_cells ps"

definition pair_samples :: "string \<Rightarrow> string \<Rightarrow> PingSample list \<Rightarrow> PingSample list" where
  "pair_samples t f ps = filter (\<lambda>p. sample_target p = t \<and> sample_from p = f) ps"

lemma after_wf: "wf_cells (after_samples ps)"
  unfolding after_samples_def by (induction ps rule: rev_induct) (simp_all add: wf_no_cells update_wf)

lemma after_snoc: "after_samples (ps @ [p]) = updateTableCellDataMap p (after_samples ps)"
  by (simp add: after_samples_def)

lemma after_find_cell:
  "find_cell (after_samples ps) t f =
     (case rev (pair_samples t f ps) of [] \<Rightarrow> None | p # older \<Rightarrow> Some (cell_of_sample p older))"
proof (induction ps rule: rev_induct)
  case Nil
  then show ?case by (simp add: after_samples_def no_cells_def find_cell_def pair_samples_def)
next
  case (snoc p ps)
  then show ?case
    by (auto simp: after_snoc update_find_cell [OF after_wf] pair_samples_def cell_of_sample_def split: list.splits)
qed

lemma map_of_map_filter:
  assumes "distinct (map fst xs)"
  shows "map_of (List.map_filter (\<lambda>(k, v). map_option (Pair k) (g v)) xs) k = Option.bind (map_of xs k) g"
  using assms
proof (induction xs)
  case (Cons x xs)
  obtain k' v where x: "x = (k', v)" by fastforce
  have "map_of xs k' = None" using Cons.prems by (simp add: x map_of_eq_None_iff)
  then show ?case using Cons by (cases "g v") (auto simp: x map_filter_simps)
qed (simp add: map_filter_simps)

text \<open>C13. After any samples, in any order of sources and targets, the cell of a pair holds exactly the
  samples of that pair, the newest first: its latest sample, latency and MSS are those of the last
  one (a timeout clears the latency), every other pair is untouched, and the shared report has the
  same latency.\<close>

theorem ping_table_history:
  "(case rev (pair_samples t f ps) of
      [] \<Rightarrow> getLatestDataFromMap (after_samples ps) t f
              = \<lparr>ld_datum = None, ld_latency = None, ld_mss = None, ld_historySamples = []\<rparr>
    | p # older \<Rightarrow> getLatestDataFromMap (after_samples ps) t f
              = \<lparr>ld_datum = Some p, ld_latency = latencyMs p, ld_mss = sample_mss p, ld_historySamples = p # older\<rparr>)
   \<and> report_rtt (buildPingReport now (after_samples ps) task) t f
      = ld_latency (getLatestDataFromMap (after_samples ps) t f)"
proof -
  have r: "report_rtt (buildPingReport now s task) t f = ld_latency (getLatestDataFromMap s t f)" if "wf_cells s" for s
    using wf_objects [OF that]
    by (auto simp: report_rtt_def buildPingReport_def getLatestDataFromMap_def find_cell_def map_of_map
        map_of_map_filter split: option.splits bind_splits)
  show ?thesis
    using r [OF after_wf]
    by (auto simp: getLatestDataFromMap_def after_find_cell cell_of_sample_def split: list.splits)
qed

section \<open>The update writes to the previous state\<close>

lemma written_in_place_after:
  "written_in_place p (after_samples ps) \<longleftrightarrow>
     pair_samples (sample_target p) (sample_from p) ps = [] \<and> (\<exists>q\<in>set ps. sample_target q = sample_target p)"
proof -
  have known: "map_of (fst (after_samples ps)) t = None \<longleftrightarrow> (\<forall>q\<in>set ps. sample_target q \<noteq> t)" for t
  proof (induction ps rule: rev_induct)
    case Nil
    then show ?case by (simp add: after_samples_def no_cells_def)
  next
    case (snoc q ps)
    have "map_of (fst (updateTableCellDataMap q (after_samples ps))) t = None
        \<longleftrightarrow> map_of (fst (after_samples ps)) t = None \<and> sample_target q \<noteq> t"
    proof (cases "written_in_place q (after_samples ps)")
      case True
      then show ?thesis by (auto simp: update_eq written_in_place_def split: option.splits)
    next
      case False
      then show ?thesis by (simp add: update_eq grown_def update_conv')
    qed
    with snoc show ?case by (auto simp: after_snoc)
  qed
  have "find_cell (after_samples ps) (sample_target p) (sample_from p) = None
      \<longleftrightarrow> pair_samples (sample_target p) (sample_from p) ps = []"
    by (auto simp: after_find_cell split: list.splits)
  then show ?thesis using known [of "sample_target p"]
    by (auto simp: written_in_place_def find_cell_def split: option.splits)
qed

lemma kept_store_wf:
  assumes "wf_cells s" shows "wf_cells (fst s, snd (updateTableCellDataMap p s))"
proof (cases "written_in_place p s")
  case True
  then show ?thesis using update_wf [OF assms, of p] by (simp add: update_eq)
next
  case False
  then show ?thesis using assms new_object_distinct [OF assms, of p]
    by (auto simp: update_eq grown_def wf_cells_def less_SucI)
qed

lemma kept_find_cell:
  assumes "wf_cells s"
  shows "find_cell (fst s, snd (updateTableCellDataMap p s)) t f =
     (if written_in_place p s \<and> t = sample_target p \<and> f = sample_from p
      then Some (cell_of_sample p []) else find_cell s t f)"
proof (cases "written_in_place p s")
  case True
  then have "find_cell s (sample_target p) (sample_from p) = None"
    by (auto simp: written_in_place_def find_cell_def split: option.splits)
  then show ?thesis
    using update_find_cell [OF assms, of p t f] True by (simp add: update_eq)
next
  case False
  then show ?thesis using wf_fresh [OF assms, of t]
    by (cases "map_of (fst s) t") (auto simp: update_eq grown_def find_cell_def)
qed

text \<open>Applying the updater to a state leaves that state as it was, and applying it a second time
  gives the same cells, except for the first sample of a source for a target that already has
  samples of another source: that sample is written into the previous state, and a second
  application records it twice.\<close>

theorem update_applied_twice:
  fixes ps p
  defines "s \<equiv> after_samples ps" and "t \<equiv> sample_target p" and "f \<equiv> sample_from p"
  defines "s1 \<equiv> updateTableCellDataMap p s"
  shows "ld_historySamples (getLatestDataFromMap s1 t f) = p # rev (pair_samples t f ps)
    \<and> ld_historySamples (getLatestDataFromMap (updateTableCellDataMap p (fst s, snd s1)) t f)
      = (if pair_samples t f ps = [] \<and> (\<exists>q\<in>set ps. sample_target q = t)
         then [p, p] else p # rev (pair_samples t f ps))"
proof -
  note wf = after_wf [of ps, folded s_def]
  have h: "(case find_cell s t f of None \<Rightarrow> [] | Some c \<Rightarrow> cell_samples c) = rev (pair_samples t f ps)"
    by (auto simp: s_def after_find_cell cell_of_sample_def split: list.splits)
  have w: "written_in_place p s \<longleftrightarrow> pair_samples t f ps = [] \<and> (\<exists>q\<in>set ps. sample_target q = t)"
    by (simp add: s_def t_def f_def written_in_place_after)
  have "find_cell s1 t f = Some (cell_of_sample p (rev (pair_samples t f ps)))"
    using update_find_cell [OF wf, of p t f] h by (simp add: s1_def t_def f_def)
  moreover have "find_cell (updateTableCellDataMap p (fst s, snd s1)) t f
      = Some (cell_of_sample p (if written_in_place p s then [p] else rev (pair_samples t f ps)))"
    using update_find_cell [OF kept_store_wf [OF wf, of p], of p t f] kept_find_cell [OF wf, of p t f] h
    by (auto simp: s1_def t_def f_def cell_of_sample_def)
  ultimately show ?thesis by (simp add: getLatestDataFromMap_def cell_of_sample_def w)
qed

section \<open>The markers of the hops\<close>

definition placed :: "PingSample \<Rightarrow> bool" where
  "placed p \<longleftrightarrow> peerExactLocation p \<noteq> None \<and> latencyMs p \<noteq> None"

definition sample_marker :: "rat \<Rightarrow> PingSample \<Rightarrow> Marker" where
  "sample_marker ratio p = last (updateMarkers ratio p [])"

lemma updateMarkers_eq:
  "updateMarkers ratio p ms =
     (if placed p then filter (\<lambda>m. mk_index m \<noteq> Some (marker_index p)) ms @ [sample_marker ratio p] else ms)"
proof -
  have "filter (\<lambda>m. mk_index m \<noteq> Some k) ms = ms" if "\<not> list_ex (\<lambda>m. mk_index m = Some k) ms" for k
    using that by (simp add: list_ex_iff filter_id_conv)
  then show ?thesis
    by (auto simp: updateMarkers_def placed_def sample_marker_def Let_def split: option.splits)
qed

lemma sample_marker_fields:
  "placed p \<Longrightarrow> mk_index (sample_marker ratio p) = Some (marker_index p)"
  "placed p \<Longrightarrow> mk_fill (sample_marker ratio p) = Some (getLatencyColor (latencyMs p))"
  by (auto simp: sample_marker_def updateMarkers_def placed_def Let_def)

lemma markers_by_index:
  "filter (\<lambda>m. mk_index m = Some k) (foldl (\<lambda>ms p. updateMarkers ratio p ms) [] hs) =
     (case rev (filter (\<lambda>p. placed p \<and> marker_index p = k) hs) of [] \<Rightarrow> [] | p # _ \<Rightarrow> [sample_marker ratio p])"
proof (induction hs rule: rev_induct)
  case (snoc p hs)
  show ?case
  proof (cases "placed p")
    case False
    then show ?thesis using snoc by (simp add: updateMarkers_eq)
  next
    case True
    let ?ms = "foldl (\<lambda>ms p. updateMarkers ratio p ms) [] hs"
    have "filter (\<lambda>m. mk_index m = Some k) (filter (\<lambda>m. mk_index m \<noteq> Some (marker_index p)) ?ms)
        = (if k = marker_index p then [] else filter (\<lambda>m. mk_index m = Some k) ?ms)"
      by (auto simp: filter_empty_conv intro!: filter_cong)
    with True snoc show ?thesis by (auto simp: updateMarkers_eq sample_marker_fields)
  qed
qed simp

text \<open>The marker of a hop on the map (an address answering at a TTL) is unique, and its colour is
  that of the \<^emph>\<open>first\<close> sample received from it: the history is listed newest first and each
  later element of the list replaces the marker, so newer round trip times never show.\<close>

theorem hop_marker_shows_first_sample:
  "map mk_fill (filter (\<lambda>m. mk_index m = Some k) (hop_markers ratio (after_samples ps) t [f])) =
     (case filter (\<lambda>p. placed p \<and> marker_index p = k) (pair_samples t f ps) of
        [] \<Rightarrow> []
      | p # _ \<Rightarrow> [Some (getLatencyColor (latencyMs p))])"
proof -
  have "ld_historySamples (getLatestDataFromMap (after_samples ps) t f) = rev (pair_samples t f ps)"
    by (auto simp: getLatestDataFromMap_def after_find_cell cell_of_sample_def split: list.splits)
  then have m: "filter (\<lambda>m. mk_index m = Some k) (hop_markers ratio (after_samples ps) t [f]) =
      (case filter (\<lambda>p. placed p \<and> marker_index p = k) (pair_samples t f ps) of [] \<Rightarrow> [] | p # _ \<Rightarrow> [sample_marker ratio p])"
    by (simp add: hop_markers_def markers_by_index rev_filter)
  show ?thesis
  proof (cases "filter (\<lambda>p. placed p \<and> marker_index p = k) (pair_samples t f ps)")
    case Nil
    then show ?thesis by (simp add: m)
  next
    case (Cons p r)
    then have "p \<in> set (filter (\<lambda>p. placed p \<and> marker_index p = k) (pair_samples t f ps))" by simp
    then have "placed p" by simp
    then show ?thesis by (simp add: m Cons sample_marker_fields)
  qed
qed

section \<open>At most one stream, none when paused\<close>

definition open_at :: "ping_display \<Rightarrow> nat \<Rightarrow> bool" where
  "open_at d i \<longleftrightarrow> i < length (pd_streams d) \<and> reader_open (pd_streams d ! i)"

definition ping_inv :: "ping_display \<Rightarrow> bool" where
  "ping_inv d \<longleftrightarrow>
     (\<forall>i. open_at d i \<longrightarrow> pd_readerRef d = Some i)
     \<and> (pd_timer d \<longrightarrow> pd_running d \<and> pd_readerRef d = None)
     \<and> (\<not> pd_running d \<longrightarrow> pd_readerRef d = None)"

lemma open_at_update:
  "open_at (d\<lparr>pd_streams := (pd_streams d)[i := st]\<rparr>) j \<longleftrightarrow>
     (if j = i then i < length (pd_streams d) \<and> reader_open st else open_at d j)"
  by (auto simp: open_at_def)

lemma open_at_fields [simp]:
  "open_at (d\<lparr>pd_running := b\<rparr>) i = open_at d i" "open_at (d\<lparr>pd_timer := b\<rparr>) i = open_at d i"
  "open_at (d\<lparr>pd_readerRef := r\<rparr>) i = open_at d i" "open_at (d\<lparr>pd_cells := c\<rparr>) i = open_at d i"
  by (simp_all add: open_at_def)

lemma cancel_fields [simp]:
  "pd_running (cancelStream d) = pd_running d" "pd_timer (cancelStream d) = pd_timer d"
  "pd_readerRef (cancelStream d) = None"
  by (simp_all add: cancelStream_def split: option.splits)

lemma cancel_closes:
  assumes "ping_inv d" shows "\<not> open_at (cancelStream d) i"
proof (cases "pd_readerRef d")
  case None
  then show ?thesis using assms by (simp add: cancelStream_def ping_inv_def)
next
  case (Some k)
  have "cancelStream d = (d\<lparr>pd_readerRef := None\<rparr>)
      \<lparr>pd_streams := (pd_streams (d\<lparr>pd_readerRef := None\<rparr>))[k := (pd_streams d ! k)\<lparr>reader_open := False\<rparr>]\<rparr>"
    by (simp add: cancelStream_def Some)
  then have "open_at (cancelStream d) i \<longleftrightarrow> i \<noteq> k \<and> open_at d i"
    by (simp only: open_at_update) simp
  then show ?thesis using assms Some by (auto simp: ping_inv_def)
qed

definition quiet :: "ping_display \<Rightarrow> bool" where
  "quiet d \<longleftrightarrow> (\<forall>i. \<not> open_at d i) \<and> pd_readerRef d = None \<and> \<not> pd_timer d"

lemma cleanup_quiet: "ping_inv d \<Longrightarrow> quiet (effect_cleanup d)"
  using cancel_closes [of "d\<lparr>pd_timer := False\<rparr>"] by (simp add: effect_cleanup_def quiet_def ping_inv_def)

lemma quiet_inv: "quiet d \<Longrightarrow> ping_inv d" "quiet d \<Longrightarrow> ping_inv (run_effect (d\<lparr>pd_running := b\<rparr>))"
  by (simp_all add: quiet_def ping_inv_def run_effect_def)

lemma cleanup_running: "effect_cleanup (d\<lparr>pd_running := b\<rparr>) = (effect_cleanup d)\<lparr>pd_running := b\<rparr>"
  by (simp add: effect_cleanup_def cancelStream_def split: option.splits)

lemma cancel_inv: "ping_inv d \<Longrightarrow> ping_inv (cancelStream d)"
  using cancel_closes by (simp add: ping_inv_def)

lemma ping_step_inv: "ping_step d mv d' \<Longrightarrow> ping_inv d \<Longrightarrow> ping_inv d'"
proof (induction rule: ping_step.induct)
  case (timer d)
  then have "\<not> open_at d i" for i by (auto simp: ping_inv_def)
  then have "open_at (launchStream d) i \<Longrightarrow> i = length (pd_streams d)" for i
    by (simp add: open_at_def launchStream_def nth_append split: if_splits)
  then show ?case using timer by (simp add: ping_inv_def launchStream_def)
next
  case (toggle d)
  then show ?case
    by (simp add: toggle_running_def cleanup_running cleanup_quiet cancel_inv quiet_inv)
next
  case (unmount d)
  then show ?case by (simp add: cleanup_quiet quiet_inv)
next
  case (resolve i d smp)
  then show ?case by (simp add: ping_inv_def open_at_update) (simp add: open_at_def)
next
  case (stream_end i d)
  then show ?case by (simp add: ping_inv_def open_at_update)
next
  case (callback i d smp)
  then show ?case
    using open_at_update [of "d\<lparr>pd_cells := updateTableCellDataMap smp (pd_cells d)\<rparr>" i]
    by (simp add: ping_inv_def open_at_def) 
qed

lemma ping_init_inv: "ping_inv ping_init"
  by (simp add: ping_inv_def ping_init_def run_effect_def open_at_def)

lemma ping_steps_inv: "ping_steps d mvs d' \<Longrightarrow> ping_inv d \<Longrightarrow> ping_inv d'"
  by (induction rule: ping_steps.induct) (auto dest: ping_step_inv)

definition pending :: "ping_display \<Rightarrow> nat" where
  "pending d = length (filter (\<lambda>st. in_flight st \<noteq> None) (pd_streams d))"

definition callbacks :: "ping_move list \<Rightarrow> nat" where
  "callbacks mvs = length (filter (\<lambda>mv. case mv of P_callback i \<Rightarrow> True | _ \<Rightarrow> False) mvs)"

lemma filter_update_drop:
  "i < length xs \<Longrightarrow> P (xs ! i) \<Longrightarrow> \<not> P y \<Longrightarrow> Suc (length (filter P (xs[i := y]))) = length (filter P xs)"
proof (induction xs arbitrary: i)
  case (Cons x xs)
  then show ?case by (cases i) auto
qed simp

lemma filter_update_keep:
  "i < length xs \<Longrightarrow> P (xs ! i) = P y \<Longrightarrow> length (filter P (xs[i := y])) = length (filter P xs)"
proof (induction xs arbitrary: i)
  case (Cons x xs)
  then show ?case by (cases i) auto
qed simp

text \<open>One step of a paused display: it stays paused, starts nothing, and each callback uses up a value
  that was already in flight.\<close>

lemma paused_step:
  assumes "ping_step d mv d'" and "ping_inv d" and "\<not> pd_running d" and "mv \<noteq> P_toggle"
  shows "\<not> pd_running d' \<and> pending d' + callbacks [mv] = pending d
    \<and> (callbacks [mv] = 0 \<longrightarrow> pd_cells d' = pd_cells d)"
  using assms
proof (induction rule: ping_step.induct)
  case (unmount d)
  then have "pd_readerRef d = None" by (simp add: ping_inv_def)
  with unmount show ?case by (simp add: effect_cleanup_def cancelStream_def pending_def callbacks_def)
next
  case (callback i d smp)
  then show ?case
    using filter_update_drop [of i "pd_streams d" "\<lambda>st. in_flight st \<noteq> None" "(pd_streams d ! i)\<lparr>in_flight := None\<rparr>"]
    by (simp add: pending_def callbacks_def)
next
  case (timer d)
  then show ?case by (simp add: ping_inv_def)
next
  case (resolve i d smp)
  then have "open_at d i" by (simp add: open_at_def)
  then show ?case using resolve by (force simp: ping_inv_def)
next
  case (stream_end i d)
  then have "open_at d i" by (simp add: open_at_def)
  then show ?case using stream_end by (force simp: ping_inv_def)
qed simp_all

text \<open>C14. Under any interleaving of the timer, the pause button, unmounting, reads and callbacks, at
  most one reader is ever open, and it is the one the pause button will cancel. While the display
  is paused no reader is open and no start is pending, and until it is resumed the table only
  receives the samples that had already been read when it was paused, each once.\<close>

theorem paused_display_is_quiet:
  assumes "ping_steps ping_init mvs d"
  shows "(\<forall>i j. i < length (pd_streams d) \<and> j < length (pd_streams d)
            \<and> reader_open (pd_streams d ! i) \<and> reader_open (pd_streams d ! j) \<longrightarrow> i = j \<and> pd_readerRef d = Some i)
    \<and> (\<not> pd_running d \<longrightarrow> \<not> pd_timer d \<and> list_all (\<lambda>st. \<not> reader_open st) (pd_streams d))
    \<and> (\<not> pd_running d \<and> ping_steps d later d' \<and> P_toggle \<notin> set later
         \<longrightarrow> \<not> pd_running d' \<and> pending d' + callbacks later = pending d)"
proof -
  have inv: "ping_inv d" using assms ping_steps_inv ping_init_inv by blast
  have "\<not> pd_running d' \<and> pending d' + callbacks later = pending d"
    if "ping_steps d later d'" "\<not> pd_running d" "P_toggle \<notin> set later"
    using that inv
  proof (induction rule: ping_steps.induct)
    case (step d mvs d1 mv d2)
    then have i: "ping_inv d1" using ping_steps_inv by blast
    have "callbacks (mvs @ [mv]) = callbacks mvs + callbacks [mv]" by (simp add: callbacks_def)
    with step paused_step [OF step.hyps(2) i] show ?case by auto
  qed (simp add: callbacks_def)
  moreover have open_ref: "\<And>i. open_at d i \<Longrightarrow> pd_readerRef d = Some i"
    using inv by (simp add: ping_inv_def)
  moreover have "i = j \<and> pd_readerRef d = Some i" if "open_at d i" "open_at d j" for i j
    using open_ref that by (metis option.inject)
  moreover have "\<not> pd_timer d \<and> list_all (\<lambda>st. \<not> reader_open st) (pd_streams d)" if "\<not> pd_running d"
  proof -
    have "pd_readerRef d = None" "\<not> pd_timer d" using inv that by (auto simp: ping_inv_def)
    then show ?thesis using open_ref by (auto simp: list_all_length open_at_def)
  qed
  ultimately show ?thesis using open_at_def by blast
qed

definition sample_reading :: ping_display where
  "sample_reading = (launchStream ping_init)
     \<lparr>pd_streams := [\<lparr>reader_open = True, in_flight = Some (bare_sample False ''lax'' ''example.org'' 64 1)\<rparr>]\<rparr>"

definition sample_paused :: ping_display where
  "sample_paused = toggle_running sample_reading"

lemma sample_run: "ping_steps ping_init [P_timer, P_resolve 0 (bare_sample False ''lax'' ''example.org'' 64 1), P_toggle] sample_paused"
proof -
  have s: "pd_streams (launchStream ping_init) = [\<lparr>reader_open = True, in_flight = None\<rparr>]"
    by (simp add: launchStream_def ping_init_def run_effect_def)
  have 1: "ping_steps ping_init [P_timer] (launchStream ping_init)"
    using ping_steps.step [OF ping_steps.refl ping_step.timer, of ping_init] by (simp add: ping_init_def run_effect_def)
  have 2: "ping_step (launchStream ping_init) (P_resolve 0 (bare_sample False ''lax'' ''example.org'' 64 1)) sample_reading"
    using ping_step.resolve [of 0 "launchStream ping_init"] by (simp add: s sample_reading_def)
  show ?thesis
    using ping_steps.step [OF ping_steps.step [OF 1 2] ping_step.toggle] by (simp add: sample_paused_def)
qed

lemma paused_display_is_quiet_witness:
  "\<exists>d'. ping_steps sample_paused [P_callback 0] d' \<and> \<not> pd_running d' \<and> pending d' + 1 = pending sample_paused
     \<and> list_all (\<lambda>st. \<not> reader_open st) (pd_streams sample_paused)"
proof -
  have r: "\<not> pd_running sample_paused"
    "pd_streams sample_paused = [\<lparr>reader_open = False, in_flight = Some (bare_sample False ''lax'' ''example.org'' 64 1)\<rparr>]"
    by (simp_all add: sample_paused_def sample_reading_def toggle_running_def run_effect_def effect_cleanup_def
        cancelStream_def launchStream_def ping_init_def)
  then obtain d' where d: "ping_steps sample_paused [P_callback 0] d'"
    using ping_steps.step [OF ping_steps.refl ping_step.callback, of 0 sample_paused] by auto
  show ?thesis
    using paused_display_is_quiet [OF sample_run, of "[P_callback 0]" d'] r(1) d by (auto simp: callbacks_def)
qed

end
