(* ===== verification/Stream_Consumer.thy ===== *)
theory Stream_Consumer
  imports Line_Stream
begin

text \<open>
  The life of a fetched NDJSON stream inside a React effect, the shape shared by
  \<open>processMRTStream\<close> (\<^verbatim>\<open>web/apis/mrtProviders.ts\<close>) and \<open>processIPQueryStream\<close>
  (\<^verbatim>\<open>web/apis/ip-query.ts\<close>): the promise of the body settles, items are read until the end or a read
  error, and an \<open>AbortController\<close> may fire at any moment. What an item, the end and a failure do
  to the component's state differs per consumer; the locale states what they must guarantee.
\<close>

datatype phase = Opening | Reading | Finished

record 'm consumer =
  c_phase :: phase
  c_aborted :: bool
  c_state :: 'm

text \<open>The moves of the environment. \<open>No_body\<close> is a response without a body: \<open>pipeThrough\<close> of \<open>null\<close> throws
  a \<open>TypeError\<close>, whose message is the engine's. \<open>Open_failed\<close> carries the error's name and message;
  \<open>Read_failed\<close> is a rejected read.\<close>

datatype 'v stream_move =
    Opened | No_body string | Open_failed string string | Item 'v | End_of_stream | Read_failed | Abort

fun consumer_step ::
  "('v \<Rightarrow> 'm \<Rightarrow> 'm) \<Rightarrow> ('m \<Rightarrow> 'm) \<Rightarrow> (string \<Rightarrow> 'm \<Rightarrow> 'm) \<Rightarrow> 'm consumer \<Rightarrow> 'v stream_move \<Rightarrow> 'm consumer"
where
  "consumer_step item fin fail c Opened =
     (if c_phase c \<noteq> Opening then c
      else if c_aborted c then c\<lparr>c_phase := Finished\<rparr>
      else c\<lparr>c_phase := Reading\<rparr>)"
| "consumer_step item fin fail c (No_body msg) =
     (if c_phase c \<noteq> Opening then c
      else if c_aborted c then c\<lparr>c_phase := Finished\<rparr>
      else c\<lparr>c_phase := Finished, c_state := fail msg (c_state c)\<rparr>)"
| "consumer_step item fin fail c (Open_failed name msg) =
     (if c_phase c \<noteq> Opening then c
      else if name = ''AbortError'' \<or> c_aborted c then c\<lparr>c_phase := Finished\<rparr>
      else c\<lparr>c_phase := Finished, c_state := fail msg (c_state c)\<rparr>)"
| "consumer_step item fin fail c (Item v) =
     (if c_phase c \<noteq> Reading then c
      else if c_aborted c then c\<lparr>c_phase := Finished\<rparr>
      else c\<lparr>c_state := item v (c_state c)\<rparr>)"
| "consumer_step item fin fail c End_of_stream =
     (if c_phase c \<noteq> Reading then c
      else if c_aborted c then c\<lparr>c_phase := Finished\<rparr>
      else c\<lparr>c_phase := Finished, c_state := fin (c_state c)\<rparr>)"
| "consumer_step item fin fail c Read_failed =
     (if c_phase c \<noteq> Reading then c
      else if c_aborted c then c\<lparr>c_phase := Finished\<rparr>
      else c\<lparr>c_phase := Finished, c_state := fin (c_state c)\<rparr>)"
| "consumer_step item fin fail c Abort = c\<lparr>c_aborted := True\<rparr>"

definition consumer_start :: "'m \<Rightarrow> 'm consumer" where
  "consumer_start m = \<lparr>c_phase = Opening, c_aborted = False, c_state = m\<rparr>"

definition consume ::
  "('v \<Rightarrow> 'm \<Rightarrow> 'm) \<Rightarrow> ('m \<Rightarrow> 'm) \<Rightarrow> (string \<Rightarrow> 'm \<Rightarrow> 'm) \<Rightarrow> 'm \<Rightarrow> 'v stream_move list \<Rightarrow> 'm consumer" where
  "consume item fin fail m ms = foldl (consumer_step item fin fail) (consumer_start m) ms"

lemma consume_snoc: "consume item fin fail m (ms @ [x]) = consumer_step item fin fail (consume item fin fail m ms) x"
  by (simp add: consume_def)

lemma consume_append:
  "consume item fin fail m (ms @ ns) = foldl (consumer_step item fin fail) (consume item fin fail m ms) ns"
  by (simp add: consume_def)

lemma consumer_step_stays:
  assumes "c_aborted c \<or> c_phase c = Finished"
  shows "c_state (consumer_step item fin fail c x) = c_state c
    \<and> (c_aborted (consumer_step item fin fail c x) \<or> c_phase (consumer_step item fin fail c x) = Finished)"
  using assms by (cases x) auto

text \<open>An aborted or finished consumer never touches the state again.\<close>

lemma consumer_frozen:
  assumes "c_aborted c \<or> c_phase c = Finished"
  shows "c_state (foldl (consumer_step item fin fail) c ms) = c_state c"
  using assms
proof (induction ms arbitrary: c)
  case (Cons x ms)
  from consumer_step_stays [OF Cons.prems, of item fin fail x] Cons.IH show ?case by auto
qed simp

lemma consume_abort: "c_state (consume item fin fail m (ms @ Abort # ns)) = c_state (consume item fin fail m ms)"
proof -
  let ?c = "consume item fin fail m ms"
  have "c_state (foldl (consumer_step item fin fail) (consumer_step item fin fail ?c Abort) ns)
      = c_state (consumer_step item fin fail ?c Abort)"
    by (rule consumer_frozen) simp
  then show ?thesis by (simp add: consume_append)
qed

lemma consume_items:
  "foldl (consumer_step item fin fail) \<lparr>c_phase = Reading, c_aborted = False, c_state = m\<rparr> (map Item vs)
   = \<lparr>c_phase = Reading, c_aborted = False, c_state = fold item vs m\<rparr>"
  by (induction vs arbitrary: m) simp_all

lemma consume_complete:
  "c_state (consume item fin fail m (Opened # map Item vs @ [End_of_stream])) = fin (fold item vs m)"
  by (simp add: consume_def consumer_start_def consume_items)

text \<open>The moves of a body that arrives in the text chunks \<open>cs\<close>: what its pipe of
  \<open>LineTokenizer\<close> and \<open>JSONLineDecoder\<close> delivers, then the end.\<close>

definition body_moves :: "(string \<Rightarrow> 'v option) \<Rightarrow> string list \<Rightarrow> 'v stream_move list" where
  "body_moves parse cs =
     Opened # (case ndjson_pipe parse cs of Inl e \<Rightarrow> [Read_failed] | Inr vs \<Rightarrow> map Item vs @ [End_of_stream])"

section \<open>The contract\<close>

text \<open>\<open>running\<close> is the flag the user interface shows as activity; \<open>okay\<close> an invariant of the
  component's state. A consumer has to clear the flag at the end and on a failure.\<close>

locale stream_consumer =
  fixes item :: "'v \<Rightarrow> 'm \<Rightarrow> 'm"
    and fin :: "'m \<Rightarrow> 'm"
    and fail :: "string \<Rightarrow> 'm \<Rightarrow> 'm"
    and okay :: "'m \<Rightarrow> bool"
    and running :: "'m \<Rightarrow> bool"
  assumes item_okay: "okay m \<Longrightarrow> okay (item v m)"
    and fin_okay: "okay m \<Longrightarrow> okay (fin m)"
    and fail_okay: "okay m \<Longrightarrow> okay (fail e m)"
    and fin_idle: "okay m \<Longrightarrow> \<not> running (fin m)"
    and fail_idle: "okay m \<Longrightarrow> \<not> running (fail e m)"
begin

lemma consume_okay: "okay m \<Longrightarrow> okay (c_state (consume item fin fail m ms))"
proof (induction ms rule: rev_induct)
  case (snoc x ms)
  then show ?case
    by (cases x) (simp_all add: consume_snoc item_okay fin_okay fail_okay)
qed (simp add: consume_def consumer_start_def)

lemma idle_when_finished:
  assumes "okay m" and "c_phase (consume item fin fail m ms) = Finished"
    and "\<not> c_aborted (consume item fin fail m ms)"
    and "\<forall>msg. Open_failed ''AbortError'' msg \<notin> set ms"
  shows "\<not> running (c_state (consume item fin fail m ms))"
  using assms(2-4)
proof (induction ms rule: rev_induct)
  case (snoc x ms)
  note ok = consume_okay [OF assms(1), of ms]
  show ?case
  proof (cases "c_phase (consume item fin fail m ms) = Finished")
    case True
    with snoc show ?thesis
      by (cases x) (auto simp: consume_snoc)
  next
    case False
    with snoc.prems ok show ?thesis
      by (cases x) (auto simp: consume_snoc fin_idle fail_idle split: if_splits)
  qed
qed (simp add: consume_def consumer_start_def)

end

end
