(* ===== verification/Mrt_Providers.thy ===== *)
theory Mrt_Providers
  imports Api_Types Url_Params Stream_Consumer Ping_Events
begin

text \<open>
  \<^verbatim>\<open>web/apis/mrtProviders.ts\<close>: the route-information client. It holds the filters of the mocked
  lister, the request builders of the database lister, the consumer of the paginated NDJSON stream
  and the hook \<open>useMRTEntriesReadByProvider\<close> with its \<open>loadMore\<close>. The \<^verbatim>\<open>ipaddr.js\<close> functions,
  \<open>JSON.stringify\<close> and the JSON files of the mocked lister are parameters.
\<close>

section \<open>Data\<close>

definition getMRTEntryServiceAPIPrefix :: "string option \<Rightarrow> string option \<Rightarrow> string" where
  "getMRTEntryServiceAPIPrefix route_env env = str_or route_env (getApiEndpoint env @ ''/proxy/mrt'')"

datatype ProviderStatus = Provisioning | Ready

record MRTEntriesProvider =
  mp_Name :: string
  mp_Status :: ProviderStatus
  mp_LastModified :: string

record 't MRTEntriesServerResponse =
  sr_data :: "'t option"
  sr_error :: "string option"

definition providers_url :: "string \<Rightarrow> string" where
  "providers_url apiPrefix = apiPrefix @ ''/providers''"

definition mocked_providers :: "MRTEntriesProvider list MRTEntriesServerResponse" where
  "mocked_providers =
     \<lparr>sr_data = Some
        [\<lparr>mp_Name = ''rir-ripencc'', mp_Status = Ready, mp_LastModified = ''2025-06-20T12:00:00Z''\<rparr>,
         \<lparr>mp_Name = ''rir-arin'', mp_Status = Ready, mp_LastModified = ''2025-06-19T08:30:00Z''\<rparr>,
         \<lparr>mp_Name = ''rir-afrinic'', mp_Status = Provisioning, mp_LastModified = ''2025-06-18T15:45:00Z''\<rparr>,
         \<lparr>mp_Name = ''rir-lacnic'', mp_Status = Ready, mp_LastModified = ''2025-06-17T22:10:00Z''\<rparr>,
         \<lparr>mp_Name = ''rir-apnic'', mp_Status = Provisioning, mp_LastModified = ''2025-06-16T06:00:00Z''\<rparr>],
      sr_error = None\<rparr>"

record MRTEntry =
  Prefix :: string
  Peer :: "string option"
  PeerAS :: "int option"
  ASPath :: "int list option"
  Communities :: "int list option"
  LargeCommunities :: "(int \<times> int \<times> int) list option"
  ExtendedCommunities :: "int list option"
  NextHop :: "string option"

record MRTEntryDataEvent =
  de_Data :: "MRTEntry option"
  de_Err :: "string option"

record ResumableResponseStreamEvent =
  se_data :: MRTEntryDataEvent
  se_cursor_id :: "string option"

section \<open>The filters of the mocked lister\<close>

record 'ip ipaddr_lib =
  lib_isValid :: "string \<Rightarrow> bool"
  lib_parse :: "string \<Rightarrow> 'ip"
  lib_isValidCIDR :: "string \<Rightarrow> bool"
  lib_parseCIDR :: "string \<Rightarrow> 'ip \<times> int"
  lib_kind :: "'ip \<Rightarrow> string"
  lib_match :: "'ip \<Rightarrow> 'ip \<times> int \<Rightarrow> bool"

definition entry_prefix :: "MRTEntryDataEvent \<Rightarrow> string" where
  "entry_prefix e = (case de_Data e of None \<Rightarrow> [] | Some d \<Rightarrow> Prefix d)"

definition filterByIPorCIDR ::
  "'ip ipaddr_lib \<Rightarrow> MRTEntryDataEvent list \<Rightarrow> string \<Rightarrow> MRTEntryDataEvent list result" where
  "filterByIPorCIDR lib allData tgt =
     (if lib_isValid lib tgt then
        (let targetIP = lib_parse lib tgt in
         Inr (filter (\<lambda>e. lib_isValidCIDR lib (entry_prefix e) \<and>
                (let entryRange = lib_parseCIDR lib (entry_prefix e)
                 in lib_kind lib (fst entryRange) = lib_kind lib targetIP \<and> lib_match lib targetIP entryRange))
              allData))
      else if lib_isValidCIDR lib tgt then
        (let (targetAddr, targetBits) = lib_parseCIDR lib tgt in
         Inr (filter (\<lambda>e. lib_isValidCIDR lib (entry_prefix e) \<and>
                (let entryRange = lib_parseCIDR lib (entry_prefix e)
                 in snd entryRange \<le> targetBits \<and> lib_kind lib (fst entryRange) = lib_kind lib targetAddr
                    \<and> lib_match lib targetAddr entryRange))
              allData))
      else Inl (JSError (''invalid IP or CIDR: '' @ tgt)))"

definition comma_parts :: "string \<Rightarrow> string list" where
  "comma_parts s = map js_trim (js_split CHR '','' s)"

fun parse_asns :: "string \<Rightarrow> string list \<Rightarrow> int list \<Rightarrow> int list result" where
  "parse_asns tgt [] asnSet = Inr asnSet"
| "parse_asns tgt (part # parts) asnSet =
     (if part = [] then Inl (JSError (''invalid ASN: '' @ tgt))
      else case js_parseInt part of
        None \<Rightarrow> Inl (JSError (''invalid ASN: '' @ tgt))
      | Some asn \<Rightarrow> parse_asns tgt parts (List.insert asn asnSet))"

definition parseTargetASSet :: "string \<Rightarrow> int list result" where
  "parseTargetASSet tgt =
     (case parse_asns tgt (comma_parts tgt) [] of
        Inl e \<Rightarrow> Inl e
      | Inr s \<Rightarrow> if s = [] then Inl (JSError (''invalid ASN: '' @ tgt)) else Inr s)"

definition entry_path :: "MRTEntryDataEvent \<Rightarrow> int list option" where
  "entry_path e = Option.bind (de_Data e) ASPath"

definition filterByASPath :: "MRTEntryDataEvent list \<Rightarrow> string \<Rightarrow> MRTEntryDataEvent list result" where
  "filterByASPath allData tgt =
     (case parseTargetASSet tgt of
        Inl e \<Rightarrow> Inl e
      | Inr targetASNs \<Rightarrow>
          Inr (filter (\<lambda>e. case entry_path e of
                 None \<Rightarrow> False | Some path \<Rightarrow> list_all (\<lambda>asn. asn \<in> set path) targetASNs) allData))"

definition filterByNeighborASN :: "MRTEntryDataEvent list \<Rightarrow> string \<Rightarrow> MRTEntryDataEvent list result" where
  "filterByNeighborASN allData tgt =
     (case js_parseInt tgt of
        None \<Rightarrow> Inl (JSError (''invalid ASN: '' @ tgt))
      | Some asn \<Rightarrow>
          Inr (filter (\<lambda>e. Option.bind (de_Data e) PeerAS = Some asn
                 \<or> first_of (entry_path e) = Some asn) allData))"

definition filterByOriginASN :: "MRTEntryDataEvent list \<Rightarrow> string \<Rightarrow> MRTEntryDataEvent list result" where
  "filterByOriginASN allData tgt =
     (case js_parseInt tgt of
        None \<Rightarrow> Inl (JSError (''invalid ASN: '' @ tgt))
      | Some asn \<Rightarrow> Inr (filter (\<lambda>e. last_of (entry_path e) = Some asn) allData))"

definition filterData ::
  "'ip ipaddr_lib \<Rightarrow> MRTEntryDataEvent list \<Rightarrow> RouteQueryType \<Rightarrow> string \<Rightarrow> MRTEntryDataEvent list result" where
  "filterData lib allData queryType tgt =
     (case queryType of
        IP_Or_CIDR \<Rightarrow> filterByIPorCIDR lib allData tgt
      | AS_Path_Segs \<Rightarrow> filterByASPath allData tgt
      | Neighbor_ASN \<Rightarrow> filterByNeighborASN allData tgt
      | Origin_ASN \<Rightarrow> filterByOriginASN allData tgt)"

text \<open>The five data files are the parameter \<open>files\<close>, keyed by the provider's name.\<close>

definition dataForProvider :: "(string \<Rightarrow> MRTEntryDataEvent list) \<Rightarrow> string \<Rightarrow> MRTEntryDataEvent list" where
  "dataForProvider files provider =
     (if provider \<in> {''rir-afrinic'', ''rir-apnic'', ''rir-arin'', ''rir-lacnic'', ''rir-ripencc''}
      then files provider else [])"

text \<open>The mocked stream: one chunk with the JSON texts joined by line feeds.\<close>

definition mocked_getMRTEntries ::
  "'ip ipaddr_lib \<Rightarrow> (string \<Rightarrow> MRTEntryDataEvent list) \<Rightarrow> (ResumableResponseStreamEvent \<Rightarrow> string) \<Rightarrow>
   string \<Rightarrow> RouteQueryType \<Rightarrow> string \<Rightarrow> string list result" where
  "mocked_getMRTEntries lib files stringify provider queryType tgt =
     map_sum id (\<lambda>data. [js_join [newline] (map (\<lambda>e. stringify \<lparr>se_data = e, se_cursor_id = None\<rparr>) data)])
       (filterData lib (dataForProvider files provider) queryType tgt)"

definition mocked_getMRTEntriesByCursor :: "string \<Rightarrow> string \<Rightarrow> string list" where
  "mocked_getMRTEntriesByCursor provider cursorId = []"

section \<open>The requests of the database lister\<close>

definition DEFAULT_PAGE_SIZE :: nat where "DEFAULT_PAGE_SIZE = 50"

definition entries_url :: "string \<Rightarrow> string \<Rightarrow> params \<Rightarrow> string" where
  "entries_url apiPrefix provider searchParams =
     apiPrefix @ ''/mrt_entries/query/'' @ provider @ ''?''
     @ params_toString (params_set ''page_size'' (nat_to_string DEFAULT_PAGE_SIZE) searchParams)"

definition valid_asn :: "string \<Rightarrow> bool" where
  "valid_asn s = (case js_parseInt s of None \<Rightarrow> False | Some asn \<Rightarrow> \<not> asn < 0)"

definition query_params :: "'ip ipaddr_lib \<Rightarrow> RouteQueryType \<Rightarrow> string \<Rightarrow> params result" where
  "query_params lib queryType tgt =
     (case queryType of
        Origin_ASN \<Rightarrow>
          if \<not> valid_asn tgt then Inl (JSError (''invalid origin ASN: '' @ tgt))
          else Inr (params_set ''originAsn'' tgt [])
      | Neighbor_ASN \<Rightarrow>
          if \<not> valid_asn tgt then Inl (JSError (''invalid neighbor ASN: '' @ tgt))
          else Inr (params_set ''neighborAsn'' tgt [])
      | AS_Path_Segs \<Rightarrow>
          (let parts = comma_parts tgt in
           if list_ex (\<lambda>part. part = [] \<or> \<not> valid_asn part) parts
           then Inl (JSError (''invalid AS path segment: '' @ tgt))
           else Inr (params_set ''asSegments'' (js_join '','' parts) []))
      | IP_Or_CIDR \<Rightarrow>
          if lib_isValidCIDR lib tgt then Inr (params_set ''cidr'' tgt [])
          else if lib_isValid lib tgt then Inr (params_set ''ip'' tgt [])
          else Inl (JSError (''invalid IP or CIDR: '' @ tgt)))"

definition db_getMRTEntries :: "'ip ipaddr_lib \<Rightarrow> string \<Rightarrow> string \<Rightarrow> RouteQueryType \<Rightarrow> string \<Rightarrow> string result" where
  "db_getMRTEntries lib apiPrefix provider queryType tgt =
     map_sum id (entries_url apiPrefix provider) (query_params lib queryType tgt)"

text \<open>\<open>encodeURIComponent\<close>: only letters, digits and \<^verbatim>\<open>- _ . ! ~ * ' ( )\<close> stay as they are.\<close>

definition uri_plain :: "nat \<Rightarrow> bool" where
  "uri_plain b \<longleftrightarrow> b \<in> {33, 39, 40, 41, 42, 45, 46, 95, 126} \<or> (48 \<le> b \<and> b \<le> 57)
     \<or> (65 \<le> b \<and> b \<le> 90) \<or> (97 \<le> b \<and> b \<le> 122)"

definition uri_byte :: "nat \<Rightarrow> string" where
  "uri_byte b = (if uri_plain b then [char_of b] else [CHR ''%'', hex_digit (b div 16), hex_digit (b mod 16)])"

definition encodeURIComponent :: "string \<Rightarrow> string" where
  "encodeURIComponent s = concat (map uri_byte (concat (map utf8 s)))"

definition cursor_query :: "string \<Rightarrow> string" where
  "cursor_query cursorId =
     ''cursor_id='' @ encodeURIComponent cursorId @ ''&page_size='' @ nat_to_string DEFAULT_PAGE_SIZE"

definition db_getMRTEntriesByCursor :: "string \<Rightarrow> string \<Rightarrow> string \<Rightarrow> string" where
  "db_getMRTEntriesByCursor apiPrefix provider cursorId =
     apiPrefix @ ''/mrt_entries/query/'' @ provider @ ''?'' @ cursor_query cursorId"

section \<open>The stream consumer\<close>

record ProviderMRTEntriesState =
  entries :: "MRTEntry list"
  isRunning :: bool
  st_error :: "string option"
  cursorId :: "string option"
  pageEvents :: "ResumableResponseStreamEvent list"

type_synonym ProviderEntriesMap = "(string \<times> ProviderMRTEntriesState) list"

definition initial_provider_state :: ProviderMRTEntriesState where
  "initial_provider_state =
     \<lparr>entries = [], isRunning = True, st_error = None, cursorId = None, pageEvents = []\<rparr>"

text \<open>Every update of the map has the form \<open>cur = prev[provider]; if (!cur) return prev; ...\<close>.\<close>

definition update_provider ::
  "string \<Rightarrow> (ProviderMRTEntriesState \<Rightarrow> ProviderMRTEntriesState) \<Rightarrow> ProviderEntriesMap \<Rightarrow> ProviderEntriesMap" where
  "update_provider provider f prev =
     (case map_of prev provider of None \<Rightarrow> prev | Some cur \<Rightarrow> AList.update provider (f cur) prev)"

definition add_event :: "ResumableResponseStreamEvent \<Rightarrow> ProviderMRTEntriesState \<Rightarrow> ProviderMRTEntriesState" where
  "add_event event cur =
     cur\<lparr>entries := (case de_Data (se_data event) of None \<Rightarrow> entries cur | Some d \<Rightarrow> entries cur @ [d]),
         st_error := (case de_Err (se_data event) of None \<Rightarrow> st_error cur | Some e \<Rightarrow> Some e),
         cursorId := (case se_cursor_id event of None \<Rightarrow> cursorId cur | Some c \<Rightarrow> Some c),
         pageEvents := pageEvents cur @ [event]\<rparr>"

definition mrt_item :: "string \<Rightarrow> ResumableResponseStreamEvent \<Rightarrow> ProviderEntriesMap \<Rightarrow> ProviderEntriesMap" where
  "mrt_item provider event = update_provider provider (add_event event)"

definition mrt_finish :: "string \<Rightarrow> ProviderEntriesMap \<Rightarrow> ProviderEntriesMap" where
  "mrt_finish provider = update_provider provider (\<lambda>cur. cur\<lparr>isRunning := False\<rparr>)"

definition mrt_fail :: "string \<Rightarrow> string \<Rightarrow> ProviderEntriesMap \<Rightarrow> ProviderEntriesMap" where
  "mrt_fail provider msg = update_provider provider (\<lambda>cur. cur\<lparr>st_error := Some msg, isRunning := False\<rparr>)"

definition processMRTStream ::
  "string \<Rightarrow> ProviderEntriesMap \<Rightarrow> ResumableResponseStreamEvent stream_move list \<Rightarrow> ProviderEntriesMap consumer" where
  "processMRTStream provider =
     consume (mrt_item provider) (mrt_finish provider) (mrt_fail provider)"

section \<open>The hook\<close>

text \<open>A running \<open>processMRTStream\<close> is a slot: its provider, its phase, whether its controller was
  aborted, and whether it belongs to the main query or to \<open>loadMore\<close>. \<open>hk_more\<close> is
  \<open>loadMoreAcRef\<close>: the slot of the latest \<open>loadMore\<close>.\<close>

record stream_slot =
  sl_provider :: string
  sl_phase :: phase
  sl_aborted :: bool
  sl_main :: bool

record mrt_hook =
  hk_map :: ProviderEntriesMap
  hk_slots :: "stream_slot list"
  hk_more :: "nat option"

datatype hook_move =
    H_query "string option" "string list"
  | H_loadMore string
  | H_stream nat "ResumableResponseStreamEvent stream_move"

definition new_slot :: "bool \<Rightarrow> string \<Rightarrow> stream_slot" where
  "new_slot main p = \<lparr>sl_provider = p, sl_phase = Opening, sl_aborted = False, sl_main = main\<rparr>"

definition abort_slot :: "nat option \<Rightarrow> stream_slot list \<Rightarrow> stream_slot list" where
  "abort_slot ac slots =
     (case ac of None \<Rightarrow> slots | Some i \<Rightarrow> slots[i := (slots ! i)\<lparr>sl_aborted := True\<rparr>])"

definition abort_main :: "stream_slot list \<Rightarrow> stream_slot list" where
  "abort_main slots = map (\<lambda>s. if sl_main s then s\<lparr>sl_aborted := True\<rparr> else s) slots"

text \<open>The clean-up of the previous effect aborts its controller, then the effect body runs.\<close>

definition hook_query :: "string option \<Rightarrow> string list \<Rightarrow> mrt_hook \<Rightarrow> mrt_hook" where
  "hook_query tgt providers h =
     (let h = h\<lparr>hk_slots := abort_main (hk_slots h)\<rparr> in
      if \<not> truthy_str tgt \<or> js_trim (the tgt) = [] then h\<lparr>hk_map := []\<rparr>
      else if providers = [] then h
      else \<lparr>hk_map = fold (\<lambda>p m. AList.update p initial_provider_state m) providers [],
            hk_slots = abort_slot (hk_more h) (hk_slots h) @ map (new_slot True) providers,
            hk_more = None\<rparr>)"

definition can_load_more :: "mrt_hook \<Rightarrow> string \<Rightarrow> bool" where
  "can_load_more h provider =
     (case map_of (hk_map h) provider of
        None \<Rightarrow> False
      | Some s \<Rightarrow> truthy_str (cursorId s) \<and> \<not> isRunning s)"

definition loadMore :: "string \<Rightarrow> mrt_hook \<Rightarrow> mrt_hook" where
  "loadMore provider h =
     (if \<not> can_load_more h provider then h
      else \<lparr>hk_map = AList.update provider initial_provider_state (hk_map h),
            hk_slots = abort_slot (hk_more h) (hk_slots h) @ [new_slot False provider],
            hk_more = Some (length (hk_slots h))\<rparr>)"

definition stream_event :: "nat \<Rightarrow> ResumableResponseStreamEvent stream_move \<Rightarrow> mrt_hook \<Rightarrow> mrt_hook" where
  "stream_event i mv h =
     (if i < length (hk_slots h) then
        (let s = hk_slots h ! i; p = sl_provider s;
             c = consumer_step (mrt_item p) (mrt_finish p) (mrt_fail p)
                   \<lparr>c_phase = sl_phase s, c_aborted = sl_aborted s, c_state = hk_map h\<rparr> mv
         in h\<lparr>hk_map := c_state c,
              hk_slots := (hk_slots h)[i := s\<lparr>sl_phase := c_phase c, sl_aborted := c_aborted c\<rparr>]\<rparr>)
      else h)"

fun hook_step :: "mrt_hook \<Rightarrow> hook_move \<Rightarrow> mrt_hook" where
  "hook_step h (H_query tgt providers) = hook_query tgt providers h"
| "hook_step h (H_loadMore provider) = loadMore provider h"
| "hook_step h (H_stream i mv) = stream_event i mv h"

definition hook_run :: "mrt_hook \<Rightarrow> hook_move list \<Rightarrow> mrt_hook" where
  "hook_run h ms = foldl hook_step h ms"

section \<open>Properties of the filters and the requests\<close>

lemma parse_asns_spec:
  "parse_asns tgt parts acc =
     (if \<exists>p\<in>set parts. p = [] \<or> js_parseInt p = None then Inl (JSError (''invalid ASN: '' @ tgt))
      else Inr (fold (\<lambda>p. List.insert (the (js_parseInt p))) parts acc))"
proof (induction parts arbitrary: acc)
  case (Cons p ps)
  then show ?case by (cases "js_parseInt p") auto
qed simp

lemma set_fold_insert: "set (fold (\<lambda>p. List.insert (f p)) ps acc) = set acc \<union> f ` set ps"
  by (induction ps arbitrary: acc) auto

lemma comma_parts_not_Nil [simp]: "comma_parts s \<noteq> []"
  by (simp add: comma_parts_def)

definition asn_ok :: "string \<Rightarrow> bool" where
  "asn_ok p \<longleftrightarrow> p \<noteq> [] \<and> js_parseInt p \<noteq> None"

text \<open>C32. The AS-path filter rejects a target exactly if one of its comma-separated, trimmed parts is
  empty or does not start with a number; otherwise it keeps, in order, exactly the entries whose
  AS path contains every requested number, in whatever order or position.\<close>

theorem as_path_filter:
  "filterByASPath allData tgt =
     (if \<forall>p\<in>set (comma_parts tgt). asn_ok p
      then Inr (filter (\<lambda>e. \<exists>path. entry_path e = Some path
             \<and> (\<lambda>p. the (js_parseInt p)) ` set (comma_parts tgt) \<subseteq> set path) allData)
      else Inl (JSError (''invalid ASN: '' @ tgt)))"
proof (cases "\<forall>p\<in>set (comma_parts tgt). asn_ok p")
  case True
  define asns where "asns = fold (\<lambda>p. List.insert (the (js_parseInt p))) (comma_parts tgt) []"
  have set: "set asns = (\<lambda>p. the (js_parseInt p)) ` set (comma_parts tgt)"
    by (simp add: asns_def set_fold_insert)
  then have "asns \<noteq> []" by (metis comma_parts_not_Nil image_is_empty set_empty)
  then have "parseTargetASSet tgt = Inr asns"
    using True unfolding asn_ok_def by (auto simp: parseTargetASSet_def parse_asns_spec asns_def)
  moreover have "filter (\<lambda>e. case entry_path e of None \<Rightarrow> False
        | Some path \<Rightarrow> list_all (\<lambda>asn. asn \<in> set path) asns) allData
      = filter (\<lambda>e. \<exists>path. entry_path e = Some path \<and> set asns \<subseteq> set path) allData"
    by (rule filter_cong) (auto simp: list_all_iff split: option.splits)
  ultimately show ?thesis using True by (simp add: filterByASPath_def set)
next
  case False
  then show ?thesis
    unfolding asn_ok_def by (auto simp: filterByASPath_def parseTargetASSet_def parse_asns_spec)
qed

lemma uri_byte_decode: "b < 256 \<Longrightarrow> decode_bytes (uri_byte b @ s) = b # decode_bytes s"
  by (auto simp: uri_byte_def char_of_eq_iff uri_plain_def)

lemma uri_bytes_decode: "\<forall>b\<in>set bs. b < 256 \<Longrightarrow> decode_bytes (concat (map uri_byte bs)) = bs"
  by (induction bs) (simp_all add: uri_byte_decode)

lemma form_decode_uri [simp]: "form_decode (encodeURIComponent s) = s"
proof -
  have "\<forall>b\<in>set (concat (map utf8 s)). b < 256" using utf8_less by auto
  then show ?thesis by (simp add: form_decode_def encodeURIComponent_def uri_bytes_decode decode_utf8_concat)
qed

lemma uri_byte_no_sep:
  assumes "b < 256" shows "CHR ''='' \<notin> set (uri_byte b)" "CHR ''&'' \<notin> set (uri_byte b)"
proof -
  have h: "hex_digit n \<noteq> CHR ''=''" "hex_digit n \<noteq> CHR ''&''" if "n < 16" for n
    using that by (auto simp: hex_digit_def char_of_eq_iff)
  have "b div 16 < 16" "b mod 16 < 16" using assms by auto
  then show "CHR ''='' \<notin> set (uri_byte b)" "CHR ''&'' \<notin> set (uri_byte b)"
    using h [of "b div 16"] h [of "b mod 16"] assms
    by (auto simp: uri_byte_def eq_char_of_iff uri_plain_def)
qed

lemma encodeURI_no_sep: "CHR ''='' \<notin> set (encodeURIComponent s)" "CHR ''&'' \<notin> set (encodeURIComponent s)"
  using utf8_less uri_byte_no_sep by (fastforce simp: encodeURIComponent_def)+

lemma page_size_text: "nat_to_string DEFAULT_PAGE_SIZE = ''50''"
  unfolding DEFAULT_PAGE_SIZE_def by code_simp

text \<open>C31. Every request of the database lister reaches the server as meant. A query that is accepted
  carries exactly one criterion, the one of its type, with the user's text (an AS path with its
  parts trimmed), and the page size; the cursor of a follow-up request is read back unchanged
  whatever characters it contains. An ASN that is not a non-negative number is rejected.\<close>

theorem mrt_requests_roundtrip:
  "(\<forall>ps. query_params lib qt tgt = Inr ps \<longrightarrow>
      (\<exists>q. db_getMRTEntries lib pre provider qt tgt
             = Inr (pre @ ''/mrt_entries/query/'' @ provider @ ''?'' @ q)
         \<and> parse_query q = ps @ [(''page_size'', ''50'')])
      \<and> ps = (case qt of
           Origin_ASN \<Rightarrow> [(''originAsn'', tgt)]
         | Neighbor_ASN \<Rightarrow> [(''neighborAsn'', tgt)]
         | AS_Path_Segs \<Rightarrow> [(''asSegments'', js_join '','' (comma_parts tgt))]
         | IP_Or_CIDR \<Rightarrow> [(if lib_isValidCIDR lib tgt then ''cidr'' else ''ip'', tgt)]))
   \<and> (qt \<in> {Origin_ASN, Neighbor_ASN} \<and> \<not> valid_asn tgt \<longrightarrow>
        (\<exists>e. db_getMRTEntries lib pre provider qt tgt = Inl e))
   \<and> parse_query (cursor_query cursor) = [(''cursor_id'', cursor), (''page_size'', ''50'')]"
proof (intro conjI allI impI)
  fix ps assume ps: "query_params lib qt tgt = Inr ps"
  then show l: "ps = (case qt of
           Origin_ASN \<Rightarrow> [(''originAsn'', tgt)]
         | Neighbor_ASN \<Rightarrow> [(''neighborAsn'', tgt)]
         | AS_Path_Segs \<Rightarrow> [(''asSegments'', js_join '','' (comma_parts tgt))]
         | IP_Or_CIDR \<Rightarrow> [(if lib_isValidCIDR lib tgt then ''cidr'' else ''ip'', tgt)])"
    by (cases qt) (auto simp: query_params_def Let_def split: if_splits)
  have "params_set ''page_size'' (nat_to_string DEFAULT_PAGE_SIZE) ps = ps @ [(''page_size'', ''50'')]"
    unfolding page_size_text by (rule params_set_fresh) (simp add: l split: RouteQueryType.split)
  then show "\<exists>q. db_getMRTEntries lib pre provider qt tgt
             = Inr (pre @ ''/mrt_entries/query/'' @ provider @ ''?'' @ q)
         \<and> parse_query q = ps @ [(''page_size'', ''50'')]"
    using ps by (auto simp: db_getMRTEntries_def entries_url_def parse_params_toString)
next
  assume "qt \<in> {Origin_ASN, Neighbor_ASN} \<and> \<not> valid_asn tgt"
  then show "\<exists>e. db_getMRTEntries lib pre provider qt tgt = Inl e"
    by (auto simp: db_getMRTEntries_def query_params_def)
next
  have key: "form_decode ''cursor_id'' = ''cursor_id''" by code_simp
  have "split_pair (''cursor_id='' @ encodeURIComponent cursor) = (''cursor_id'', cursor)"
    by (simp add: split_pair_def Let_def key)
  moreover have "split_pair ''page_size=50'' = (''page_size'', ''50'')" by code_simp
  moreover have "js_split CHR ''&'' (cursor_query cursor) = [''cursor_id='' @ encodeURIComponent cursor, ''page_size=50'']"
    using js_split_append_no_sep [of "CHR ''&''" "''cursor_id='' @ encodeURIComponent cursor" "''page_size=50''"]
      encodeURI_no_sep(2) [of cursor]
    by (simp add: cursor_query_def page_size_text)
  ultimately show "parse_query (cursor_query cursor) = [(''cursor_id'', cursor), (''page_size'', ''50'')]"
    by (simp add: parse_query_def cursor_query_def)
qed

section \<open>Properties of the consumer\<close>

lemma map_of_update_provider:
  "map_of (update_provider p f m) q = (if q = p then map_option f (map_of m p) else map_of m q)"
  by (cases "map_of m p") (auto simp: update_provider_def)

lemmas mrt_ops = mrt_item_def mrt_finish_def mrt_fail_def map_of_update_provider

definition provider_running :: "string \<Rightarrow> ProviderEntriesMap \<Rightarrow> bool" where
  "provider_running p m = (case map_of m p of None \<Rightarrow> False | Some s \<Rightarrow> isRunning s)"

interpretation mrt: stream_consumer "mrt_item p" "mrt_finish p" "mrt_fail p" "\<lambda>_. True" "provider_running p" for p
  by unfold_locales (auto simp: provider_running_def mrt_ops split: option.splits)

definition event_entries :: "ResumableResponseStreamEvent list \<Rightarrow> MRTEntry list" where
  "event_entries evs = List.map_filter (\<lambda>e. de_Data (se_data e)) evs"

definition latest :: "'a list \<Rightarrow> 'a option \<Rightarrow> 'a option" where
  "latest xs d = (if xs = [] then d else Some (last xs))"

definition after_events :: "ResumableResponseStreamEvent list \<Rightarrow> ProviderMRTEntriesState \<Rightarrow> ProviderMRTEntriesState" where
  "after_events evs st =
     st\<lparr>entries := entries st @ event_entries evs,
        st_error := latest (List.map_filter (\<lambda>e. de_Err (se_data e)) evs) (st_error st),
        cursorId := latest (List.map_filter se_cursor_id evs) (cursorId st),
        pageEvents := pageEvents st @ evs\<rparr>"

lemma add_events: "fold add_event evs st = after_events evs st"
proof (induction evs arbitrary: st)
  case Nil
  then show ?case by (simp add: after_events_def latest_def event_entries_def map_filter_simps)
next
  case (Cons e evs)
  then show ?case
    by (auto simp: add_event_def after_events_def latest_def event_entries_def map_filter_simps
        split: option.splits)
qed

lemma map_of_fold_item: "map_of (fold (mrt_item p) evs m) q =
  (if q = p then map_option (fold add_event evs) (map_of m p) else map_of m q)"
  by (induction evs arbitrary: m) (auto simp: mrt_ops option.map_comp comp_def option.map_id)

text \<open>C17. A complete page leaves the provider with all entries of the page appended in order, the
  last error and the last cursor the page carried (the earlier ones if it carried none), every
  event kept, and the activity flag cleared; no other provider is touched.\<close>

theorem mrt_page_complete:
  assumes "map_of m p = Some st"
  shows "map_of (c_state (processMRTStream p m (Opened # map Item evs @ [End_of_stream]))) q =
    (if q = p then Some ((after_events evs st)\<lparr>isRunning := False\<rparr>) else map_of m q)"
  using assms by (simp add: processMRTStream_def consume_complete mrt_ops map_of_fold_item add_events)

lemma mrt_page_complete_witness:
  "let ev = \<lparr>se_data = \<lparr>de_Data = None, de_Err = Some ''e''\<rparr>, se_cursor_id = Some ''c''\<rparr>
   in map_of (c_state (processMRTStream ''p'' [(''p'', initial_provider_state)]
        (Opened # map Item [ev] @ [End_of_stream]))) ''p'' =
      Some \<lparr>entries = [], isRunning = False, st_error = Some ''e'', cursorId = Some ''c'', pageEvents = [ev]\<rparr>"
  using mrt_page_complete [of "[(''p'', initial_provider_state)]" "''p''" initial_provider_state
      "[\<lparr>se_data = \<lparr>de_Data = None, de_Err = Some ''e''\<rparr>, se_cursor_id = Some ''c''\<rparr>]" "''p''"]
  by (simp add: Let_def after_events_def initial_provider_state_def event_entries_def latest_def map_filter_simps)

text \<open>C18. Whatever the stream does, once it has ended or failed without being aborted the provider
  is no longer shown as running; and from the moment it is aborted on, it changes nothing.\<close>

theorem mrt_stream_settles:
  "(c_phase (processMRTStream p m ms) = Finished \<and> \<not> c_aborted (processMRTStream p m ms)
      \<and> (\<forall>msg. Open_failed ''AbortError'' msg \<notin> set ms)
    \<longrightarrow> \<not> provider_running p (c_state (processMRTStream p m ms)))
   \<and> c_state (processMRTStream p m (ms @ Abort # ns)) = c_state (processMRTStream p m ms)"
  unfolding processMRTStream_def consume_abort
  using mrt.idle_when_finished [where m = m and ms = ms and p = p] by simp

lemma mrt_stream_settles_witness:
  "\<not> provider_running ''p'' (c_state (processMRTStream ''p'' [(''p'', initial_provider_state)] [Open_failed ''Error'' ''down'']))"
  using mrt_stream_settles [of "''p''" "[(''p'', initial_provider_state)]" "[Open_failed ''Error'' ''down'']" "[]"]
  by (simp add: processMRTStream_def consume_def consumer_start_def)

section \<open>Properties of the hook\<close>

subsection \<open>Interleaving\<close>

text \<open>A step of one provider's stream reads and writes that provider's entry only.\<close>

definition slot_step ::
  "stream_slot \<Rightarrow> ProviderEntriesMap \<Rightarrow> ResumableResponseStreamEvent stream_move \<Rightarrow> ProviderEntriesMap consumer" where
  "slot_step s m mv =
     consumer_step (mrt_item (sl_provider s)) (mrt_finish (sl_provider s)) (mrt_fail (sl_provider s))
       \<lparr>c_phase = sl_phase s, c_aborted = sl_aborted s, c_state = m\<rparr> mv"

lemma step_frame: "q \<noteq> sl_provider s \<Longrightarrow> map_of (c_state (slot_step s m mv)) q = map_of m q"
  by (cases mv) (simp_all add: slot_step_def mrt_ops)

lemma step_local:
  assumes "map_of m (sl_provider s) = map_of m' (sl_provider s)"
  shows "c_phase (slot_step s m mv) = c_phase (slot_step s m' mv)"
    and "c_aborted (slot_step s m mv) = c_aborted (slot_step s m' mv)"
    and "map_of (c_state (slot_step s m mv)) (sl_provider s) = map_of (c_state (slot_step s m' mv)) (sl_provider s)"
  using assms by (cases mv; simp add: slot_step_def mrt_ops)+

definition after_step :: "stream_slot \<Rightarrow> ProviderEntriesMap \<Rightarrow> ResumableResponseStreamEvent stream_move \<Rightarrow> stream_slot" where
  "after_step s m mv = s\<lparr>sl_phase := c_phase (slot_step s m mv), sl_aborted := c_aborted (slot_step s m mv)\<rparr>"

lemma sl_provider_after_step [simp]: "sl_provider (after_step s m mv) = sl_provider s"
  by (simp add: after_step_def)

lemma stream_event_eq:
  "i < length (hk_slots h) \<Longrightarrow> stream_event i mv h =
     h\<lparr>hk_map := c_state (slot_step (hk_slots h ! i) (hk_map h) mv),
       hk_slots := (hk_slots h)[i := after_step (hk_slots h ! i) (hk_map h) mv]\<rparr>"
  by (simp add: stream_event_def Let_def after_step_def slot_step_def)

lemma stream_event_map: "i < length (hk_slots h) \<Longrightarrow>
    hk_map (stream_event i mv h) = c_state (slot_step (hk_slots h ! i) (hk_map h) mv)"
  and stream_event_slots_eq: "i < length (hk_slots h) \<Longrightarrow>
    hk_slots (stream_event i mv h) = (hk_slots h)[i := after_step (hk_slots h ! i) (hk_map h) mv]"
  and stream_event_more: "hk_more (stream_event i mv h) = hk_more h"
  by (simp_all add: stream_event_eq) (simp add: stream_event_def Let_def)

lemma stream_event_out: "\<not> i < length (hk_slots h) \<Longrightarrow> stream_event i mv h = h"
  by (simp add: stream_event_def)

definition same_slot :: "string \<Rightarrow> stream_slot \<Rightarrow> stream_slot \<Rightarrow> bool" where
  "same_slot p s s' \<longleftrightarrow> sl_provider s = sl_provider s' \<and> (sl_provider s = p \<longrightarrow> s = s')"

definition agree_on :: "string \<Rightarrow> mrt_hook \<Rightarrow> mrt_hook \<Rightarrow> bool" where
  "agree_on p h h' \<longleftrightarrow> map_of (hk_map h) p = map_of (hk_map h') p
     \<and> list_all2 (same_slot p) (hk_slots h) (hk_slots h')"

definition slot_of :: "mrt_hook \<Rightarrow> nat \<Rightarrow> string" where
  "slot_of h i = sl_provider (hk_slots h ! i)"

lemma stream_event_slots:
  "length (hk_slots (stream_event i mv h)) = length (hk_slots h)"
  "j < length (hk_slots h) \<Longrightarrow> slot_of (stream_event i mv h) j = slot_of h j"
  by (cases "i < length (hk_slots h)";
      simp add: stream_event_eq stream_event_out slot_of_def nth_list_update)+

lemma agree_own_step:
  assumes a: "agree_on p h h'" shows "agree_on p (stream_event i mv h) (stream_event i mv h')"
proof (cases "i < length (hk_slots h)")
  case True
  let ?s = "hk_slots h ! i" and ?s' = "hk_slots h' ! i"
  have all: "list_all2 (same_slot p) (hk_slots h) (hk_slots h')"
    and m: "map_of (hk_map h) p = map_of (hk_map h') p" using a by (simp_all add: agree_on_def)
  have i': "i < length (hk_slots h')" using True list_all2_lengthD [OF all] by simp
  have same: "same_slot p ?s ?s'" by (rule list_all2_nthD [OF all True])
  have m': "map_of (c_state (slot_step ?s (hk_map h) mv)) p = map_of (c_state (slot_step ?s' (hk_map h') mv)) p"
    using step_frame [of p ?s "hk_map h" mv] step_frame [of p ?s' "hk_map h'" mv]
      step_local(3) [of "hk_map h" ?s "hk_map h'" mv] m same unfolding same_slot_def by metis
  have "same_slot p (after_step ?s (hk_map h) mv) (after_step ?s' (hk_map h') mv)"
  proof (cases "sl_provider ?s = p")
    case p: True
    then have e: "?s' = ?s" using same by (simp add: same_slot_def)
    have "map_of (hk_map h) (sl_provider ?s) = map_of (hk_map h') (sl_provider ?s)" unfolding p by (rule m)
    note l = step_local(1,2) [OF this, of mv]
    show ?thesis unfolding e same_slot_def after_step_def l by simp
  next
    case False
    with same show ?thesis unfolding same_slot_def sl_provider_after_step by simp
  qed
  from list_all2_update_cong [OF all this] m' show ?thesis
    unfolding agree_on_def stream_event_map [OF True] stream_event_map [OF i']
      stream_event_slots_eq [OF True] stream_event_slots_eq [OF i'] by (intro conjI)
next
  case False
  have "length (hk_slots h) = length (hk_slots h')"
    using a unfolding agree_on_def by (metis list_all2_lengthD)
  with a False show ?thesis by (simp add: stream_event_out)
qed

lemma agree_other_step:
  assumes "agree_on p h h'" "i < length (hk_slots h)" "slot_of h i \<noteq> p"
  shows "agree_on p (stream_event i mv h) h'"
proof -
  let ?s = "hk_slots h ! i" and ?s' = "hk_slots h' ! i"
  have all: "list_all2 (same_slot p) (hk_slots h) (hk_slots h')" using assms by (simp add: agree_on_def)
  have "same_slot p ?s ?s'" by (rule list_all2_nthD [OF all assms(2)])
  then have "same_slot p (after_step ?s (hk_map h) mv) ?s'"
    using assms(3) unfolding same_slot_def slot_of_def sl_provider_after_step by argo
  from list_all2_update_cong [OF all this, of i]
  have "list_all2 (same_slot p) ((hk_slots h)[i := after_step ?s (hk_map h) mv]) (hk_slots h')" by simp
  moreover have "map_of (c_state (slot_step ?s (hk_map h) mv)) p = map_of (hk_map h') p"
    using assms(1,3) step_frame [of p ?s "hk_map h" mv] unfolding agree_on_def slot_of_def by metis
  ultimately show ?thesis
    unfolding agree_on_def stream_event_map [OF assms(2)] stream_event_slots_eq [OF assms(2)] by (intro conjI)
qed

definition own_move :: "mrt_hook \<Rightarrow> string \<Rightarrow> hook_move \<Rightarrow> bool" where
  "own_move h p mv = (case mv of H_stream i _ \<Rightarrow> i < length (hk_slots h) \<longrightarrow> slot_of h i = p | _ \<Rightarrow> True)"

text \<open>C2. The streams of different providers share one state object but do not interfere: under any
  interleaving of their moves, a provider ends with what its own moves alone, in their order,
  would have given it.\<close>

theorem providers_do_not_interfere:
  assumes "\<forall>mv\<in>set ms. \<exists>i x. mv = H_stream i x"
  shows "map_of (hk_map (hook_run h ms)) p = map_of (hk_map (hook_run h (filter (own_move h p) ms))) p"
proof -
  have "agree_on p (foldl hook_step g ms) (foldl hook_step g' (filter (own_move h p) ms))"
    if "agree_on p g g'" "length (hk_slots g) = length (hk_slots h)"
      "\<forall>i<length (hk_slots h). slot_of g i = slot_of h i" for g g'
    using assms that
  proof (induction ms arbitrary: g g')
    case (Cons mv ms)
    then obtain i x where mv: "mv = H_stream i x" by auto
    have slots: "length (hk_slots (stream_event i x g)) = length (hk_slots h)"
      "\<forall>j<length (hk_slots h). slot_of (stream_event i x g) j = slot_of h j"
      using Cons.prems stream_event_slots by auto
    show ?case
    proof (cases "own_move h p mv")
      case True
      with Cons slots agree_own_step [OF Cons.prems(2), of i x] show ?thesis by (simp add: mv)
    next
      case False
      then have "i < length (hk_slots g)" "slot_of g i \<noteq> p"
        using Cons.prems by (auto simp: own_move_def mv)
      with Cons False slots agree_other_step [OF Cons.prems(2), of i x] show ?thesis by (simp add: mv)
    qed
  qed simp
  moreover have "agree_on p h h" by (simp add: agree_on_def list_all2_refl same_slot_def)
  ultimately show ?thesis unfolding hook_run_def agree_on_def by blast
qed

definition two_provider_hook :: mrt_hook where
  "two_provider_hook = hook_query (Some ''65001'') [''A'', ''B''] \<lparr>hk_map = [], hk_slots = [], hk_more = None\<rparr>"

definition cursor_event :: "string \<Rightarrow> ResumableResponseStreamEvent" where
  "cursor_event c = \<lparr>se_data = \<lparr>de_Data = None, de_Err = None\<rparr>, se_cursor_id = Some c\<rparr>"

lemma two_provider_hook_simps:
  "two_provider_hook =
     \<lparr>hk_map = [(''A'', initial_provider_state), (''B'', initial_provider_state)],
      hk_slots = [new_slot True ''A'', new_slot True ''B''], hk_more = None\<rparr>"
  by (simp add: two_provider_hook_def hook_query_def Let_def abort_main_def abort_slot_def js_trim_def is_ws_def)

lemma providers_do_not_interfere_witness:
  "map_of (hk_map (hook_run two_provider_hook
       [H_stream 0 Opened, H_stream 1 (Open_failed ''Error'' ''down''), H_stream 0 End_of_stream])) ''A''
   = map_of (hk_map (hook_run two_provider_hook [H_stream 0 Opened, H_stream 0 End_of_stream])) ''A''"
  using providers_do_not_interfere [of
      "[H_stream 0 Opened, H_stream 1 (Open_failed ''Error'' ''down''), H_stream 0 End_of_stream]"
      two_provider_hook "''A''"]
  by (simp add: own_move_def two_provider_hook_simps slot_of_def new_slot_def)

subsection \<open>Loading more\<close>

definition slot_dead :: "stream_slot \<Rightarrow> bool" where
  "slot_dead s \<longleftrightarrow> sl_aborted s \<or> sl_phase s = Finished"

text \<open>Every stream of the provider is aborted or over, yet its entry says it is running.\<close>

definition stuck :: "string \<Rightarrow> ProviderMRTEntriesState \<Rightarrow> mrt_hook \<Rightarrow> bool" where
  "stuck p st h \<longleftrightarrow> map_of (hk_map h) p = Some st \<and> isRunning st
     \<and> (\<forall>i<length (hk_slots h). slot_of h i = p \<longrightarrow> slot_dead (hk_slots h ! i))
     \<and> (case hk_more h of None \<Rightarrow> True | Some i \<Rightarrow> i < length (hk_slots h))"

lemma slot_step_dead:
  assumes "slot_dead s"
  shows "c_state (slot_step s m mv) = m" and "slot_dead (after_step s m mv)"
  using assms by (cases mv; auto simp: slot_dead_def slot_step_def after_step_def)+

lemma stuck_stream:
  assumes "stuck p st h" shows "stuck p st (stream_event i mv h)"
proof (cases "i < length (hk_slots h)")
  case True
  let ?s = "hk_slots h ! i"
  have m: "map_of (hk_map (stream_event i mv h)) p = Some st"
  proof (cases "slot_of h i = p")
    case p: True
    with assms True have "slot_dead ?s" by (simp add: stuck_def)
    from slot_step_dead(1) [OF this] assms show ?thesis by (simp add: stream_event_map [OF True] stuck_def)
  next
    case False
    with assms show ?thesis
      unfolding stream_event_map [OF True] by (metis step_frame slot_of_def stuck_def)
  qed
  have "slot_dead (hk_slots (stream_event i mv h) ! j)"
    if "j < length (hk_slots h)" "slot_of h j = p" for j
  proof -
    have "slot_dead (hk_slots h ! j)" using assms that by (simp add: stuck_def)
    with slot_step_dead(2) show ?thesis
      using that unfolding stream_event_slots_eq [OF True] nth_list_update [OF True] by auto
  qed
  with m assms stream_event_slots [where i = i and mv = mv and h = h] show ?thesis
    unfolding stuck_def stream_event_more by metis
next
  case False
  with assms show ?thesis by (simp add: stream_event_out)
qed

lemma abort_slot_length [simp]: "length (abort_slot ac slots) = length slots"
  by (simp add: abort_slot_def split: option.split)

lemma abort_slot_nth:
  "j < length slots \<Longrightarrow> abort_slot ac slots ! j =
    (if ac = Some j then (slots ! j)\<lparr>sl_aborted := True\<rparr> else slots ! j)"
  by (auto simp: abort_slot_def nth_list_update split: option.split)

lemma stuck_loadMore:
  assumes "stuck p st h" shows "stuck p st (loadMore q h)"
proof (cases "can_load_more h q")
  case True
  then have "q \<noteq> p" using assms by (auto simp: can_load_more_def stuck_def)
  with True assms show ?thesis
    by (auto simp: stuck_def loadMore_def slot_of_def nth_append abort_slot_nth new_slot_def slot_dead_def
        less_Suc_eq)
next
  case False
  with assms show ?thesis by (simp add: loadMore_def)
qed

text \<open>Loading a further page of one provider while a page of another is still being loaded aborts
  the other's stream, which then never clears its activity flag: provider \<open>a\<close> keeps showing
  as running with its entries as they were, whatever the streams do afterwards and however often
  \<open>loadMore\<close> is pressed (for \<open>a\<close> it is refused, because \<open>a\<close> counts as running). Only a new
  query ends this.\<close>

theorem loadMore_freezes_other_provider:
  assumes "hk_more h = Some i" and "i < length (hk_slots h)" and "slot_of h i = a"
    and "map_of (hk_map h) a = Some st" and "isRunning st"
    and "\<forall>j<length (hk_slots h). j \<noteq> i \<longrightarrow> slot_of h j = a \<longrightarrow> slot_dead (hk_slots h ! j)"
    and "can_load_more h b"
    and "\<forall>mv\<in>set ms. \<forall>tgt ps. mv \<noteq> H_query tgt ps"
  shows "map_of (hk_map (hook_run (loadMore b h) ms)) a = Some st
    \<and> \<not> can_load_more (hook_run (loadMore b h) ms) a"
proof -
  have "b \<noteq> a" using assms(4,5,7) by (auto simp: can_load_more_def)
  then have "stuck a st (loadMore b h)"
    using assms(1-7)
    by (auto simp: stuck_def loadMore_def slot_of_def nth_append abort_slot_nth new_slot_def slot_dead_def less_Suc_eq)
  then have "stuck a st (hook_run (loadMore b h) ms)"
    using assms(8) unfolding hook_run_def
  proof (induction ms arbitrary: h rule: rev_induct)
    case (snoc mv ms)
    then have "stuck a st (foldl hook_step (loadMore b h) ms)" by simp
    with snoc.prems(2) show ?case by (cases mv) (auto simp: stuck_stream stuck_loadMore)
  qed simp
  then show ?thesis by (simp add: stuck_def can_load_more_def)
qed

text \<open>The first page of both providers arrives with a cursor; the second page of \<open>A\<close> is being loaded.\<close>

definition loading_A :: mrt_hook where
  "loading_A = hook_run two_provider_hook
     [H_stream 0 Opened, H_stream 0 (Item (cursor_event ''a1'')), H_stream 0 End_of_stream,
      H_stream 1 Opened, H_stream 1 (Item (cursor_event ''b1'')), H_stream 1 End_of_stream,
      H_loadMore ''A'', H_stream 2 Opened]"

lemma loadMore_freezes_other_provider_witness:
  "map_of (hk_map (hook_run (loadMore ''B'' loading_A)
     [H_stream 2 (Item (cursor_event ''a2'')), H_stream 2 End_of_stream, H_stream 3 Opened, H_loadMore ''A''])) ''A''
   = Some initial_provider_state"
proof -
  have l: "loading_A =
    \<lparr>hk_map = [(''A'', initial_provider_state),
       (''B'', initial_provider_state\<lparr>isRunning := False, cursorId := Some ''b1'', pageEvents := [cursor_event ''b1'']\<rparr>)],
     hk_slots = [(new_slot True ''A'')\<lparr>sl_phase := Finished\<rparr>, (new_slot True ''B'')\<lparr>sl_phase := Finished\<rparr>,
       (new_slot False ''A'')\<lparr>sl_phase := Reading\<rparr>],
     hk_more = Some 2\<rparr>"
    unfolding loading_A_def two_provider_hook_def by code_simp
  have "\<forall>j<length (hk_slots loading_A). j \<noteq> 2 \<longrightarrow> slot_of loading_A j = ''A'' \<longrightarrow> slot_dead (hk_slots loading_A ! j)"
    by (auto simp: l slot_of_def slot_dead_def new_slot_def less_Suc_eq)
  then show ?thesis
    using loadMore_freezes_other_provider [of loading_A 2 "''A''" initial_provider_state "''B''"
        "[H_stream 2 (Item (cursor_event ''a2'')), H_stream 2 End_of_stream, H_stream 3 Opened, H_loadMore ''A'']"]
    by (simp add: l slot_of_def new_slot_def can_load_more_def initial_provider_state_def)
qed

definition sample_mrt_entry :: MRTEntryDataEvent where
  "sample_mrt_entry = \<lparr>de_Data = Some \<lparr>Prefix = ''10.0.0.0/8'', Peer = None, PeerAS = None, ASPath = Some [7, 9, 12],
     Communities = None, LargeCommunities = None, ExtendedCommunities = None, NextHop = None\<rparr>, de_Err = None\<rparr>"
definition sample_lib :: "unit ipaddr_lib" where
  "sample_lib = \<lparr>lib_isValid = (\<lambda>s. False), lib_parse = (\<lambda>s. ()), lib_isValidCIDR = (\<lambda>s. s = ''10.0.0.0/8''),
     lib_parseCIDR = (\<lambda>s. ((), 8)), lib_kind = (\<lambda>u. ''ipv4''), lib_match = (\<lambda>a b. True)\<rparr>"

lemma as_path_filter_witness:
  "filterByASPath [sample_mrt_entry] ''12, 7'' = Inr [sample_mrt_entry] \<and> filterByASPath [sample_mrt_entry] ''x'' = Inl (JSError ''invalid ASN: x'')"
proof -
  have c: "comma_parts ''12, 7'' = [''12'', ''7'']" "comma_parts ''x'' = [''x'']" 
    "js_parseInt ''12'' = Some 12" "js_parseInt ''7'' = Some 7" "js_parseInt ''x'' = None" by code_simp+
  show ?thesis
    using as_path_filter [of "[sample_mrt_entry]" "''12, 7''"] as_path_filter [of "[sample_mrt_entry]" "''x''"]
    by (simp add: c asn_ok_def entry_path_def sample_mrt_entry_def)
qed

lemma mrt_requests_roundtrip_witness:
  "(\<exists>q. db_getMRTEntries sample_lib ''https://api'' ''ris'' IP_Or_CIDR ''10.0.0.0/8''
       = Inr (''https://api'' @ ''/mrt_entries/query/'' @ ''ris'' @ ''?'' @ q)
     \<and> parse_query q = [(''cidr'', ''10.0.0.0/8''), (''page_size'', ''50'')])
   \<and> (\<exists>e. db_getMRTEntries sample_lib ''https://api'' ''ris'' Origin_ASN ''x'' = Inl e)"
proof -
  have p: "query_params sample_lib IP_Or_CIDR ''10.0.0.0/8'' = Inr [(''cidr'', ''10.0.0.0/8'')]" by code_simp
  have v: "\<not> valid_asn ''x''" by code_simp
  show ?thesis
    using mrt_requests_roundtrip [of sample_lib IP_Or_CIDR "''10.0.0.0/8''" "''https://api''" "''ris''" "[]"]
      mrt_requests_roundtrip [of sample_lib Origin_ASN "''x''" "''https://api''" "''ris''" "[]"] p v
    by auto
qed

end
