(* ===== verification/Ip_Query.thy ===== *)
theory Ip_Query
  imports Api_Types Url_Params Stream_Consumer Ping_Events
begin

text \<open>
  \<^verbatim>\<open>web/apis/ip-query.ts\<close>: IP information from several providers. The consumer of the NDJSON
  stream sorts the entries by provider and remembers which providers it has heard of; the hook
  initialises the providers the user selected. \<open>JSON.stringify\<close> is a parameter.
\<close>

section \<open>Data and requests\<close>

definition getIPQueryServiceAPIPrefix :: "string option \<Rightarrow> string option \<Rightarrow> string" where
  "getIPQueryServiceAPIPrefix ip_env env = str_or ip_env (getApiEndpoint env @ ''/ip-query'')"

record IPQueryProvidersResponse =
  pr_data :: "string list option"
  pr_error :: "string option"

record IPQueryResultEntry =
  qe_err :: "string option"
  qe_from :: string
  qe_ip :: string
  qe_result :: "BasicIPInfo option"

definition ipquery_providers_url :: "string \<Rightarrow> string" where
  "ipquery_providers_url apiPrefix = apiPrefix @ ''/providers''"

definition mocked_ipquery_providers :: IPQueryProvidersResponse where
  "mocked_ipquery_providers =
     \<lparr>pr_data = Some [''ipinfo'', ''ip2location'', ''ipregistry'', ''maxmind'', ''dn42''], pr_error = None\<rparr>"

definition ipquery_params :: "string list \<Rightarrow> string list option \<Rightarrow> params" where
  "ipquery_params ips providers =
     (let p = foldl (\<lambda>p ip. params_append ''ip'' ip p) [] ips
      in case providers of
           None \<Rightarrow> p
         | Some ps \<Rightarrow> if ps = [] then p else foldl (\<lambda>p pr. params_append ''provider'' pr p) p ps)"

definition queryIPs_url :: "string \<Rightarrow> string list \<Rightarrow> string list option \<Rightarrow> string" where
  "queryIPs_url apiPrefix ips providers =
     apiPrefix @ ''/query?'' @ params_toString (ipquery_params ips providers)"

definition mocked_info :: "string \<Rightarrow> BasicIPInfo" where
  "mocked_info provider =
     \<lparr>info_ASN = Some ''AS65001'', info_Location = Some ''Mocked City, MC'',
      info_ISP = Some (''Mocked ISP ('' @ provider @ '')''), info_Country = Some ''Mocked Country'',
      info_Region = Some ''Mocked Region'', info_City = Some ''Mocked City'', info_Exact = None,
      info_ISO3166Alpha2 = None\<rparr>"

definition mocked_entries :: "string list \<Rightarrow> string list option \<Rightarrow> IPQueryResultEntry list" where
  "mocked_entries ips providers =
     (let allProviders = nullish providers [''ipinfo'', ''ip2location'', ''ipregistry'', ''maxmind'', ''dn42'']
      in concat (map (\<lambda>ip. map (\<lambda>provider.
           \<lparr>qe_err = None, qe_from = provider, qe_ip = ip, qe_result = Some (mocked_info provider)\<rparr>) allProviders) ips))"

definition mocked_queryIPs ::
  "(IPQueryResultEntry \<Rightarrow> string) \<Rightarrow> string list \<Rightarrow> string list option \<Rightarrow> string list" where
  "mocked_queryIPs stringify ips providers =
     [js_join [newline] (map stringify (mocked_entries ips providers)) @ [newline]]"

section \<open>The stream consumer\<close>

record ProviderIPQueryState =
  qs_results :: "IPQueryResultEntry list"
  qs_isRunning :: bool
  qs_error :: "string option"

definition initial_ipquery_state :: ProviderIPQueryState where
  "initial_ipquery_state = \<lparr>qs_results = [], qs_isRunning = True, qs_error = None\<rparr>"

type_synonym ProviderIPQueryMap = "(string \<times> ProviderIPQueryState) list"

text \<open>The state of a consumer: \<open>runningProviders\<close> and the component's map.\<close>

type_synonym ipquery_state = "string list \<times> ProviderIPQueryMap"

definition add_entry :: "ProviderIPQueryState \<Rightarrow> IPQueryResultEntry \<Rightarrow> ProviderIPQueryState" where
  "add_entry cur entry =
     cur\<lparr>qs_results := qs_results cur @ [entry],
         qs_error := (case qe_err entry of None \<Rightarrow> qs_error cur | Some e \<Rightarrow> Some e),
         qs_isRunning := True\<rparr>"

definition ipquery_item :: "IPQueryResultEntry \<Rightarrow> ipquery_state \<Rightarrow> ipquery_state" where
  "ipquery_item entry st =
     (let provider = qe_from entry
      in (List.insert provider (fst st),
          upsert add_entry initial_ipquery_state provider entry (snd st)))"

text \<open>The loop over \<open>runningProviders\<close>.\<close>

definition for_running ::
  "(ProviderIPQueryState \<Rightarrow> ProviderIPQueryState) \<Rightarrow> string list \<Rightarrow> ProviderIPQueryMap \<Rightarrow> ProviderIPQueryMap" where
  "for_running f providers m =
     fold (\<lambda>p m. case map_of m p of None \<Rightarrow> m | Some cur \<Rightarrow> AList.update p (f cur) m) providers m"

definition ipquery_finish :: "ipquery_state \<Rightarrow> ipquery_state" where
  "ipquery_finish st = (fst st, for_running (\<lambda>cur. cur\<lparr>qs_isRunning := False\<rparr>) (fst st) (snd st))"

definition ipquery_fail :: "string \<Rightarrow> ipquery_state \<Rightarrow> ipquery_state" where
  "ipquery_fail msg st =
     (fst st, for_running (\<lambda>cur. cur\<lparr>qs_error := Some msg, qs_isRunning := False\<rparr>) (fst st) (snd st))"

definition processIPQueryStream ::
  "ProviderIPQueryMap \<Rightarrow> IPQueryResultEntry stream_move list \<Rightarrow> ipquery_state consumer" where
  "processIPQueryStream m = consume ipquery_item ipquery_finish ipquery_fail ([], m)"

text \<open>The effect of \<open>useIPQueryByProvider\<close>: the initial map, and whether a stream is started.\<close>

definition ipquery_init :: "string list \<Rightarrow> string list option \<Rightarrow> ProviderIPQueryMap \<times> bool" where
  "ipquery_init ips providers =
     (if ips = [] then ([], False)
      else (fold (\<lambda>p m. AList.update p initial_ipquery_state m) (nullish providers []) [], True))"

definition useIPQueryByProvider ::
  "string list \<Rightarrow> string list option \<Rightarrow> IPQueryResultEntry stream_move list \<Rightarrow> ProviderIPQueryMap" where
  "useIPQueryByProvider ips providers ms =
     (let (m, start) = ipquery_init ips providers
      in if start then snd (c_state (processIPQueryStream m ms)) else m)"

section \<open>Properties\<close>

lemma map_of_for_running:
  assumes "distinct ps"
  shows "map_of (for_running f ps m) q = (if q \<in> set ps then map_option f (map_of m q) else map_of m q)"
  using assms
proof (induction ps arbitrary: m)
  case (Cons p ps)
  then show ?case
    by (cases "map_of m p") (auto simp: for_running_def)
qed (simp add: for_running_def)

definition ipquery_okay :: "ipquery_state \<Rightarrow> bool" where
  "ipquery_okay st \<longleftrightarrow> distinct (fst st)"

text \<open>The contract's flag: some provider the stream has spoken for is shown as running.\<close>

definition heard_running :: "ipquery_state \<Rightarrow> bool" where
  "heard_running st \<longleftrightarrow> (\<exists>p\<in>set (fst st). \<exists>s. map_of (snd st) p = Some s \<and> qs_isRunning s)"

interpretation ipq: stream_consumer ipquery_item ipquery_finish ipquery_fail ipquery_okay heard_running
  by unfold_locales
     (auto simp: ipquery_okay_def ipquery_item_def ipquery_finish_def ipquery_fail_def heard_running_def
        Let_def map_of_for_running)

definition entries_of :: "string \<Rightarrow> IPQueryResultEntry list \<Rightarrow> IPQueryResultEntry list" where
  "entries_of p es = filter (\<lambda>e. qe_from e = p) es"

lemma entries_of_simps [simp]:
  "entries_of p [] = []" "entries_of p (e # es) = (if qe_from e = p then e # entries_of p es else entries_of p es)"
  by (simp_all add: entries_of_def)

lemma fold_items:
  "map_of (snd (fold ipquery_item es st)) p =
     (if entries_of p es = [] then map_of (snd st) p
      else Some (foldl add_entry (nullish (map_of (snd st) p) initial_ipquery_state) (entries_of p es)))
   \<and> set (fst (fold ipquery_item es st)) = set (fst st) \<union> qe_from ` set es"
  by (induction es arbitrary: st) (auto simp: ipquery_item_def Let_def map_of_upsert)

lemma foldl_add_entry:
  "es \<noteq> [] \<Longrightarrow> qs_results (foldl add_entry s es) = qs_results s @ es \<and> qs_isRunning (foldl add_entry s es)"
proof (induction es rule: rev_induct)
  case (snoc e es)
  then show ?case by (cases es) (auto simp: add_entry_def)
qed simp

lemma ipquery_distinct: "distinct (fst (fold ipquery_item es ([], m)))"
proof -
  have "distinct (fst st) \<Longrightarrow> distinct (fst (fold ipquery_item es st))" for st
    by (induction es arbitrary: st) (auto simp: ipquery_item_def Let_def)
  then show ?thesis by simp
qed

lemma ipquery_complete:
  "map_of (snd (c_state (processIPQueryStream m (Opened # map Item es @ [End_of_stream])))) p =
     (if entries_of p es = [] then map_of m p
      else Some ((foldl add_entry (nullish (map_of m p) initial_ipquery_state) (entries_of p es))
             \<lparr>qs_isRunning := False\<rparr>))"
proof -
  let ?st = "fold ipquery_item es ([], m)"
  have "p \<in> set (fst ?st) \<longleftrightarrow> entries_of p es \<noteq> []"
    using fold_items [of es "([], m)" p] by (auto simp: entries_of_def filter_empty_conv)
  then show ?thesis
    using fold_items [of es "([], m)" p]
    by (simp add: processIPQueryStream_def consume_complete ipquery_finish_def
        map_of_for_running [OF ipquery_distinct])
qed

text \<open>When the stream has ended, every provider that sent something shows exactly its own entries,
  in order of arrival, and no activity.\<close>

theorem ipquery_results:
  assumes "ips \<noteq> []" and "entries_of p es \<noteq> []"
  shows "\<exists>s. map_of (useIPQueryByProvider ips providers (Opened # map Item es @ [End_of_stream])) p = Some s
    \<and> qs_results s = entries_of p es \<and> \<not> qs_isRunning s"
proof -
  obtain m where m: "ipquery_init ips providers = (m, True)"
    and r: "qs_results (nullish (map_of m p) initial_ipquery_state) = []"
    using assms(1) by (auto simp: ipquery_init_def map_of_init initial_ipquery_state_def)
  show ?thesis
    using foldl_add_entry [OF assms(2), of "nullish (map_of m p) initial_ipquery_state"] r assms(2)
    by (simp add: useIPQueryByProvider_def m ipquery_complete)
qed

definition sample_entry :: "string \<Rightarrow> IPQueryResultEntry" where
  "sample_entry p = \<lparr>qe_err = None, qe_from = p, qe_ip = ''1.1.1.1'', qe_result = None\<rparr>"

lemma ipquery_results_witness:
  "\<exists>s. map_of (useIPQueryByProvider [''1.1.1.1''] (Some [''dn42'', ''ipinfo''])
       (Opened # map Item [sample_entry ''ipinfo''] @ [End_of_stream])) ''ipinfo'' = Some s
    \<and> qs_results s = [sample_entry ''ipinfo''] \<and> \<not> qs_isRunning s"
  using ipquery_results [of "[''1.1.1.1'']" "''ipinfo''" "[sample_entry ''ipinfo'']" "Some [''dn42'', ''ipinfo'']"]
  by (simp add: sample_entry_def)

text \<open>A selected provider that sends no entry is shown as running for ever: neither the end of
  the stream nor a failure to open it clears its flag, because only providers already heard of are
  updated; a failure to open the stream is therefore not reported for any provider.\<close>

theorem silent_provider_keeps_running:
  assumes "ips \<noteq> []" and "p \<in> set ps" and "entries_of p es = []"
  shows "map_of (useIPQueryByProvider ips (Some ps) (Opened # map Item es @ [End_of_stream])) p
           = Some initial_ipquery_state
       \<and> map_of (useIPQueryByProvider ips (Some ps) [Open_failed ''TypeError'' msg]) p
           = Some initial_ipquery_state
       \<and> qs_isRunning initial_ipquery_state \<and> qs_error initial_ipquery_state = None"
proof -
  have "processIPQueryStream m [Open_failed ''TypeError'' msg] =
      \<lparr>c_phase = Finished, c_aborted = False, c_state = ([], m)\<rparr>" for m
    by (simp add: processIPQueryStream_def consume_def consumer_start_def ipquery_fail_def for_running_def)
  then show ?thesis
    using assms
    by (simp add: useIPQueryByProvider_def ipquery_init_def ipquery_complete map_of_init)
       (simp add: initial_ipquery_state_def)
qed

lemma silent_provider_keeps_running_witness:
  "map_of (useIPQueryByProvider [''1.1.1.1''] (Some [''dn42'', ''ipinfo''])
     (Opened # map Item [sample_entry ''ipinfo''] @ [End_of_stream])) ''dn42'' = Some initial_ipquery_state"
  using silent_provider_keeps_running [of "[''1.1.1.1'']" "''dn42''" "[''dn42'', ''ipinfo'']"
      "[sample_entry ''ipinfo'']" "[]"]
  by (simp add: sample_entry_def)

lemma foldl_append: "foldl (\<lambda>p x. params_append k x p) ps xs = ps @ map (Pair k) xs"
  by (induction xs arbitrary: ps) (simp_all add: params_append_def)

text \<open>The server reads every address and every selected provider, in order.\<close>

lemma ipquery_request:
  "parse_query (params_toString (ipquery_params ips providers)) =
     map (Pair ''ip'') ips @ map (Pair ''provider'') (nullish providers [])"
  by (cases providers) (auto simp: parse_params_toString ipquery_params_def foldl_append Let_def)

end
