(* ===== verification/Task.thy ===== *)
theory Task
  imports Node_Directory Line_Stream
begin

text \<open>
  Creating a task: the form fields and their handlers, the expansion of the inputs into targets,
  the validation in the confirmation dialog and the list of running tasks
  (\<^verbatim>\<open>web/components/TaskCreatorPanel.tsx\<close>, \<^verbatim>\<open>taskconfirm.tsx\<close>, \<^verbatim>\<open>DNSProbeOptions.tsx\<close>,
  \<^verbatim>\<open>HTTPProbeTransportSelect.tsx\<close>, \<^verbatim>\<open>PingTaskTransportOptions.tsx\<close>, \<^verbatim>\<open>PingTaskSourceSelector.tsx\<close>,
  \<^verbatim>\<open>sourceselector.tsx\<close>, \<^verbatim>\<open>RouteQueryTaskPanel.tsx\<close>, \<^verbatim>\<open>IPQueryTaskPanel.tsx\<close>, \<^verbatim>\<open>web/app/page.tsx\<close>,
  \<^verbatim>\<open>web/apis/random.ts\<close>, \<^verbatim>\<open>web/apis/resolver.ts\<close>). A component is its state, its handlers and what its
  render function decides; the mark-up is left out.
\<close>

section \<open>Form handlers\<close>

definition empty_plan :: DNSProbePlan where
  "empty_plan = \<lparr>plan_transport = None, plan_type = None, plan_domains = None, plan_resolvers = None,
     plan_domainsInput = None, plan_resolversInput = None, plan_serverNameMapInput = None\<rparr>"

definition initialPendingTask :: PendingTask where
  "initialPendingTask =
     \<lparr>sources = [], targets = [], taskId = [], task_type = T_ping, preferV4 = None, preferV6 = None,
      useUDP = None, pmtu = None,
      dnsProbePlan = Some (empty_plan\<lparr>plan_transport := Some DNS_udp, plan_type := Some Q_a,
                             plan_domains := Some [], plan_resolvers := Some []\<rparr>),
      dnsProbeTargets = None, httpProbeTargets = None, targetsInput = None, headersInput = None,
      selectingHttpTransport = None, selectingIPPref = None, addHeaderSW = None,
      routeQueryType = None, routeQueryTgt = None\<rparr>"

definition select_task_type :: "PingTaskType \<Rightarrow> PendingTask \<Rightarrow> PendingTask" where
  "select_task_type ty prev =
     prev\<lparr>task_type := ty,
          pmtu := (if ty = T_ping \<or> ty = T_tcpping then Some False else pmtu prev),
          useUDP := (if ty = T_tcpping then Some False else useUDP prev)\<rparr>"

definition set_targetsInput :: "string \<Rightarrow> PendingTask \<Rightarrow> PendingTask" where
  "set_targetsInput v prev = prev\<lparr>targetsInput := Some v\<rparr>"

definition set_preferV4 :: "bool \<Rightarrow> PendingTask \<Rightarrow> PendingTask" where
  "set_preferV4 ckd prev =
     prev\<lparr>preferV4 := Some ckd, preferV6 := (if ckd then Some False else preferV6 prev)\<rparr>"

definition set_preferV6 :: "bool \<Rightarrow> PendingTask \<Rightarrow> PendingTask" where
  "set_preferV6 ckd prev =
     prev\<lparr>preferV4 := (if ckd then Some False else preferV4 prev), preferV6 := Some ckd\<rparr>"

definition set_useUDP :: "bool \<Rightarrow> PendingTask \<Rightarrow> PendingTask" where
  "set_useUDP ckd prev = prev\<lparr>useUDP := Some ckd\<rparr>"

definition set_pmtu :: "bool \<Rightarrow> PendingTask \<Rightarrow> PendingTask" where
  "set_pmtu ckd prev = prev\<lparr>pmtu := Some ckd\<rparr>"

definition clean_sources :: "string list \<Rightarrow> string list" where
  "clean_sources value = filter (\<lambda>s. s \<noteq> []) (map js_trim value)"

definition set_sources :: "string list \<Rightarrow> PendingTask \<Rightarrow> PendingTask" where
  "set_sources value prev = prev\<lparr>sources := clean_sources value\<rparr>"

definition set_plan :: "(DNSProbePlan \<Rightarrow> DNSProbePlan) \<Rightarrow> PendingTask \<Rightarrow> PendingTask" where
  "set_plan f prev = prev\<lparr>dnsProbePlan := Some (f (nullish (dnsProbePlan prev) empty_plan))\<rparr>"

definition set_dns_transport :: "DNSTransport \<Rightarrow> PendingTask \<Rightarrow> PendingTask" where
  "set_dns_transport v = set_plan (\<lambda>p. p\<lparr>plan_transport := Some v\<rparr>)"

definition set_dns_type :: "DNSQueryType \<Rightarrow> PendingTask \<Rightarrow> PendingTask" where
  "set_dns_type v = set_plan (\<lambda>p. p\<lparr>plan_type := Some v\<rparr>)"

definition set_domainsInput :: "string \<Rightarrow> PendingTask \<Rightarrow> PendingTask" where
  "set_domainsInput v = set_plan (\<lambda>p. p\<lparr>plan_domainsInput := Some v\<rparr>)"

definition set_resolversInput :: "string \<Rightarrow> PendingTask \<Rightarrow> PendingTask" where
  "set_resolversInput v = set_plan (\<lambda>p. p\<lparr>plan_resolversInput := Some v\<rparr>)"

definition set_serverNameMapInput :: "string \<Rightarrow> PendingTask \<Rightarrow> PendingTask" where
  "set_serverNameMapInput v = set_plan (\<lambda>p. p\<lparr>plan_serverNameMapInput := Some v\<rparr>)"

definition set_http_transport :: "HTTPProto \<Rightarrow> PendingTask \<Rightarrow> PendingTask" where
  "set_http_transport v prev = prev\<lparr>selectingHttpTransport := Some v\<rparr>"

definition set_ip_pref :: "IPPref \<Rightarrow> PendingTask \<Rightarrow> PendingTask" where
  "set_ip_pref v prev = prev\<lparr>selectingIPPref := Some v\<rparr>"

definition set_addHeaderSW :: "bool \<Rightarrow> PendingTask \<Rightarrow> PendingTask" where
  "set_addHeaderSW v prev = prev\<lparr>addHeaderSW := Some v\<rparr>"

definition set_headersInput :: "string \<Rightarrow> PendingTask \<Rightarrow> PendingTask" where
  "set_headersInput v prev = prev\<lparr>headersInput := Some v\<rparr>"

definition set_routeQueryType :: "RouteQueryType \<Rightarrow> PendingTask \<Rightarrow> PendingTask" where
  "set_routeQueryType v prev = prev\<lparr>routeQueryType := Some v\<rparr>"

definition set_routeQueryTgt :: "string \<Rightarrow> PendingTask \<Rightarrow> PendingTask" where
  "set_routeQueryTgt v prev = prev\<lparr>routeQueryTgt := Some v\<rparr>"

datatype form_edit =
    E_type PingTaskType | E_targets string | E_preferV4 bool | E_preferV6 bool | E_useUDP bool
  | E_pmtu bool | E_sources "string list" | E_dns_transport DNSTransport | E_dns_type DNSQueryType
  | E_domains string | E_resolvers string | E_name_map string | E_http_transport HTTPProto
  | E_ip_pref IPPref | E_add_headers bool | E_headers string | E_route_type RouteQueryType
  | E_route_target string

fun apply_edit :: "form_edit \<Rightarrow> PendingTask \<Rightarrow> PendingTask" where
  "apply_edit (E_type v) = select_task_type v"
| "apply_edit (E_targets v) = set_targetsInput v"
| "apply_edit (E_preferV4 v) = set_preferV4 v"
| "apply_edit (E_preferV6 v) = set_preferV6 v"
| "apply_edit (E_useUDP v) = set_useUDP v"
| "apply_edit (E_pmtu v) = set_pmtu v"
| "apply_edit (E_sources v) = set_sources v"
| "apply_edit (E_dns_transport v) = set_dns_transport v"
| "apply_edit (E_dns_type v) = set_dns_type v"
| "apply_edit (E_domains v) = set_domainsInput v"
| "apply_edit (E_resolvers v) = set_resolversInput v"
| "apply_edit (E_name_map v) = set_serverNameMapInput v"
| "apply_edit (E_http_transport v) = set_http_transport v"
| "apply_edit (E_ip_pref v) = set_ip_pref v"
| "apply_edit (E_add_headers v) = set_addHeaderSW v"
| "apply_edit (E_headers v) = set_headersInput v"
| "apply_edit (E_route_type v) = set_routeQueryType v"
| "apply_edit (E_route_target v) = set_routeQueryTgt v"

text \<open>Which controls are on the page and enabled. The transport panel of the ping-like tasks is
  hidden for the other types; its UDP box is disabled for TCP ping and its PMTU box for
  everything but traceroute.\<close>

definition options_shown :: "PendingTask \<Rightarrow> bool" where
  "options_shown t \<longleftrightarrow> task_type t \<notin> {T_route, T_ip_query, T_dns, T_http}"

fun edit_enabled :: "PendingTask \<Rightarrow> form_edit \<Rightarrow> bool" where
  "edit_enabled t (E_preferV4 v) = options_shown t"
| "edit_enabled t (E_preferV6 v) = options_shown t"
| "edit_enabled t (E_useUDP v) = (options_shown t \<and> task_type t \<noteq> T_tcpping)"
| "edit_enabled t (E_pmtu v) = (task_type t = T_traceroute)"
| "edit_enabled t e = True"

section \<open>Sources\<close>

text \<open>The labels an agent must carry to be offered for the task.\<close>

definition source_filter :: "PendingTask \<Rightarrow> (string \<times> string) list option" where
  "source_filter t =
     (let add = (\<lambda>c k f. if c then Some (AList.update k ''true'' (nullish f [])) else f);
          f = add (truthy_bool (useUDP t)) ''SupportUDP'' None;
          f = add (truthy_bool (pmtu t)) ''SupportPMTU'' f;
          f = add (task_type t = T_tcpping) ''SupportTCP'' f;
          f = add (task_type t = T_dns) ''CapabilityDNSProbe'' f
      in add (task_type t = T_http) ''CapabilityHTTPProbe'' f)"

record SourceOption =
  so_key :: string
  so_label :: string
  so_iso3166alpha2 :: "string option"
  so_cityName :: "string option"
  so_asn :: "string option"
  so_isp :: "string option"

definition source_option :: "AgentEntry \<Rightarrow> SourceOption" where
  "source_option node =
     (let attr = (\<lambda>k. Option.bind (ag_attributes node) (\<lambda>a. map_of a k))
      in \<lparr>so_key = node_name_of node, so_label = node_name_of node,
          so_iso3166alpha2 = attr ''CountryCode'', so_cityName = attr ''CityName'',
          so_asn = attr NodeAttrASN, so_isp = attr NodeAttrISP\<rparr>)"

definition source_options ::
  "(string \<Rightarrow> string \<Rightarrow> int) \<Rightarrow> PendingTask \<Rightarrow> ConnValue list result \<Rightarrow> SourceOption list" where
  "source_options localeCompare t response =
     map source_option (getCurrentPingerOptions localeCompare (source_filter t) response)"

text \<open>The flag is two regional indicator symbols, as code points; a label is a list of code points.\<close>

definition getFlagEmoji :: "string \<Rightarrow> int list" where
  "getFlagEmoji countryCode =
     (case js_toUpperCase countryCode of
        a # b # _ \<Rightarrow> [int (of_char a) - 65 + 127462, int (of_char b) - 65 + 127462]
      | _ \<Rightarrow> [])"

definition getOptionLabel :: "SourceOption \<Rightarrow> int list" where
  "getOptionLabel opt =
     (let basic = map (\<lambda>c. int (of_char c)) (js_toUpperCase (so_label opt)) in
      case so_iso3166alpha2 opt of
        Some cc \<Rightarrow> if cc \<noteq> [] \<and> length cc = 2 then getFlagEmoji cc @ 32 # basic else basic
      | None \<Rightarrow> basic)"

text \<open>The selector keeps the chosen options that are still offered and reports their keys.\<close>

definition options_selected :: "('o \<Rightarrow> string) \<Rightarrow> 'o list \<Rightarrow> string list \<Rightarrow> 'o list" where
  "options_selected key options value = filter (\<lambda>opt. key opt \<in> set value) options"

section \<open>Expansion of the inputs\<close>

definition generateRandomTaskId :: "rat \<Rightarrow> string" where
  "generateRandomTaskId rnd =
     (let mn = 10000; mx = 65535; randomInt = \<lfloor>rnd * of_int (mx - mn + 1)\<rfloor> + mn
      in int_to_string randomInt)"

definition defaultResolver :: "string option \<Rightarrow> string" where
  "defaultResolver env = str_or env ''127.0.0.11:53''"

text \<open>\<open>dedup(input?.split(",") ?? []).map(trim).filter(nonempty)\<close>\<close>

definition csv_values :: "string option \<Rightarrow> string list" where
  "csv_values input =
     filter (\<lambda>t. length t > 0) (map js_trim (dedup (case input of None \<Rightarrow> [] | Some s \<Rightarrow> js_split CHR '','' s)))"

text \<open>One \<open>key=value\<close> word; the record is an association list.\<close>

definition add_pair :: "char \<Rightarrow> string \<Rightarrow> (string \<times> string) list \<Rightarrow> (string \<times> string) list" where
  "add_pair sep word m =
     (case js_indexOf sep word of
        None \<Rightarrow> m
      | Some idx \<Rightarrow>
          (let key = js_trim (take idx word); value = js_trim (drop (idx + 1) word) in
           if idx > 0 \<and> length key > 0 \<and> length value > 0 then AList.update key value m else m))"

definition parseNameMap :: "string \<Rightarrow> (string \<times> string) list" where
  "parseNameMap csvInput =
     (if length csvInput > 0 then
        (let wds = filter (\<lambda>x. length x > 0) (map js_trim (js_split CHR '','' csvInput))
         in foldl (\<lambda>m word. add_pair CHR ''='' word m) [] wds)
      else [])"

definition expandDNSProbeTask :: "PendingTask \<Rightarrow> PendingTask" where
  "expandDNSProbeTask prev =
     (let plan = nullish (dnsProbePlan prev) empty_plan;
          serverNameMap = (if truthy_str (plan_serverNameMapInput plan)
                           then parseNameMap (nullish (plan_serverNameMapInput plan) []) else []);
          newDnsProbePlan = plan\<lparr>plan_domains := Some (csv_values (plan_domainsInput plan)),
                                 plan_resolvers := Some (csv_values (plan_resolversInput plan))\<rparr>;
          dnsTgts = fst (expandDNSProbePlan newDnsProbePlan (map_of serverNameMap))
      in prev\<lparr>dnsProbePlan := Some newDnsProbePlan, dnsProbeTargets := Some dnsTgts\<rparr>)"

definition parse_headers :: "PendingTask \<Rightarrow> (string \<times> string) list" where
  "parse_headers prev =
     (if truthy_bool (addHeaderSW prev) \<and> truthy_str (headersInput prev) then
        foldl (\<lambda>m line. add_pair CHR '':'' line m) [] (js_split newline (the (headersInput prev)))
      else [])"

definition make_http_target :: "string option \<Rightarrow> PendingTask \<Rightarrow> string \<Rightarrow> HTTPTarget" where
  "make_http_target env prev url =
     \<lparr>ht_url = url, ht_correlationId = url,
      ht_extraHeaders = (if parse_headers prev \<noteq> [] then Some (parse_headers prev) else None),
      ht_proto = Some (nullish (selectingHttpTransport prev) defaultHTTPProto),
      ht_resolver = Some (defaultResolver env),
      ht_inetFamilyPreference = Some (nullish (selectingIPPref prev) defaultIPPref)\<rparr>"

definition expandHTTPProbes :: "string option \<Rightarrow> PendingTask \<Rightarrow> PendingTask" where
  "expandHTTPProbes env prev =
     (let httpTgts = map (make_http_target env prev) (csv_values (targetsInput prev))
      in prev\<lparr>httpProbeTargets := (if length httpTgts > 0 then Some httpTgts else None)\<rparr>)"

definition expandTask :: "string option \<Rightarrow> rat \<Rightarrow> PendingTask \<Rightarrow> PendingTask" where
  "expandTask env rnd prev =
     expandHTTPProbes env
       (expandDNSProbeTask
         (prev\<lparr>targets := csv_values (targetsInput prev), taskId := generateRandomTaskId rnd\<rparr>))"

section \<open>The confirmation dialog\<close>

datatype confirm_view = One_target_only | Source_and_target_required | Confirm_details "string list"

fun task_type_string :: "PingTaskType \<Rightarrow> string" where
  "task_type_string T_ping = ''ping''"
| "task_type_string T_traceroute = ''traceroute''"
| "task_type_string T_tcpping = ''tcpping''"
| "task_type_string T_dns = ''dns''"
| "task_type_string T_http = ''http''"
| "task_type_string T_route = ''route''"
| "task_type_string T_ip_query = ''ip-query''"

fun dns_transport_string :: "DNSTransport \<Rightarrow> string" where
  "dns_transport_string DNS_udp = ''udp''"
| "dns_transport_string DNS_tcp = ''tcp''"
| "dns_transport_string DNS_tls = ''tls''"
| "dns_transport_string DNS_http2 = ''http/2''"
| "dns_transport_string DNS_http3 = ''http/3''"

fun query_type_string :: "DNSQueryType \<Rightarrow> string" where
  "query_type_string Q_a = ''a''"
| "query_type_string Q_aaaa = ''aaaa''"
| "query_type_string Q_cname = ''cname''"
| "query_type_string Q_mx = ''mx''"
| "query_type_string Q_ns = ''ns''"
| "query_type_string Q_ptr = ''ptr''"
| "query_type_string Q_txt = ''txt''"

fun http_proto_string :: "HTTPProto \<Rightarrow> string" where
  "http_proto_string HTTP11 = ''http/1.1''"
| "http_proto_string HTTP2 = ''http/2''"
| "http_proto_string HTTP3 = ''http/3''"

definition numValidTargets :: "PendingTask \<Rightarrow> nat" where
  "numValidTargets t =
     (if task_type t = T_dns \<and> dnsProbeTargets t \<noteq> None then length (the (dnsProbeTargets t))
      else if task_type t = T_http \<and> httpProbeTargets t \<noteq> None then length (the (httpProbeTargets t))
      else if task_type t = T_route \<and> truthy_str (routeQueryTgt t) then
        length (filter (\<lambda>x. length x > 0) (map js_trim (js_split CHR '','' (the (routeQueryTgt t)))))
      else length (targets t))"

definition joined :: "string list option \<Rightarrow> string" where
  "joined xs = (case xs of None \<Rightarrow> ''-'' | Some l \<Rightarrow> js_join '', '' l)"

definition confirm_lines :: "PendingTask \<Rightarrow> string list" where
  "confirm_lines t =
     [''Task Type: '' @ task_type_string (task_type t), ''Sources: '' @ js_join '', '' (sources t)] @
     (if task_type t = T_dns then
        (let plan = dnsProbePlan t in
         [''Domains: '' @ joined (Option.bind plan plan_domains),
          ''Resolvers: '' @ joined (Option.bind plan plan_resolvers),
          ''Transport: '' @ (case Option.bind plan plan_transport of
             None \<Rightarrow> ''-'' | Some v \<Rightarrow> js_toUpperCase (dns_transport_string v)),
          ''Query Type: '' @ (case Option.bind plan plan_type of
             None \<Rightarrow> ''-'' | Some v \<Rightarrow> js_toUpperCase (query_type_string v))])
      else if task_type t = T_http then
        [''URLs: '' @ joined (map_option (map ht_url) (httpProbeTargets t)),
         ''Transport: '' @ js_toUpperCase (http_proto_string (nullish (selectingHttpTransport t) defaultHTTPProto))]
        @ (if truthy_bool (addHeaderSW t) \<and> truthy_str (headersInput t)
           then [''Headers: '' @ js_join ''; '' (js_split newline (the (headersInput t)))] else [])
      else if task_type t = T_route then
        [''Query Type: '' @ getQueryTypeLabel (nullish (routeQueryType t) defaultRouteQueryType),
         ''Query: '' @ nullish (routeQueryTgt t) ''-'']
      else [(if task_type t = T_ping then ''Targets'' else ''Target'') @ '': '' @ js_join '', '' (targets t)])"

definition TaskConfirmDialog :: "PendingTask \<Rightarrow> confirm_view" where
  "TaskConfirmDialog t =
     (if task_type t = T_traceroute \<and> length (targets t) > 1 then One_target_only
      else if length (sources t) = 0 \<or> numValidTargets t = 0 then Source_and_target_required
      else Confirm_details (confirm_lines t))"

section \<open>The page\<close>

text \<open>\<open>handleTaskDelete\<close> and \<open>onNewTaskConfirm\<close> of \<^verbatim>\<open>page.tsx\<close>.\<close>

definition handleTaskDelete :: "string \<Rightarrow> PendingTask list \<Rightarrow> PendingTask list" where
  "handleTaskDelete i prev = filter (\<lambda>t. taskId t \<noteq> i) prev"

definition onNewTaskConfirm :: "PendingTask \<Rightarrow> PendingTask list \<Rightarrow> PendingTask list" where
  "onNewTaskConfirm task onGoingTasks = task # onGoingTasks"

datatype task_display =
    TracerouteResultDisplay | DNSProbeDisplay | HTTPProbeDisplay | RouteQueryResultDisplay
  | IPQueryResultDisplay | PingResultDisplay

definition display_of :: "PendingTask \<Rightarrow> task_display" where
  "display_of task =
     (if task_type task = T_traceroute then TracerouteResultDisplay
      else if task_type task = T_dns then DNSProbeDisplay
      else if task_type task = T_http then HTTPProbeDisplay
      else if task_type task = T_route then RouteQueryResultDisplay
      else if task_type task = T_ip_query then IPQueryResultDisplay
      else PingResultDisplay)"

text \<open>What the page renders: whether the form stands in the centre, and one display per task, under its id.\<close>

definition Home :: "PendingTask list \<Rightarrow> bool \<times> (string \<times> task_display) list" where
  "Home onGoingTasks = (length onGoingTasks = 0, map (\<lambda>task. (taskId task, display_of task)) onGoingTasks)"

lemma Home_delete: "snd (Home (handleTaskDelete i ts)) = filter (\<lambda>d. fst d \<noteq> i) (snd (Home ts))"
  by (simp add: Home_def handleTaskDelete_def filter_map comp_def)

text \<open>The page as a state machine. \<open>Click\<close> captures the task of the current render and starts the
  asynchronous expansion (the button is disabled while one is pending); \<open>Expanded\<close> is its
  completion, which overwrites the task and opens the modal dialog; the form can be edited while
  the expansion is pending, but not under the open dialog.\<close>

record page_state =
  pg_task :: PendingTask
  pg_open :: bool
  pg_inflight :: "PendingTask option"
  pg_tasks :: "PendingTask list"

definition page_init :: page_state where
  "page_init = \<lparr>pg_task = initialPendingTask, pg_open = False, pg_inflight = None, pg_tasks = []\<rparr>"

inductive page_step :: "page_state \<Rightarrow> page_state \<Rightarrow> bool" where
  Edit: "\<not> pg_open s \<Longrightarrow> edit_enabled (pg_task s) e \<Longrightarrow>
    page_step s (s\<lparr>pg_task := apply_edit e (pg_task s)\<rparr>)"
| Click: "\<not> pg_open s \<Longrightarrow> pg_inflight s = None \<Longrightarrow> page_step s (s\<lparr>pg_inflight := Some (pg_task s)\<rparr>)"
| Expanded: "pg_inflight s = Some t \<Longrightarrow>
    page_step s (s\<lparr>pg_inflight := None, pg_task := expandTask env rnd t, pg_open := True\<rparr>)"
| CancelDialog: "pg_open s \<Longrightarrow> page_step s (s\<lparr>pg_open := False\<rparr>)"
| ConfirmDialog: "pg_open s \<Longrightarrow> TaskConfirmDialog (pg_task s) = Confirm_details ls \<Longrightarrow>
    page_step s (s\<lparr>pg_open := False, pg_tasks := onNewTaskConfirm (pg_task s) (pg_tasks s)\<rparr>)"
| CloseTask: "page_step s (s\<lparr>pg_tasks := handleTaskDelete i (pg_tasks s)\<rparr>)"

inductive page_reachable :: "page_state \<Rightarrow> bool" where
  Start: "page_reachable page_init"
| Step: "page_reachable s \<Longrightarrow> page_step s s' \<Longrightarrow> page_reachable s'"

inductive_cases page_stepE: "page_step s s'"

section \<open>Properties of the inputs\<close>

lemma csv_values_set:
  "set (csv_values input) =
     (case input of None \<Rightarrow> {} | Some s \<Rightarrow> js_trim ` set (js_split CHR '','' s)) - {[]}"
  by (auto simp: csv_values_def dedup_def split: option.splits)

lemma csv_values_clean: "v \<in> set (csv_values input) \<Longrightarrow> v \<noteq> [] \<and> js_trim v = v"
  by (auto simp: csv_values_def dedup_def)

text \<open>A value is clean if it has no comma and no white space at its ends.\<close>

definition clean_value :: "char set \<Rightarrow> string \<Rightarrow> bool" where
  "clean_value bad v \<longleftrightarrow> v \<noteq> [] \<and> js_trim v = v \<and> (\<forall>c\<in>set v. c \<notin> bad)"

lemma csv_values_join:
  assumes "\<forall>v\<in>set vs. clean_value {CHR '',''} v" and "distinct vs"
  shows "csv_values (Some (js_join '','' vs)) = vs"
proof (cases "vs = []")
  case False
  have "js_split CHR '','' (js_join '','' vs) = vs"
    by (rule js_split_join [OF False]) (use assms in \<open>auto simp: clean_value_def\<close>)
  moreover have "filter (\<lambda>t. length t > 0) (map js_trim vs) = vs"
    using assms(1) by (induction vs) (auto simp: clean_value_def)
  ultimately show ?thesis using assms(2) by (simp add: csv_values_def dedup_def js_dedup_id)
qed (simp add: csv_values_def dedup_def js_dedup_def js_trim_def)

text \<open>A comma-separated input becomes the list of its non-empty parts without surrounding blanks,
  and nothing else: any list of distinct clean values is recovered from its comma-joined text.
  Duplicates, however, are removed before the blanks are: \<^verbatim>\<open>a, a\<close> still yields two equal values.\<close>

theorem csv_values_parse:
  "((\<forall>v\<in>set vs. clean_value {CHR '',''} v) \<and> distinct vs \<longrightarrow> csv_values (Some (js_join '','' vs)) = vs)
   \<and> set (csv_values (Some s)) = js_trim ` set (js_split CHR '','' s) - {[]}
   \<and> csv_values (Some ''a, a'') = [''a'', ''a'']"
proof (intro conjI)
  show "csv_values (Some ''a, a'') = [''a'', ''a'']" by code_simp
qed (auto simp: csv_values_join csv_values_set)

lemma csv_values_parse_witness: "csv_values (Some (js_join '','' [''a.b'', ''c''])) = [''a.b'', ''c'']"
  using csv_values_parse [of "[''a.b'', ''c'']" "[]"]
  by (simp add: clean_value_def js_trim_def is_ws_def)

lemma js_indexOf_sep: "c \<notin> set k \<Longrightarrow> js_indexOf c (k @ c # v) = Some (length k)"
  by (induction k) auto

lemma add_pair_clean:
  assumes "clean_value {sep} k" and "js_trim v = v" and "v \<noteq> []"
  shows "add_pair sep (k @ sep # v) m = AList.update k v m"
proof -
  have "sep \<notin> set k" using assms(1) by (auto simp: clean_value_def)
  then show ?thesis using assms by (simp add: add_pair_def js_indexOf_sep clean_value_def)
qed

definition pair_text :: "string \<times> string \<Rightarrow> string" where
  "pair_text kv = fst kv @ CHR ''='' # snd kv"

definition clean_pair :: "string \<times> string \<Rightarrow> bool" where
  "clean_pair kv \<longleftrightarrow> clean_value {CHR ''='', CHR '',''} (fst kv) \<and> clean_value {CHR '',''} (snd kv)"

lemma clean_value_ends:
  assumes "clean_value bad v" shows "\<not> is_ws (hd v)" "\<not> is_ws (last v)" "v \<noteq> []"
  using assms js_trim_hd [of v] js_trim_last [of v] by (auto simp: clean_value_def)

lemma pair_text_clean:
  assumes "clean_pair kv" shows "clean_value {CHR '',''} (pair_text kv)"
proof -
  obtain k v where kv: "kv = (k, v)" by (cases kv)
  then have k: "clean_value {CHR ''='', CHR '',''} k" and v: "clean_value {CHR '',''} v"
    using assms by (simp_all add: clean_pair_def)
  have "js_trim (k @ CHR ''='' # v) = k @ CHR ''='' # v"
    by (rule js_trim_id) (use clean_value_ends [OF k] clean_value_ends [OF v] in auto)
  then show ?thesis using k v by (auto simp: kv pair_text_def clean_value_def)
qed

lemma parseNameMap_pairs:
  assumes "\<forall>kv\<in>set kvs. clean_pair kv"
  shows "parseNameMap (js_join '','' (map pair_text kvs)) = foldl (\<lambda>m kv. AList.update (fst kv) (snd kv) m) [] kvs"
proof (cases "kvs = []")
  case False
  have cl: "\<forall>w\<in>set (map pair_text kvs). clean_value {CHR '',''} w" using assms pair_text_clean by auto
  have "js_split CHR '','' (js_join '','' (map pair_text kvs)) = map pair_text kvs"
    by (rule js_split_join) (use False cl in \<open>auto simp: clean_value_def\<close>)
  moreover have "filter (\<lambda>x. length x > 0) (map js_trim (map pair_text kvs)) = map pair_text kvs"
    using cl by (induction kvs) (auto simp: clean_value_def)
  moreover have "js_join '','' (map pair_text kvs) \<noteq> []"
    using False by (cases kvs; cases "tl kvs") (auto simp: pair_text_def)
  moreover have "foldl (\<lambda>m word. add_pair CHR ''='' word m) m (map pair_text kvs)
      = foldl (\<lambda>m kv. AList.update (fst kv) (snd kv) m) m kvs" for m
    using assms
  proof (induction kvs arbitrary: m)
    case (Cons kv kvs)
    then have "clean_pair kv" by simp
    then have "add_pair CHR ''='' (pair_text kv) m = AList.update (fst kv) (snd kv) m"
      unfolding pair_text_def by (intro add_pair_clean) (auto simp: clean_pair_def clean_value_def)
    with Cons show ?case by simp
  qed simp
  ultimately show ?thesis by (simp add: parseNameMap_def Let_def del: map_map)
qed (simp add: parseNameMap_def)

lemma map_of_foldl_update:
  "map_of (foldl (\<lambda>m kv. AList.update (fst kv) (snd kv) m) m0 kvs) = map_of m0 ++ map_of (rev kvs)"
  by (induction kvs arbitrary: m0) (auto simp: fun_eq_iff map_add_def split: option.splits)

text \<open>A server-name map written as \<open>key=value\<close> pairs separated by commas is parsed to exactly
  these pairs, a later pair of the same key overriding an earlier one.\<close>

theorem parseNameMap_roundtrip:
  assumes "\<forall>kv\<in>set kvs. clean_pair kv"
  shows "map_of (parseNameMap (js_join '','' (map pair_text kvs))) = map_of (rev kvs)"
  using assms by (simp add: parseNameMap_pairs map_of_foldl_update)

lemma parseNameMap_roundtrip_witness:
  "map_of (parseNameMap ''1.1.1.1=one,9.9.9.9=nine,1.1.1.1=uno'') ''1.1.1.1'' = Some ''uno''"
  using parseNameMap_roundtrip [of "[(''1.1.1.1'', ''one''), (''9.9.9.9'', ''nine''), (''1.1.1.1'', ''uno'')]"]
  by (simp add: clean_pair_def clean_value_def pair_text_def js_trim_def is_ws_def)

section \<open>Properties of the expansion\<close>

lemma expandTask_simps [simp]:
  "sources (expandTask env r t) = sources t"
  "targets (expandTask env r t) = csv_values (targetsInput t)"
  "targetsInput (expandTask env r t) = targetsInput t"
  "task_type (expandTask env r t) = task_type t"
  "preferV4 (expandTask env r t) = preferV4 t" "preferV6 (expandTask env r t) = preferV6 t"
  "useUDP (expandTask env r t) = useUDP t" "pmtu (expandTask env r t) = pmtu t"
  "routeQueryTgt (expandTask env r t) = routeQueryTgt t"
  "taskId (expandTask env r t) = generateRandomTaskId r"
  by (simp_all add: expandTask_def expandHTTPProbes_def expandDNSProbeTask_def Let_def)

text \<open>Expansion is a function of the inputs only: expanding an expanded task again (the user
  cancels and presses the button once more) gives the same targets as expanding the original,
  whatever identifiers were drawn.\<close>

theorem expandTask_idempotent: "expandTask env r (expandTask env r' t) = expandTask env r t"
  by (simp add: expandTask_def expandHTTPProbes_def expandDNSProbeTask_def make_http_target_def
      parse_headers_def Let_def)

text \<open>An expanded task has one HTTP target per URL of the input, with the URL as its correlation
  id, the chosen or default protocol and address family and the parsed headers, or no list at all
  if there is no URL; and one DNS target per pair of a domain and a resolver of the input.\<close>

theorem expandTask_probe_targets:
  "let t' = expandTask env r t; urls = csv_values (targetsInput t);
       plan = nullish (dnsProbePlan t) empty_plan;
       domains = csv_values (plan_domainsInput plan); resolvers = csv_values (plan_resolversInput plan)
   in httpProbeTargets t' =
        (if urls = [] then None
         else Some (map (\<lambda>u. \<lparr>ht_url = u, ht_correlationId = u,
                  ht_extraHeaders = (if parse_headers t = [] then None else Some (parse_headers t)),
                  ht_proto = Some (nullish (selectingHttpTransport t) HTTP11),
                  ht_resolver = Some (defaultResolver env),
                  ht_inetFamilyPreference = Some (nullish (selectingIPPref t) Pref_ip6)\<rparr>) urls))
      \<and> map_option (map (\<lambda>d. (dt_corrId d, dt_target d, dt_addrport d))) (dnsProbeTargets t') =
          Some (map (\<lambda>(i, d, rs). (nat_to_string i, d, rs)) (List.enumerate 0 (List.product domains resolvers)))"
proof -
  have "map (\<lambda>d. (dt_corrId d, dt_target d, dt_addrport d)) (expand_spec plan nm) =
      map (\<lambda>(i, d, rs). (nat_to_string i, d, rs))
        (List.enumerate 0 (List.product (nullish (plan_domains plan) []) (nullish (plan_resolvers plan) [])))" for plan nm
    by (simp add: expand_spec_def make_dns_target_def case_prod_unfold)
  then show ?thesis
    by (simp add: expandTask_def expandHTTPProbes_def expandDNSProbeTask_def make_http_target_def
        parse_headers_def Let_def expandDNSProbePlan_spec defaultHTTPProto_def defaultIPPref_def)
qed

lemma generateRandomTaskId_range:
  assumes "0 \<le> r" and "r < 1"
  shows "\<exists>n. generateRandomTaskId r = int_to_string n \<and> 10000 \<le> n \<and> n \<le> 65535"
proof -
  have "r * 55536 < 55536" using assms(2) by simp
  then have "\<lfloor>r * 55536\<rfloor> < 55536" by (simp add: floor_less_iff)
  moreover have "0 \<le> \<lfloor>r * 55536\<rfloor>" using assms(1) by simp
  ultimately show ?thesis by (auto simp: generateRandomTaskId_def Let_def intro!: exI [of _ "\<lfloor>r * 55536\<rfloor> + 10000"])
qed

section \<open>Properties of the page\<close>

text \<open>What the validation guarantees of an expanded task.\<close>

definition valid_task :: "PendingTask \<Rightarrow> bool" where
  "valid_task t \<longleftrightarrow> sources t \<noteq> []
     \<and> (case task_type t of
          T_traceroute \<Rightarrow> length (targets t) = 1
        | T_dns \<Rightarrow> (\<exists>ts. dnsProbeTargets t = Some ts \<and> ts \<noteq> [])
        | T_http \<Rightarrow> (\<exists>ts. httpProbeTargets t = Some ts \<and> ts \<noteq> [])
        | T_route \<Rightarrow> (if truthy_str (routeQueryTgt t)
                     then \<exists>p\<in>set (js_split CHR '','' (the (routeQueryTgt t))). js_trim p \<noteq> []
                     else targets t \<noteq> [])
        | _ \<Rightarrow> targets t \<noteq> [])"

lemma expandTask_dns: "\<exists>ts. dnsProbeTargets (expandTask env r t) = Some ts"
  by (simp add: expandTask_def expandHTTPProbes_def expandDNSProbeTask_def Let_def)

lemma expandTask_http:
  "httpProbeTargets (expandTask env r t) = None \<longleftrightarrow> targets (expandTask env r t) = []"
  "httpProbeTargets (expandTask env r t) \<noteq> Some []"
  by (auto simp: expandTask_def expandHTTPProbes_def expandDNSProbeTask_def Let_def)

lemma confirm_valid:
  assumes "TaskConfirmDialog (expandTask env r t) = Confirm_details ls"
  shows "valid_task (expandTask env r t)"
proof -
  let ?t = "expandTask env r t"
  have s: "sources ?t \<noteq> []" and n: "numValidTargets ?t \<noteq> 0"
    and tr: "\<not> (task_type ?t = T_traceroute \<and> length (targets ?t) > 1)"
    using assms by (auto simp: TaskConfirmDialog_def split: if_splits)
  obtain ts where dns: "dnsProbeTargets ?t = Some ts" using expandTask_dns by blast
  show ?thesis
  proof (cases "task_type ?t")
    case T_route
    with s n show ?thesis
      by (auto simp: valid_task_def numValidTargets_def filter_empty_conv simp del: expandTask_simps split: if_splits)
  next
    case T_http
    with s n expandTask_http [of env r t] show ?thesis
      by (cases "httpProbeTargets ?t")
         (auto simp: valid_task_def numValidTargets_def simp del: expandTask_simps)
  next
    case T_traceroute
    then have "length (targets ?t) \<noteq> 0" "\<not> length (targets ?t) > 1"
      using n tr by (auto simp: numValidTargets_def simp del: expandTask_simps)
    then have "length (targets ?t) = 1" by linarith
    with T_traceroute s show ?thesis by (simp add: valid_task_def del: expandTask_simps)
  qed (use s n dns in \<open>auto simp: valid_task_def numValidTargets_def simp del: expandTask_simps\<close>)
qed

definition page_inv :: "page_state \<Rightarrow> bool" where
  "page_inv s \<longleftrightarrow> (pg_open s \<longrightarrow> pg_inflight s = None \<and> (\<exists>env r t. pg_task s = expandTask env r t))
     \<and> (\<forall>t\<in>set (pg_tasks s). valid_task t)"

lemma page_step_inv: "page_step s s' \<Longrightarrow> page_inv s \<Longrightarrow> page_inv s'"
  by (induction rule: page_step.induct)
     (auto simp: page_inv_def onNewTaskConfirm_def handleTaskDelete_def intro: confirm_valid)

lemma page_reachable_inv: "page_reachable s \<Longrightarrow> page_inv s"
proof (induction rule: page_reachable.induct)
  case Start
  then show ?case by (simp add: page_inv_def page_init_def)
qed (rule page_step_inv)

text \<open>C4. Every task that ever reaches the list of running tasks has been validated: it has a source,
  a traceroute has exactly one target, a DNS or HTTP task a non-empty list of expanded targets,
  the other types a target, and a route query that has text at least one non-empty part, under
  any interleaving of edits, pending expansions, cancellations and closed tasks.\<close>

theorem running_tasks_valid:
  assumes "page_reachable s" and "t \<in> set (pg_tasks s)"
  shows "valid_task t"
  using page_reachable_inv [OF assms(1)] assms(2) by (simp add: page_inv_def)

definition sample_task :: PendingTask where
  "sample_task = apply_edit (E_targets ''1.1.1.1'') (apply_edit (E_sources [''nyc'']) initialPendingTask)"

text \<open>Editing and adding a task, as a derived step.\<close>

lemma reach_edit:
  "page_reachable s \<Longrightarrow> \<not> pg_open s \<Longrightarrow> edit_enabled (pg_task s) e \<Longrightarrow>
   page_reachable (s\<lparr>pg_task := apply_edit e (pg_task s)\<rparr>)"
  by (rule Step) (auto intro: page_step.Edit)

lemma reach_add:
  assumes "page_reachable s" "\<not> pg_open s" "pg_inflight s = None"
    and "TaskConfirmDialog (expandTask env r (pg_task s)) = Confirm_details ls"
  shows "page_reachable (s\<lparr>pg_inflight := None, pg_task := expandTask env r (pg_task s), pg_open := False,
      pg_tasks := onNewTaskConfirm (expandTask env r (pg_task s)) (pg_tasks s)\<rparr>)"
proof -
  let ?s1 = "s\<lparr>pg_inflight := Some (pg_task s)\<rparr>"
  let ?s2 = "?s1\<lparr>pg_inflight := None, pg_task := expandTask env r (pg_task s), pg_open := True\<rparr>"
  have "page_reachable ?s1" using assms by (intro Step [OF assms(1)] page_step.Click)
  moreover have "page_step ?s1 ?s2" by (rule page_step.Expanded) simp
  ultimately have "page_reachable ?s2" by (rule Step)
  moreover have "page_step ?s2 (?s2\<lparr>pg_open := False, pg_tasks := onNewTaskConfirm (pg_task ?s2) (pg_tasks ?s2)\<rparr>)"
    by (rule page_step.ConfirmDialog) (use assms(4) in simp_all)
  ultimately have "page_reachable (?s2\<lparr>pg_open := False, pg_tasks := onNewTaskConfirm (pg_task ?s2) (pg_tasks ?s2)\<rparr>)"
    by (rule Step)
  then show ?thesis by simp
qed

definition sample_page :: page_state where
  "sample_page = page_init\<lparr>pg_task := sample_task\<rparr>"

lemma sample_page_reachable: "page_reachable sample_page"
proof -
  let ?t = "apply_edit (E_sources [''nyc'']) initialPendingTask"
  have "page_reachable (page_init\<lparr>pg_task := ?t\<rparr>)"
    using reach_edit [OF Start, of "E_sources [''nyc'']"] by (simp add: page_init_def del: apply_edit.simps)
  from reach_edit [OF this, of "E_targets ''1.1.1.1''"] show ?thesis
    by (simp add: sample_page_def sample_task_def page_init_def del: apply_edit.simps)
qed

lemma sample_page_added:
  "\<exists>s. page_reachable s \<and> pg_tasks s = [expandTask None 0 sample_task]"
proof -
  have v: "TaskConfirmDialog (expandTask None 0 sample_task) = Confirm_details (confirm_lines (expandTask None 0 sample_task))"
  proof -
    have "task_type sample_task = T_ping" "sources sample_task = [''nyc'']"
      "csv_values (targetsInput sample_task) = [''1.1.1.1'']"
      unfolding sample_task_def by code_simp+
    then show ?thesis by (simp add: TaskConfirmDialog_def numValidTargets_def)
  qed
  have p: "pg_task sample_page = sample_task" "\<not> pg_open sample_page" "pg_inflight sample_page = None"
    "pg_tasks sample_page = []" by (simp_all add: sample_page_def page_init_def)
  from reach_add [OF sample_page_reachable p(2,3), unfolded p(1), OF v] show ?thesis
    by (intro exI conjI, assumption) (simp add: p onNewTaskConfirm_def)
qed

lemma running_tasks_valid_witness: "valid_task (expandTask None 0 sample_task)"
  using running_tasks_valid sample_page_added by (metis list.set_intros(1))

definition options_ok :: "PendingTask \<Rightarrow> bool" where
  "options_ok t \<longleftrightarrow> \<not> (truthy_bool (preferV4 t) \<and> truthy_bool (preferV6 t))
     \<and> (task_type t = T_tcpping \<longrightarrow> \<not> truthy_bool (useUDP t))
     \<and> (task_type t \<in> {T_ping, T_tcpping} \<longrightarrow> \<not> truthy_bool (pmtu t))"

lemma edit_options_ok: "options_ok t \<Longrightarrow> edit_enabled t e \<Longrightarrow> options_ok (apply_edit e t)"
  by (cases e)
     (auto simp: options_ok_def select_task_type_def set_targetsInput_def set_preferV4_def set_preferV6_def
        set_useUDP_def set_pmtu_def set_sources_def set_dns_transport_def set_dns_type_def set_domainsInput_def
        set_resolversInput_def set_serverNameMapInput_def set_plan_def set_http_transport_def set_ip_pref_def
        set_addHeaderSW_def set_headersInput_def set_routeQueryType_def set_routeQueryTgt_def)

lemma expand_options_ok: "options_ok t \<Longrightarrow> options_ok (expandTask env r t)"
  by (simp add: options_ok_def)

definition page_options_inv :: "page_state \<Rightarrow> bool" where
  "page_options_inv s \<longleftrightarrow> options_ok (pg_task s) \<and> (\<forall>t. pg_inflight s = Some t \<longrightarrow> options_ok t)
     \<and> (\<forall>t\<in>set (pg_tasks s). options_ok t)"

lemma page_options_step: "page_step s s' \<Longrightarrow> page_options_inv s \<Longrightarrow> page_options_inv s'"
  by (induction rule: page_step.induct)
     (auto simp: page_options_inv_def onNewTaskConfirm_def handleTaskDelete_def
        intro: edit_options_ok expand_options_ok)

text \<open>C26. The options of a task stay consistent: it never prefers IPv4 and IPv6 at once, a TCP ping
  never asks for UDP, and neither ping nor TCP ping asks for path-MTU discovery, whatever the
  user clicks in whatever order.\<close>

theorem page_options_consistent:
  assumes "page_reachable s"
  shows "options_ok (pg_task s) \<and> (\<forall>t\<in>set (pg_tasks s). options_ok t)"
proof -
  from assms have "page_options_inv s"
  proof (induction rule: page_reachable.induct)
    case Start
    then show ?case by (simp add: page_options_inv_def page_init_def initialPendingTask_def options_ok_def)
  qed (rule page_options_step)
  then show ?thesis by (simp add: page_options_inv_def)
qed

lemma page_options_consistent_witness: "options_ok (pg_task sample_page)"
  using page_options_consistent [OF sample_page_reachable] by simp

text \<open>The validation of a route task falls back to the targets of the other task types: with an
  empty query and a target typed for a ping before, the dialog offers to confirm a route task
  that queries nothing.\<close>

theorem empty_route_query_confirmed:
  assumes "\<not> truthy_str (routeQueryTgt t)" and "task_type t = T_route"
    and "sources t \<noteq> []" and "csv_values (targetsInput t) \<noteq> []"
  shows "\<exists>ls. TaskConfirmDialog (expandTask env r t) = Confirm_details ls \<and> ''Query: '' @ nullish (routeQueryTgt t) ''-'' \<in> set ls"
  using assms by (simp add: TaskConfirmDialog_def numValidTargets_def confirm_lines_def)

lemma empty_route_query_confirmed_witness:
  "\<exists>ls. TaskConfirmDialog (expandTask None 0 (apply_edit (E_type T_route) sample_task)) = Confirm_details ls
     \<and> ''Query: -'' \<in> set ls"
proof -
  let ?t = "apply_edit (E_type T_route) sample_task"
  have "\<not> truthy_str (routeQueryTgt ?t)" "task_type ?t = T_route" "sources ?t \<noteq> []"
    "csv_values (targetsInput ?t) \<noteq> []" "routeQueryTgt ?t = None"
    unfolding sample_task_def by code_simp+
  then show ?thesis using empty_route_query_confirmed [of ?t None 0] by simp
qed

end
