(* ===== verification/Http_Probe.thy ===== *)
theory Http_Probe
  imports Ping_Events "HOL-Library.Char_ord" "HOL-Library.List_Lexorder"
begin

text \<open>
  HTTP probing: \<^verbatim>\<open>web/apis/httpprobe.ts\<close> turns raw events into \<open>EventObject\<close>s and builds the
  request, \<^verbatim>\<open>web/components/EventsBrowser.tsx\<close> collects, filters and orders them,
  \<^verbatim>\<open>web/components/httpprobedisplay.tsx\<close> starts the stream. \<open>Date.parse\<close>, \<open>Date.now\<close> and
  \<open>JSON.stringify\<close> are parameters; the default array sort compares code units.
\<close>

section \<open>Events\<close>

definition opt_bind :: "'a option \<Rightarrow> ('a \<Rightarrow> 'b option) \<Rightarrow> 'b option" (* the operator ?. *) where
  "opt_bind x f = Option.bind x f"

definition convertRawPingEventToEventObj ::
  "(string \<Rightarrow> int option) \<Rightarrow> int \<Rightarrow> HTTPProbeEvent RawPingEvent \<Rightarrow> nat \<Rightarrow> EventObject option" where
  "convertRawPingEventToEventObj date_parse now rawPingEv idx =
     (let from = opt_bind (raw_metadata rawPingEv) meta_from;
          corrId = opt_bind (raw_data rawPingEv) he_correlationId;
          transport = opt_bind (raw_data rawPingEv) he_transport;
          date = opt_bind transport tev_Date;
          name = opt_bind transport tev_Name;
          ty = opt_bind transport tev_Type;
          val = opt_bind transport tev_Value;
          err = opt_bind (raw_data rawPingEv) he_error
      in if \<not> truthy_str from \<or> \<not> truthy_str corrId \<or> \<not> truthy_str date then None
         else (let labels = [(FILTERKEY_FROM, the from), (FILTERKEY_CORR_ID, the corrId)] in
           case date_parse (the date) of
             None \<Rightarrow> None
           | Some tx \<Rightarrow>
               if truthy_str err then
                 Some \<lparr>eo_id = ''err-'' @ nat_to_string idx, eo_timestamp = (if tx = 0 then now else tx),
                       eo_message = the err, eo_labels = Some labels, eo_annotations = None\<rparr>
               else
                 Some \<lparr>eo_id = the from @ '':'' @ the corrId @ '':'' @ nat_to_string idx,
                       eo_timestamp = tx,
                       eo_message = nullish name [] @ '': '' @ nullish val [],
                       eo_labels = Some labels,
                       eo_annotations = map_option (\<lambda>t. [(''Type'', event_type_string t)]) ty\<rparr>))"

text \<open>The adapter's state is its counter. A chunk that is not an object (\<open>None\<close>) is skipped
  without counting.\<close>

definition EventAdapter ::
  "(string \<Rightarrow> int option) \<Rightarrow> int \<Rightarrow> nat \<Rightarrow> HTTPProbeEvent RawPingEvent option \<Rightarrow> (nat \<times> EventObject list) result" where
  "EventAdapter date_parse now idx chunk =
     (case chunk of
        None \<Rightarrow> Inr (idx, [])
      | Some raw \<Rightarrow>
          (case convertRawPingEventToEventObj date_parse now raw idx of
             None \<Rightarrow> Inr (Suc idx, [])
           | Some ev \<Rightarrow> Inr (Suc idx, [ev])))"

definition event_pipe ::
  "(string \<Rightarrow> HTTPProbeEvent RawPingEvent option option) \<Rightarrow> (string \<Rightarrow> int option) \<Rightarrow> int \<Rightarrow> string list \<Rightarrow> EventObject list result" where
  "event_pipe parse date_parse now cs =
     (case ndjson_pipe parse cs of
        Inl e \<Rightarrow> Inl e
      | Inr raws \<Rightarrow> pipe_through (EventAdapter date_parse now) (\<lambda>i. Inr (i, [])) 0 raws)"

definition event_params :: "(HTTPTarget \<Rightarrow> string) \<Rightarrow> string list \<Rightarrow> HTTPTarget list \<Rightarrow> params" where
  "event_params stringify srcs probeTgts =
     foldl (\<lambda>p t. params_append ''httpTarget'' (stringify t) p)
       (params_set ''l7PacketType'' ''http'' (params_set_if (length srcs > 0) ''from'' (js_join '','' srcs) []))
       probeTgts"

definition generateEventStream ::
  "string option \<Rightarrow> (HTTPTarget \<Rightarrow> string) \<Rightarrow> string list \<Rightarrow> HTTPTarget list \<Rightarrow> string option" where
  "generateEventStream env stringify srcs probeTgts =
     (if length srcs = 0 \<or> length probeTgts = 0 then None
      else Some (getApiEndpoint env @ ''/ping?'' @ params_toString (event_params stringify srcs probeTgts)))"

text \<open>\<open>queryFn\<close> of the display; \<open>None\<close> when there is nothing to fetch.\<close>

definition http_query :: "string option \<Rightarrow> (HTTPTarget \<Rightarrow> string) \<Rightarrow> PendingTask \<Rightarrow> string option" where
  "http_query env stringify task =
     (let srcs = sources task; dsts = nullish (httpProbeTargets task) []
      in if length srcs + length dsts = 0 then None else generateEventStream env stringify srcs dsts)"

section \<open>Browsing\<close>

type_synonym labels = "(string \<times> string) list"

fun has_labels :: "labels option \<Rightarrow> labels \<Rightarrow> bool" where
  "has_labels ev_labels [] = True"
| "has_labels ev_labels ((k, v) # ls) =
     (if opt_bind ev_labels (\<lambda>l. map_of l k) \<noteq> Some v then False else has_labels ev_labels ls)"

definition applyEVsLabelFilter :: "EventObject list \<Rightarrow> labels option \<Rightarrow> EventObject list" where
  "applyEVsLabelFilter evs ls =
     (case ls of None \<Rightarrow> evs | Some l \<Rightarrow> filter (\<lambda>ev. has_labels (eo_labels ev) l) evs)"

record evs_state =
  es_srcs :: "string list"
  es_dsts :: "string list"
  es_evs :: "EventObject list"

definition evs_init :: evs_state where
  "evs_init = \<lparr>es_srcs = [], es_dsts = [], es_evs = []\<rparr>"

definition add_sorted :: "string option \<Rightarrow> string list \<Rightarrow> string list" where
  "add_sorted x prev = (if truthy_str x \<and> the x \<notin> set prev then sort (prev @ [the x]) else prev)"

definition evs_read :: "evs_state \<Rightarrow> EventObject \<Rightarrow> evs_state" where
  "evs_read st value =
     \<lparr>es_srcs = add_sorted (opt_bind (eo_labels value) (\<lambda>l. map_of l FILTERKEY_FROM)) (es_srcs st),
      es_dsts = add_sorted (opt_bind (eo_labels value) (\<lambda>l. map_of l FILTERKEY_CORR_ID)) (es_dsts st),
      es_evs = (if \<exists>item\<in>set (es_evs st). eo_id item = eo_id value then es_evs st else es_evs st @ [value])\<rparr>"

text \<open>The clean-up of the effect, when the reader changes, empties the events only.\<close>

definition evs_cleanup :: "evs_state \<Rightarrow> evs_state" where
  "evs_cleanup st = st\<lparr>es_evs := []\<rparr>"

definition shown_events :: "evs_state \<Rightarrow> labels option \<Rightarrow> EventObject list" where
  "shown_events st ls = js_sort (\<lambda>a b. eo_timestamp a - eo_timestamp b) (applyEVsLabelFilter (es_evs st) ls)"

definition dropNilValues :: "labels \<Rightarrow> labels" where
  "dropNilValues dict = filter (\<lambda>(k, v). v \<noteq> []) dict"

text \<open>A click on a source or destination chip; \<open>key\<close> is the label it stands for.\<close>

definition toggle_filter :: "string \<Rightarrow> string \<Rightarrow> labels \<Rightarrow> labels" where
  "toggle_filter key s prev =
     dropNilValues (AList.update key (if map_of prev key = Some s then [] else s) prev)"

definition chips :: "(string \<Rightarrow> string \<Rightarrow> int) \<Rightarrow> labels \<Rightarrow> labels" where
  "chips localeCompare dict = js_sort (\<lambda>a b. localeCompare (fst a) (fst b)) (dropNilValues dict)"

text \<open>Whether the dock keeps following the newest event after a scroll.\<close>

definition followingMode :: "int \<Rightarrow> int \<Rightarrow> int \<Rightarrow> bool" where
  "followingMode scrollHeight clientHeight scrollTop \<longleftrightarrow>
     (let burringZoneHeight = 10 in
      \<bar>scrollHeight - clientHeight\<bar> < burringZoneHeight
      \<or> \<bar>scrollTop - (scrollHeight - clientHeight)\<bar> < burringZoneHeight)"

section \<open>Properties\<close>

lemma has_labels_iff: "has_labels evl ls \<longleftrightarrow> (\<forall>(k, v)\<in>set ls. Option.bind evl (\<lambda>l. map_of l k) = Some v)"
  by (induction ls) (auto simp: opt_bind_def split: if_splits)

text \<open>The label values of a list of events, without absent and empty ones.\<close>

definition label_values :: "string \<Rightarrow> EventObject list \<Rightarrow> string set" where
  "label_values key es = {v. v \<noteq> [] \<and> (\<exists>e\<in>set es. Option.bind (eo_labels e) (\<lambda>l. map_of l key) = Some v)}"

lemma label_values_simps:
  "label_values key [] = {}"
  "label_values key (es @ [e]) = label_values key es \<union>
     (case Option.bind (eo_labels e) (\<lambda>l. map_of l key) of None \<Rightarrow> {} | Some v \<Rightarrow> {v} - {[]})"
  by (auto simp: label_values_def split: option.splits)

lemma add_sorted_inv:
  "sorted xs \<and> distinct xs \<Longrightarrow> sorted (add_sorted x xs) \<and> distinct (add_sorted x xs)"
  by (simp add: add_sorted_def)

lemma set_add_sorted: "set (add_sorted x xs) = set xs \<union> (case x of None \<Rightarrow> {} | Some v \<Rightarrow> {v} - {[]})"
  by (auto simp: add_sorted_def truthy_str_iff split: option.splits if_splits)

definition evs_run :: "EventObject list \<Rightarrow> evs_state" where
  "evs_run es = foldl evs_read evs_init es"

lemma evs_run_snoc [simp]: "evs_run (es @ [e]) = evs_read (evs_run es) e"
  by (simp add: evs_run_def)

lemma evs_run_labels:
  "es_srcs (evs_run es) = sorted_list_of_set (label_values FILTERKEY_FROM es)
   \<and> es_dsts (evs_run es) = sorted_list_of_set (label_values FILTERKEY_CORR_ID es)"
proof -
  have inv: "sorted (es_srcs (evs_run es)) \<and> distinct (es_srcs (evs_run es))
      \<and> set (es_srcs (evs_run es)) = label_values FILTERKEY_FROM es
      \<and> sorted (es_dsts (evs_run es)) \<and> distinct (es_dsts (evs_run es))
      \<and> set (es_dsts (evs_run es)) = label_values FILTERKEY_CORR_ID es"
  proof (induction es rule: rev_induct)
    case (snoc e es)
    then show ?case
      by (simp add: evs_read_def add_sorted_inv set_add_sorted label_values_simps opt_bind_def)
  qed (simp add: evs_run_def evs_init_def label_values_simps)
  then show ?thesis by (metis sorted_list_of_set.idem_if_sorted_distinct)
qed

text \<open>The first event of every identifier, in order of arrival.\<close>

fun first_ids :: "string set \<Rightarrow> EventObject list \<Rightarrow> EventObject list" where
  "first_ids seen [] = []"
| "first_ids seen (e # es) =
     (if eo_id e \<in> seen then first_ids seen es else e # first_ids (insert (eo_id e) seen) es)"

lemma first_ids_snoc:
  "first_ids seen (es @ [e]) =
     (if eo_id e \<in> seen \<union> eo_id ` set es then first_ids seen es else first_ids seen es @ [e])"
  by (induction es arbitrary: seen) auto

lemma ids_first_ids: "eo_id ` set (first_ids seen es) = eo_id ` set es - seen"
  by (induction es arbitrary: seen) auto

lemma evs_run_events: "es_evs (evs_run es) = first_ids {} es"
proof (induction es rule: rev_induct)
  case (snoc e es)
  have "(\<exists>item\<in>set (first_ids {} es). eo_id item = eo_id e) \<longleftrightarrow> eo_id e \<in> eo_id ` set es"
  proof -
    have "(\<exists>item\<in>set (first_ids {} es). eo_id item = eo_id e) \<longleftrightarrow> eo_id e \<in> eo_id ` set (first_ids {} es)"
      by (auto intro: rev_image_eqI)
    then show ?thesis by (simp add: ids_first_ids)
  qed
  with snoc show ?case by (simp add: evs_read_def first_ids_snoc)
qed (simp add: evs_run_def evs_init_def)

text \<open>What the browser shows after any events: the source and destination chips are exactly the
  label values seen, sorted and without repetition; the list holds the first event of every
  identifier that matches every selected label, stably ordered by time.\<close>

theorem events_browser_view:
  "es_srcs (evs_run es) = sorted_list_of_set (label_values FILTERKEY_FROM es)
   \<and> es_dsts (evs_run es) = sorted_list_of_set (label_values FILTERKEY_CORR_ID es)
   \<and> shown_events (evs_run es) (Some ls) = sort_key eo_timestamp
       (filter (\<lambda>e. \<forall>(k, v)\<in>set ls. Option.bind (eo_labels e) (\<lambda>l. map_of l k) = Some v) (first_ids {} es))"
  by (simp add: evs_run_labels shown_events_def applyEVsLabelFilter_def evs_run_events js_sort_key has_labels_iff)

lemma run_EventAdapter:
  "\<exists>j. run_transform (EventAdapter dp now) i raws = Inr (j, List.map_filter
      (\<lambda>(n, r). convertRawPingEventToEventObj dp now r n)
      (List.enumerate i (List.map_filter id raws)))"
proof (induction raws arbitrary: i)
  case (Cons r raws)
  show ?case
  proof (cases r)
    case None
    with Cons [of i] show ?thesis by (auto simp: EventAdapter_def map_filter_simps)
  next
    case (Some raw)
    with Cons [of "Suc i"] show ?thesis
      by (cases "convertRawPingEventToEventObj dp now raw i") (auto simp: EventAdapter_def map_filter_simps)
  qed
qed (simp add: map_filter_simps)

lemma event_id_shape:
  assumes "convertRawPingEventToEventObj dp now r n = Some ev"
  shows "\<exists>p. eo_id ev = p @ nat_to_string n \<and> p \<noteq> [] \<and> \<not> is_digit (last p)"
  using assms
  by (auto simp: convertRawPingEventToEventObj_def Let_def is_digit_def split: if_splits option.splits)

lemma digits_suffix_unique:
  assumes e: "p @ nat_to_string n = q @ nat_to_string m"
    and p: "p \<noteq> []" "\<not> is_digit (last p)" and q: "q \<noteq> []" "\<not> is_digit (last q)"
  shows "n = m"
proof -
  have t: "takeWhile is_digit (rev (p @ nat_to_string k)) = rev (nat_to_string k)"
    if "p \<noteq> []" "\<not> is_digit (last p)" for p k
  proof -
    have d: "list_all is_digit (rev (nat_to_string k))" by (simp add: list_all_iff nat_to_string_digits)
    have "takeWhile is_digit (xs @ rev p) = xs" if "list_all is_digit xs" for xs
      using that \<open>p \<noteq> []\<close> \<open>\<not> is_digit (last p)\<close>
      by (induction xs) (cases p rule: rev_cases; simp)+
    from this [OF d] show ?thesis by simp
  qed
  have "rev (nat_to_string n) = rev (nat_to_string m)" using t [OF p, of n] t [OF q, of m] e by simp
  then show ?thesis by simp
qed

definition converted :: "(string \<Rightarrow> int option) \<Rightarrow> int \<Rightarrow> nat \<Rightarrow> HTTPProbeEvent RawPingEvent list \<Rightarrow> EventObject list" where
  "converted dp now i raws =
     List.map_filter (\<lambda>(n, r). convertRawPingEventToEventObj dp now r n) (List.enumerate i raws)"

lemma converted_simps:
  "converted dp now i [] = []"
  "converted dp now i (r # raws) =
     (case convertRawPingEventToEventObj dp now r i of
        None \<Rightarrow> converted dp now (Suc i) raws | Some e \<Rightarrow> e # converted dp now (Suc i) raws)"
  by (auto simp: converted_def map_filter_simps split: option.splits)

lemma converted_index:
  "e \<in> set (converted dp now i raws) \<Longrightarrow> \<exists>n\<ge>i. \<exists>r. convertRawPingEventToEventObj dp now r n = Some e"
proof (induction raws arbitrary: i)
  case (Cons r raws)
  show ?case
  proof (cases "convertRawPingEventToEventObj dp now r i = Some e")
    case False
    with Cons.prems have "e \<in> set (converted dp now (Suc i) raws)"
      by (auto simp: converted_simps split: option.splits)
    from Cons.IH [OF this] show ?thesis by (meson Suc_leD)
  qed auto
qed (simp add: converted_simps)

lemma converted_distinct: "distinct (map eo_id (converted dp now i raws))"
proof (induction raws arbitrary: i)
  case (Cons r raws)
  show ?case
  proof (cases "convertRawPingEventToEventObj dp now r i")
    case (Some e)
    have "eo_id e \<noteq> eo_id e'" if e': "e' \<in> set (converted dp now (Suc i) raws)" for e'
    proof -
      obtain n r' where n: "Suc i \<le> n" "convertRawPingEventToEventObj dp now r' n = Some e'"
        using converted_index [OF e'] by auto
      then show ?thesis
        using event_id_shape [OF Some] event_id_shape [OF n(2)] digits_suffix_unique
        by (metis Suc_n_not_le_n)
    qed
    with Cons [of "Suc i"] Some show ?thesis by (auto simp: converted_simps)
  qed (use Cons in \<open>simp add: converted_simps\<close>)
qed (simp add: converted_simps)

lemma first_ids_distinct:
  "distinct (map eo_id es) \<Longrightarrow> eo_id ` set es \<inter> seen = {} \<Longrightarrow> first_ids seen es = es"
  by (induction es arbitrary: seen) auto

text \<open>The events of one stream have pairwise different identifiers, error events included, so the
  browser never drops one as a duplicate; they depend on the text of the response only and not on
  how it was cut into chunks.\<close>

theorem event_ids_distinct:
  "\<exists>evs. event_pipe parse dp now cs = Inr evs \<and> distinct (map eo_id evs)
     \<and> evs = List.map_filter (\<lambda>(n, r). convertRawPingEventToEventObj dp now r n)
         (List.enumerate 0 (List.map_filter id (List.map_filter parse (lines_of (concat cs)))))
     \<and> es_evs (evs_run evs) = evs"
proof -
  define raws where "raws = List.map_filter id (List.map_filter parse (lines_of (concat cs)))"
  have "event_pipe parse dp now cs = Inr (converted dp now 0 raws)"
    using run_EventAdapter [of dp now 0 "List.map_filter parse (lines_of (concat cs))"]
    by (auto simp: event_pipe_def ndjson_pipe_lines pipe_through_def converted_def raws_def)
  moreover have "es_evs (evs_run (converted dp now 0 raws)) = converted dp now 0 raws"
    unfolding evs_run_events by (rule first_ids_distinct [OF converted_distinct]) simp
  ultimately show ?thesis using converted_distinct by (auto simp: converted_def raws_def)
qed

definition sample_browser_event :: "string \<Rightarrow> int \<Rightarrow> string \<Rightarrow> EventObject" where
  "sample_browser_event i t src = \<lparr>eo_id = i, eo_timestamp = t, eo_message = [], eo_labels = Some [(FILTERKEY_FROM, src)],
     eo_annotations = None\<rparr>"

lemma events_browser_view_witness:
  "shown_events (evs_run [sample_browser_event ''a'' 5 ''nyc'', sample_browser_event ''b'' 3 ''lax'', sample_browser_event ''c'' 2 ''nyc'', sample_browser_event ''a'' 1 ''nyc''])
     (Some [(FILTERKEY_FROM, ''nyc'')]) = [sample_browser_event ''c'' 2 ''nyc'', sample_browser_event ''a'' 5 ''nyc'']"
  using events_browser_view [of "[sample_browser_event ''a'' 5 ''nyc'', sample_browser_event ''b'' 3 ''lax'', sample_browser_event ''c'' 2 ''nyc'', sample_browser_event ''a'' 1 ''nyc'']"
     "[(FILTERKEY_FROM, ''nyc'')]"]
  by (simp add: sample_browser_event_def)

end
