(* ===== verification/Dns_Display.thy ===== *)
theory Dns_Display
  imports Ping_Events Display
begin

text \<open>
  \<^verbatim>\<open>web/components/dnsprobedisplay.tsx\<close>: the table of DNS answers, one row per target and one
  column per source. \<open>AnswersMap\<close> maps a source to a map from correlation id to responses; the
  elapsed time is in nanoseconds.
\<close>

type_synonym AnswersMap = "(string \<times> (string \<times> DNSResponse list) list) list"

section \<open>Collecting the answers\<close>

definition updateAnswersMap :: "AnswersMap \<Rightarrow> DNSResponse RawPingEvent \<Rightarrow> AnswersMap" where
  "updateAnswersMap answersMap event =
     (case raw_data event of
        None \<Rightarrow> answersMap
      | Some r \<Rightarrow>
          if \<not> truthy_str (dr_corrId r) then answersMap
          else (let from = event_from (raw_metadata event) in
            if from = [] then answersMap
            else AList.update from
                   (AList.update (the (dr_corrId r)) [r] (nullish (map_of answersMap from) [])) answersMap))"

section \<open>Rendering a response\<close>

definition RenderError :: "DNSResponse \<Rightarrow> string list" where
  "RenderError r =
     (if truthy_bool (dr_no_such_host r) then [''Err: No such host'']
      else if truthy_bool (dr_io_timeout r) then [''Err: IO timeout'']
      else if truthy_str (dr_err_string r) then [''Err: '' @ the (dr_err_string r)]
      else [])"

definition RenderRTT :: "DNSResponse \<Rightarrow> string list" where
  "RenderRTT r =
     (case dr_elapsed r of
        None \<Rightarrow> []
      | Some elapsed \<Rightarrow> [''Took: '' @ strip_zeros (signed_toFixed 2 (of_int elapsed / (1000 * 1000))) @ ''ms''])"

definition RenderResponse :: "DNSResponse \<Rightarrow> string list" where
  "RenderResponse r =
     (if truthy_str (dr_error r) \<or> truthy_str (dr_err_string r) then RenderError r
      else case dr_answer_strings r of
        None \<Rightarrow> []
      | Some as \<Rightarrow> if length as > 0 then as @ RenderRTT r else [])"

text \<open>The cell of a target and a source; \<open>None\<close> is \<^verbatim>\<open>(No Data)\<close>.\<close>

definition dns_cell :: "AnswersMap \<Rightarrow> string \<Rightarrow> DNSTarget \<Rightarrow> string list option" where
  "dns_cell answers s tgt =
     (case Option.bind (map_of answers s) (\<lambda>m. map_of m (dt_corrId tgt)) of
        None \<Rightarrow> None
      | Some responses \<Rightarrow> if length responses = 0 then None else Some (concat (map RenderResponse responses)))"

section \<open>Properties\<close>

definition dns_run :: "DNSResponse RawPingEvent list \<Rightarrow> AnswersMap" where
  "dns_run evs = foldl updateAnswersMap [] evs"

text \<open>The response an event contributes to a cell.\<close>

definition answer_for :: "string \<Rightarrow> string \<Rightarrow> DNSResponse RawPingEvent \<Rightarrow> DNSResponse option" where
  "answer_for s c ev =
     (if s \<noteq> [] \<and> c \<noteq> [] \<and> event_from (raw_metadata ev) = s
         \<and> Option.bind (raw_data ev) dr_corrId = Some c then raw_data ev else None)"

lemma answers_lookup:
  "Option.bind (map_of (updateAnswersMap m ev) s) (\<lambda>a. map_of a c) =
     (case answer_for s c ev of Some r \<Rightarrow> Some [r] | None \<Rightarrow> Option.bind (map_of m s) (\<lambda>a. map_of a c))"
proof (cases "raw_data ev")
  case (Some r)
  then show ?thesis
    by (cases "map_of m s"; cases "dr_corrId r")
       (auto simp: updateAnswersMap_def answer_for_def Let_def)
qed (simp add: updateAnswersMap_def answer_for_def)

lemma dns_run_lookup:
  "Option.bind (map_of (dns_run evs) s) (\<lambda>a. map_of a c) =
     (let rs = List.map_filter (answer_for s c) evs in if rs = [] then None else Some [last rs])"
proof (induction evs rule: rev_induct)
  case (snoc ev evs)
  then show ?case
    by (simp add: dns_run_def answers_lookup map_filter_def Let_def split: option.splits)
qed (simp add: dns_run_def map_filter_simps)

lemma dns_cell_of_run:
  assumes "s \<noteq> []" and "dt_corrId tgt \<noteq> []"
  shows "dns_cell (dns_run evs) s tgt =
    (let rs = List.map_filter (\<lambda>ev. if event_from (raw_metadata ev) = s
                 \<and> Option.bind (raw_data ev) dr_corrId = Some (dt_corrId tgt) then raw_data ev else None) evs
     in if rs = [] then None else Some (RenderResponse (last rs)))"
proof -
  have "answer_for s (dt_corrId tgt) = (\<lambda>ev. if event_from (raw_metadata ev) = s
      \<and> Option.bind (raw_data ev) dr_corrId = Some (dt_corrId tgt) then raw_data ev else None)"
    using assms by (simp add: fun_eq_iff answer_for_def)
  then show ?thesis by (simp add: dns_cell_def dns_run_lookup Let_def)
qed

text \<open>A cell of the answers table shows the latest response of its source for its target and no
  other: responses without a correlation id or a source, and responses for other cells, never
  change it; before the first response it reads \<^verbatim>\<open>(No Data)\<close>.\<close>

theorem dns_cell_latest:
  assumes "s \<noteq> []" and "dt_corrId tgt \<noteq> []"
  shows "dns_cell (dns_run evs) s tgt =
    (let rs = List.map_filter (\<lambda>ev. if event_from (raw_metadata ev) = s
                 \<and> Option.bind (raw_data ev) dr_corrId = Some (dt_corrId tgt) then raw_data ev else None) evs
     in if rs = [] then None else Some (RenderResponse (last rs)))"
  by (rule dns_cell_of_run [OF assms])

definition sample_response :: "string \<Rightarrow> DNSResponse" where
  "sample_response a =
     \<lparr>dr_corrId = Some ''0'', dr_server = None, dr_target = None, dr_query_type = None, dr_answers = None,
      dr_answer_strings = Some [a], dr_error = None, dr_err_string = None, dr_io_timeout = None,
      dr_no_such_host = None, dr_elapsed = None, dr_started_at = None, dr_timeout_specified = None,
      dr_transport_used = None\<rparr>"

definition sample_dns_event :: "string \<Rightarrow> string \<Rightarrow> DNSResponse RawPingEvent" where
  "sample_dns_event from a =
     \<lparr>raw_data = Some (sample_response a), raw_metadata = Some \<lparr>meta_from = Some from, meta_target = None\<rparr>,
      raw_err = None, raw_error = None\<rparr>"

definition sample_dns_target :: DNSTarget where
  "sample_dns_target = make_dns_target
     \<lparr>plan_transport = None, plan_type = None, plan_domains = None, plan_resolvers = None,
      plan_domainsInput = None, plan_resolversInput = None, plan_serverNameMapInput = None\<rparr>
     Map.empty 0 ''example.com'' ''1.1.1.1''"

lemma dns_cell_latest_witness:
  "dns_cell (dns_run [sample_dns_event ''nyc'' ''1.2.3.4'', sample_dns_event ''lax'' ''9.9.9.9'',
      sample_dns_event ''nyc'' ''5.6.7.8'']) ''nyc'' sample_dns_target = Some [''5.6.7.8'']"
proof -
  have c: "dt_corrId sample_dns_target = ''0''"
  proof -
    have "nat_to_string 0 = ''0''" by code_simp
    then show ?thesis by (simp add: sample_dns_target_def)
  qed
  then show ?thesis
    using dns_cell_latest [of "''nyc''" sample_dns_target "[sample_dns_event ''nyc'' ''1.2.3.4'',
        sample_dns_event ''lax'' ''9.9.9.9'', sample_dns_event ''nyc'' ''5.6.7.8'']"]
    by (simp add: sample_dns_event_def sample_response_def event_from_def map_filter_simps RenderResponse_def RenderRTT_def)
qed

text \<open>A response whose only failure mark is \<open>error\<close> renders as an empty cell: \<open>RenderResponse\<close>
  takes the error branch, which looks at every field except \<open>error\<close>; answers that came with it
  are not shown either.\<close>

theorem error_only_response_is_blank:
  assumes "truthy_str (dr_error r)" and "\<not> truthy_str (dr_err_string r)"
    and "\<not> truthy_bool (dr_no_such_host r)" and "\<not> truthy_bool (dr_io_timeout r)"
  shows "RenderResponse r = []"
  using assms by (simp add: RenderResponse_def RenderError_def)

lemma error_only_response_is_blank_witness:
  "RenderResponse ((sample_response ''1.2.3.4'')\<lparr>dr_error := Some ''refused''\<rparr>) = []"
  by (rule error_only_response_is_blank) (simp_all add: sample_response_def)

end
