(* ===== verification/Traceroute_Display.thy ===== *)
theory Traceroute_Display
  imports Ping_Display
begin

text \<open>
  \<^verbatim>\<open>web/components/traceroutedisplay.tsx\<close>: the live traceroute view. The stream of raw events is
  folded into one statistics object per source, shown as a table with coloured round trip times
  and as markers and great circle paths on the map; stopping freezes a snapshot, resuming starts a
  new stream from empty statistics.
\<close>

section \<open>The round trip time cell\<close>

text \<open>\<open>parseMs\<close>: \<^verbatim>\<open>/^(\d+(?:\.\d+)?)ms$/\<close>.\<close>

definition digits :: "string \<Rightarrow> bool" where
  "digits s \<longleftrightarrow> s \<noteq> [] \<and> list_all is_digit s"

definition digits_value :: "string \<Rightarrow> rat" where
  "digits_value s = of_int (nullish (js_parseInt s) 0)"

definition parseMs :: "string \<Rightarrow> rat option" where
  "parseMs s =
     (if \<not> js_endsWith s ''ms'' then None
      else case js_split CHR ''.'' (take (length s - 2) s) of
             [a] \<Rightarrow> if digits a then Some (digits_value a) else None
           | [a, b] \<Rightarrow> if digits a \<and> digits b then Some (digits_value a + digits_value b / 10 ^ length b) else None
           | _ \<Rightarrow> None)"

datatype rtt_view = Rtt_nothing | Rtt_plain string | Rtt_parts "(string \<times> string) list"

text \<open>The parts carry their colours; the first is the last round trip time, the others are shown
  between slashes.\<close>

definition RttCell :: "string \<Rightarrow> rtt_view" where
  "RttCell value =
     (if value = [] then Rtt_nothing
      else if value = ''* */*/*'' then Rtt_plain value
      else case js_indexOf CHR '' '' value of
             None \<Rightarrow> Rtt_plain value
           | Some spaceIdx \<Rightarrow>
               (let lastRttStr = take spaceIdx value; minAvgMaxStr = drop (spaceIdx + 1) value
                in Rtt_parts ((lastRttStr, getLatencyColor (parseMs lastRttStr))
                     # map (\<lambda>part. (part, getLatencyColor (parseMs part))) (js_split CHR ''/'' minAvgMaxStr))))"

section \<open>The node the trace starts from\<close>

definition node_attr :: "ConnEntry \<Rightarrow> string \<Rightarrow> string option" where
  "node_attr node key = Option.bind (attributes node) (\<lambda>a. map_of a key)"

definition DisplayCurrentNode :: "ConnEntry option \<Rightarrow> string \<Rightarrow> (string \<times> string) option" where
  "DisplayCurrentNode currentNode target =
     (case currentNode of
        None \<Rightarrow> None
      | Some node \<Rightarrow>
          (let city = node_attr node NodeAttrCityName; countryAlpha2 = node_attr node NodeAttrCountryCode;
               ispASN = node_attr node NodeAttrASN; ispName = node_attr node NodeAttrISP;
               dn42ISPASN = node_attr node NodeAttrDN42ASN; dn42ISPName = node_attr node NodeAttrDN42ISP;
               nodeDisplayName = map_option js_toUpperCase (node_name node);
               nodeInfos =
                 (if truthy_str nodeDisplayName then [[''Node'', the nodeDisplayName]] else [])
                 @ (if truthy_str ispASN then [if truthy_str ispName then [the ispASN, the ispName] else [the ispASN]] else [])
                 @ (if truthy_str countryAlpha2
                    then [if truthy_str city then [the city, the countryAlpha2] else [the countryAlpha2]] else [])
                 @ (if truthy_str dn42ISPASN
                    then [if truthy_str dn42ISPName then [''DN42'', the dn42ISPASN, the dn42ISPName]
                          else [''DN42'', the dn42ISPASN]] else [])
           in Some (''From: '' @ js_join '', '' (map (\<lambda>word. js_join '' '' (filter (\<lambda>s. s \<noteq> []) word)) nodeInfos),
                    ''To: '' @ target)))"

section \<open>Markers and paths\<close>

definition located_event :: "TraceEvent \<Rightarrow> bool" where
  "located_event ev \<longleftrightarrow> te_ExactLocation ev \<noteq> None \<and> \<not> te_Timeout ev"

definition peer_marker :: "int \<Rightarrow> PeerStats \<Rightarrow> Marker option" where
  "peer_marker hopTTL ps =
     (if ps_ReceivedCount ps = 0 then None
      else case Option.bind (List.find located_event (ps_Events ps)) te_ExactLocation of
        None \<Rightarrow> None
      | Some exactLoc \<Rightarrow>
          Some \<lparr>lonLat = (Longitude exactLoc, Latitude exactLoc),
                mk_fill = Some (getLatencyColor (Some (of_int (AvgRTT ps)))),
                mk_radius = Some 8, mk_strokeWidth = Some 3, mk_stroke = Some ''white'',
                mk_tooltip = Some ([''TTL: '' @ int_to_string hopTTL, ''IP: '' @ ps_Peer ps]
                  @ (if ps_PeerRDNS ps \<noteq> [] then [''RDNS: '' @ ps_PeerRDNS ps] else [])),
                mk_open = None,
                mk_index = Some (''TTL='' @ int_to_string hopTTL @ '', IP='' @ ps_Peer ps),
                mk_metadata = Some [(''ttl'', hopTTL)]\<rparr>)"

definition sample_markers :: "TraceStats \<Rightarrow> Marker list" where
  "sample_markers st =
     concat (map (\<lambda>hopTTL. case map_of (Hops st) hopTTL of
         None \<Rightarrow> []
       | Some hop \<Rightarrow> List.map_filter (\<lambda>k. Option.bind (map_of (hg_Peers hop) k) (peer_marker hopTTL)) (hg_PeerOrder hop))
       (HopOrder st))"

text \<open>The path between two markers; \<open>geo\<close> is \<open>toGeodesicPaths\<close> with 200 points.\<close>

definition join_markers ::
  "(real \<times> real \<Rightarrow> real \<times> real \<Rightarrow> Path list) \<Rightarrow> rat \<Rightarrow> Marker \<Rightarrow> Marker \<Rightarrow> Path list" where
  "join_markers geo ratio a b =
     map (\<lambda>path. path\<lparr>path_stroke := Some ''green'', path_strokeWidth := Some (4 * ratio)\<rparr>)
       (geo (of_rat (snd (lonLat a)), of_rat (fst (lonLat a))) (of_rat (snd (lonLat b)), of_rat (fst (lonLat b))))"

definition scale_marker :: "rat \<Rightarrow> Marker \<Rightarrow> Marker" where
  "scale_marker ratio m =
     m\<lparr>mk_radius := (case mk_radius m of Some r \<Rightarrow> if r \<noteq> 0 then Some (r * ratio) else None | None \<Rightarrow> None),
       mk_strokeWidth := (case mk_strokeWidth m of Some w \<Rightarrow> if w \<noteq> 0 then Some (w * ratio) else None | None \<Rightarrow> None)\<rparr>"

definition markers_and_paths ::
  "(real \<times> real \<Rightarrow> real \<times> real \<Rightarrow> Path list) \<Rightarrow> TraceStats option \<Rightarrow> Marker list \<Rightarrow> rat \<Rightarrow> Marker list \<times> Path list option" where
  "markers_and_paths geo traceStats sourceMarkers ratio =
     (case traceStats of
        None \<Rightarrow> ([], None)
      | Some st \<Rightarrow>
          (let sampleMarkers = sample_markers st;
               samplePaths = concat (map (\<lambda>j. join_markers geo ratio (sampleMarkers ! (j - 1)) (sampleMarkers ! j))
                                       [1..<length sampleMarkers]);
               markers = map (scale_marker ratio) (sourceMarkers @ sampleMarkers);
               srcPaths = (if length sourceMarkers > 0 \<and> length sampleMarkers > 0
                           then join_markers geo ratio (sourceMarkers ! 0) (sampleMarkers ! 0) else [])
           in (markers, if length srcPaths > 0 \<or> length samplePaths > 0 then Some (srcPaths @ samplePaths) else None)))"

definition getMarkersAndPaths ::
  "'q quaternions \<Rightarrow> TraceStats option \<Rightarrow> Marker list \<Rightarrow> rat \<Rightarrow> Marker list \<times> Path list option" where
  "getMarkersAndPaths Q = markers_and_paths (\<lambda>a b. toGeodesicPaths Q a b 200)"

text \<open>The marker of the source: the first group of the agent whose tab is open.\<close>

definition source_markers :: "Conns option \<Rightarrow> string \<Rightarrow> Marker list" where
  "source_markers conns tabValue =
     (case getNodeGroups (nullish conns []) {tabValue} of
        [] \<Rightarrow> []
      | node # rest \<Rightarrow>
          [\<lparr>lonLat = (snd (ng_latLon node), fst (ng_latLon node)), mk_fill = Some ''blue'', mk_radius = Some 8,
            mk_strokeWidth = Some 3, mk_stroke = Some ''white'', mk_tooltip = None, mk_open = None,
            mk_index = Some ''(SRC)'', mk_metadata = None\<rparr>])"

definition current_node :: "Conns option \<Rightarrow> string \<Rightarrow> ConnEntry option" where
  "current_node conns tabValue = List.find (\<lambda>entry. node_name entry = Some tabValue) (map snd (nullish conns []))"

section \<open>The shared report\<close>

text \<open>\<open>a + " " + b\<close> with an absent operand prints \<open>undefined\<close>.\<close>

definition buildTracerouteReport :: "int \<Rightarrow> ConnEntry \<Rightarrow> string \<Rightarrow> TracerouteReportMode \<Rightarrow> TracerouteReport" where
  "buildTracerouteReport now src target mode =
     (let isp = node_attr src NodeAttrISP; asn = node_attr src NodeAttrASN;
          asn = (if truthy_str asn \<and> truthy_str isp then Some (the asn @ '' '' @ the isp) else asn);
          dn42ASN = node_attr src NodeAttrDN42ASN; dn42ISP = node_attr src NodeAttrDN42ISP;
          dn42ASN = (if truthy_str dn42ASN \<or> truthy_str dn42ISP
                     then Some (template_opt dn42ASN @ '' '' @ template_opt dn42ISP) else dn42ASN)
      in \<lparr>tr_date = now,
          tr_sources =
            [\<lparr>rs_nodeName = str_or (map_option js_toUpperCase (node_name src)) ''unknown'',
              rs_isp = Some \<lparr>ri_ispName = [], ri_asn = [],
                             ri_network = Some (js_join '' | '' (map the (filter truthy_str [asn, dn42ASN])))\<rparr>,
              rs_loc = Some \<lparr>rl_city = Some (str_or (node_attr src NodeAttrCityName) ''unknown''),
                             rl_countryAlpha2 = Some (str_or (node_attr src NodeAttrCountryCode) ''unknown'')\<rparr>\<rparr>],
          tr_destination = target, tr_mode = mode\<rparr>)"

definition share_traceroute ::
  "int \<Rightarrow> PendingTask \<Rightarrow> ConnEntry option \<Rightarrow> TraceStats option \<Rightarrow> TracerouteReport option" where
  "share_traceroute now task src traceStats =
     (let target = (case targets task of [] \<Rightarrow> [] | t # ts \<Rightarrow> t)
      in case src of
           None \<Rightarrow> None
         | Some node \<Rightarrow>
             if target \<noteq> [] \<and> traceStats \<noteq> None
             then Some (buildTracerouteReport now node target (if truthy_bool (useUDP task) then Mode_udp else Mode_icmp))
             else None)"

section \<open>Reading the events\<close>

definition TraceEventAdapter ::
  "RawPingEventData RawPingEvent list \<Rightarrow> (RawPingEventData RawPingEvent \<times> TraceEvent) list" where
  "TraceEventAdapter raws = List.map_filter (\<lambda>raw. map_option (Pair raw) (fromRaw raw)) raws"

definition trace_request :: "string \<Rightarrow> PendingTask \<Rightarrow> PingRequest" where
  "trace_request resolver task =
     \<lparr>pr_sources = sources task, pr_targets = take 1 (targets task), pr_count = None,
      pr_intervalMs = 300, pr_pktTimeoutMs = 3000, pr_resolver = Some resolver, pr_ttl = Some ''auto'',
      pr_ipInfoProviderName = Some ''auto'', pr_preferV4 = preferV4 task, pr_preferV6 = preferV6 task,
      pr_l4PacketType = Some (if truthy_bool (useUDP task) then L4_udp else L4_icmp),
      pr_randomPayloadSize = (if truthy_bool (pmtu task) then Some 1500 else None)\<rparr>"

type_synonym stats_map = "(string \<times> TraceStats) list"

definition write_stats :: "stats_map \<Rightarrow> RawPingEventData RawPingEvent \<times> TraceEvent \<Rightarrow> stats_map" where
  "write_stats prev value =
     (let src = event_from (raw_metadata (fst value))
      in if src = [] then prev
         else AList.update src (trace_WriteEvent (nullish (map_of prev src) newTraceStats) (snd value)) prev)"

text \<open>The hook. \<open>th_reader\<close> is the state of the current stream: none, being fetched, or read from;
  an aborted stream has no further effect.\<close>

datatype reader_phase = No_stream | Fetching | Reading

record trace_hook =
  traceStatsMap :: stats_map
  snapshop :: "stats_map option"
  hook_running :: bool
  hook_paused :: bool
  th_reader :: reader_phase

datatype trace_move =
    T_body bool
  | T_event "RawPingEventData RawPingEvent \<times> TraceEvent"
  | T_done
  | T_error
  | T_stop
  | T_resume
  | T_new_task

definition start_effect :: "trace_hook \<Rightarrow> trace_hook" where
  "start_effect h = (if hook_paused h then h else h\<lparr>th_reader := Fetching\<rparr>)"

definition trace_cleanup :: "trace_hook \<Rightarrow> trace_hook" where
  "trace_cleanup h = (if hook_paused h then h
     else h\<lparr>th_reader := No_stream, hook_running := False, traceStatsMap := []\<rparr>)"

definition stopTick :: "trace_hook \<Rightarrow> trace_hook" where
  "stopTick h = start_effect ((trace_cleanup (h\<lparr>snapshop := Some (traceStatsMap h), th_reader := No_stream\<rparr>))\<lparr>hook_paused := True\<rparr>)"

definition resumeTick :: "trace_hook \<Rightarrow> trace_hook" where
  "resumeTick h = (if hook_paused h then start_effect (h\<lparr>hook_paused := False, snapshop := None\<rparr>)
     else h\<lparr>snapshop := None\<rparr>)"

definition button_disabled :: "trace_hook \<Rightarrow> bool" where
  "button_disabled h \<longleftrightarrow> (hook_paused h \<and> hook_running h) \<or> (\<not> hook_paused h \<and> \<not> hook_running h)"

definition trace_init :: trace_hook where
  "trace_init = start_effect \<lparr>traceStatsMap = [], snapshop = None, hook_running = False, hook_paused = False, th_reader = No_stream\<rparr>"

fun trace_step :: "trace_hook \<Rightarrow> trace_move \<Rightarrow> trace_hook" where
  "trace_step h (T_body has_body) =
     (if th_reader h = Fetching
      then (if has_body then h\<lparr>th_reader := Reading, hook_running := True\<rparr> else h\<lparr>th_reader := No_stream\<rparr>) else h)"
| "trace_step h (T_event value) =
     (if th_reader h = Reading then h\<lparr>traceStatsMap := write_stats (traceStatsMap h) value\<rparr> else h)"
| "trace_step h T_done =
     (if th_reader h = Reading then h\<lparr>th_reader := No_stream, hook_running := False\<rparr> else h)"
| "trace_step h T_error = h\<lparr>th_reader := No_stream\<rparr>"
| "trace_step h T_stop = (if \<not> button_disabled h \<and> hook_running h then stopTick h else h)"
| "trace_step h T_resume = (if \<not> button_disabled h \<and> \<not> hook_running h then resumeTick h else h)"
| "trace_step h T_new_task = start_effect (trace_cleanup h)"

definition shown_stats :: "trace_hook \<Rightarrow> stats_map" where
  "shown_stats h = nullish (snapshop h) (traceStatsMap h)"

section \<open>The table view\<close>

record table_row_view =
  tv_cells :: "(string + rtt_view) list"
  tv_hopFirstRow :: bool
  tv_isLastOfHop :: bool

definition row_view :: "Row list \<Rightarrow> nat \<Rightarrow> table_row_view option" where
  "row_view rs rowIdx =
     (let row = rs ! rowIdx
      in if truthy_bool (spacer row) then None
         else (let hopFirstRow = (case cells row of [] \<Rightarrow> False | c # cs \<Rightarrow> c \<noteq> [])
               in Some \<lparr>tv_cells = map (\<lambda>i. if hopFirstRow \<and> i = 2 then Inr (RttCell (cells row ! i)) else Inl (cells row ! i))
                                     [0..<length (cells row)],
                        tv_hopFirstRow = hopFirstRow,
                        tv_isLastOfHop = (rowIdx = length rs - 1 \<or> truthy_bool (spacer (rs ! (rowIdx + 1))))\<rparr>))"

definition table_view :: "Table \<Rightarrow> string list list \<times> table_row_view list" where
  "table_view t = (map cells (header t), List.map_filter (row_view (rows t)) [0..<length (rows t)])"

section \<open>What is shown is the statistics of the events of one stream\<close>

type_synonym trace_value = "RawPingEventData RawPingEvent \<times> TraceEvent"

definition value_source :: "trace_value \<Rightarrow> string" where
  "value_source v = event_from (raw_metadata (fst v))"

definition stats_of :: "trace_value list \<Rightarrow> stats_map" where
  "stats_of vs = group_by (\<lambda>st v. trace_WriteEvent st (snd v)) (\<lambda>_. newTraceStats) value_source
     (filter (\<lambda>v. value_source v \<noteq> []) vs)"

lemma stats_of_snoc: "stats_of (vs @ [v]) = write_stats (stats_of vs) v"
  by (simp add: stats_of_def write_stats_def value_source_def [symmetric] upsert_def Let_def)

lemma stats_of_lookup:
  assumes "src \<noteq> []"
  shows "map_of (stats_of vs) src =
     (let evs = map snd (filter (\<lambda>v. value_source v = src) vs)
      in if evs = [] then None else Some (trace_run evs))"
proof -
  have f: "filter (\<lambda>v. value_source v \<noteq> [] \<and> value_source v = src) vs = filter (\<lambda>v. value_source v = src) vs"
    using assms by (intro filter_cong) auto
  show ?thesis by (simp add: stats_of_def map_of_group_by f Let_def trace_run_def foldl_map)
qed

text \<open>The specification of the hook: the events of the current stream, and those that were shown when
  it was stopped.\<close>

record trace_spec =
  sp_events :: "trace_value list"
  sp_frozen :: "trace_value list option"
  sp_running :: bool
  sp_paused :: bool
  sp_reader :: reader_phase

definition spec_init :: trace_spec where
  "spec_init = \<lparr>sp_events = [], sp_frozen = None, sp_running = False, sp_paused = False, sp_reader = Fetching\<rparr>"

fun spec_step :: "trace_spec \<Rightarrow> trace_move \<Rightarrow> trace_spec" where
  "spec_step s (T_body b) =
     (if sp_reader s = Fetching
      then s\<lparr>sp_reader := (if b then Reading else No_stream), sp_running := (b \<or> sp_running s)\<rparr> else s)"
| "spec_step s (T_event v) = (if sp_reader s = Reading then s\<lparr>sp_events := sp_events s @ [v]\<rparr> else s)"
| "spec_step s T_done =
     (if sp_reader s = Reading then s\<lparr>sp_reader := No_stream, sp_running := False\<rparr> else s)"
| "spec_step s T_error = s\<lparr>sp_reader := No_stream\<rparr>"
| "spec_step s T_stop =
     (if sp_running s \<and> \<not> sp_paused s
      then \<lparr>sp_events = [], sp_frozen = Some (sp_events s), sp_running = False, sp_paused = True, sp_reader = No_stream\<rparr>
      else s)"
| "spec_step s T_resume =
     (if \<not> sp_running s \<and> sp_paused s
      then s\<lparr>sp_frozen := None, sp_paused := False, sp_reader := Fetching\<rparr> else s)"
| "spec_step s T_new_task =
     (if sp_paused s then s
      else s\<lparr>sp_events := [], sp_running := False, sp_reader := Fetching\<rparr>)"

definition hook_of :: "trace_spec \<Rightarrow> trace_hook" where
  "hook_of s =
     \<lparr>traceStatsMap = stats_of (sp_events s), snapshop = map_option stats_of (sp_frozen s),
      hook_running = sp_running s, hook_paused = sp_paused s, th_reader = sp_reader s\<rparr>"

lemma stats_of_Nil [simp]: "stats_of [] = []"
  by (simp add: stats_of_def)

lemma hook_step_spec: "trace_step (hook_of s) mv = hook_of (spec_step s mv)"
  by (cases mv) (auto simp: hook_of_def stats_of_snoc button_disabled_def stopTick_def resumeTick_def
      trace_cleanup_def start_effect_def)

lemma hook_run_spec: "foldl trace_step trace_init mvs = hook_of (foldl spec_step spec_init mvs)"
proof (induction mvs rule: rev_induct)
  case Nil
  show ?case by (simp add: trace_init_def start_effect_def spec_init_def hook_of_def)
next
  case (snoc mv mvs)
  then show ?case by (simp add: hook_step_spec)
qed

definition shown_events_of :: "trace_move list \<Rightarrow> trace_value list" where
  "shown_events_of mvs = (let s = foldl spec_step spec_init mvs in nullish (sp_frozen s) (sp_events s))"

text \<open>C5. Whatever the fetches, events, ends, failures, stops, resumes and new tasks, the statistics
  shown for a source are those of exactly the events of that source that the current stream has
  delivered, or, while stopped, had delivered when it was stopped: nothing of an earlier stream is
  mixed in, and events without a source are dropped.\<close>

theorem trace_view_of_moves:
  "foldl trace_step trace_init mvs = hook_of (foldl spec_step spec_init mvs)
   \<and> map_of (shown_stats (foldl trace_step trace_init mvs)) (c # src) =
      (case map snd (filter (\<lambda>v. value_source v = c # src) (shown_events_of mvs)) of
         [] \<Rightarrow> None
       | e # es \<Rightarrow> Some (trace_run (e # es)))"
proof -
  have n: "nullish (map_option stats_of x) (stats_of y) = stats_of (nullish x y)" for x y by (cases x) simp_all
  show ?thesis
    by (simp add: hook_run_spec shown_stats_def shown_events_of_def hook_of_def n stats_of_lookup Let_def
        split: list.splits)
qed

definition unattended_move :: "trace_move \<Rightarrow> bool" where
  "unattended_move mv = (case mv of T_body b \<Rightarrow> True | T_event v \<Rightarrow> True | T_done \<Rightarrow> True | T_error \<Rightarrow> True | _ \<Rightarrow> False)"

text \<open>After a failed read the view stays running: from then on no event, end or failure changes
  it until the user stops it, although there is no stream any more.\<close>

theorem failed_trace_stays_running:
  assumes "th_reader h = Reading" and "hook_running h" and "list_all unattended_move mvs"
  shows "foldl trace_step h (T_error # mvs) = h\<lparr>th_reader := No_stream\<rparr>
    \<and> hook_running (foldl trace_step h (T_error # mvs))"
proof -
  have "foldl trace_step (h\<lparr>th_reader := No_stream\<rparr>) mvs = h\<lparr>th_reader := No_stream\<rparr>"
    using assms(3)
  proof (induction mvs rule: rev_induct)
    case (snoc mv mvs)
    then show ?case by (cases mv) (simp_all add: unattended_move_def)
  qed simp
  then show ?thesis using assms(2) by simp
qed

lemma failed_trace_stays_running_witness:
  "hook_running (foldl trace_step (trace_step trace_init (T_body True)) [T_error, T_done])"
proof -
  let ?h = "trace_step trace_init (T_body True)"
  have "th_reader ?h = Reading" "hook_running ?h" "list_all unattended_move [T_done]"
    by (simp_all add: trace_init_def start_effect_def unattended_move_def)
  from failed_trace_stays_running [OF this] show ?thesis by simp
qed

section \<open>The coloured round trip times\<close>

lemma split_digits:
  assumes "list_all is_digit s" and "\<not> is_digit c" shows "js_split c s = [s]"
  using assms by (induction s) auto

lemma not_digits: "\<not> is_digit CHR ''.''" "\<not> is_digit CHR ''/''" "\<not> is_digit CHR ''m''" "\<not> is_digit CHR '' ''"
  "\<not> is_digit CHR ''s''" by (simp_all add: is_digit_def)

lemma nat_digits: "digits (nat_to_string n)"
  by (simp add: digits_def list_all_iff nat_to_string_digits)

lemma parseMs_nat: "parseMs (nat_to_string n @ ''ms'') = Some (of_nat n)"
  using nat_digits [of n] split_digits [OF _ not_digits(1), of "nat_to_string n"]
  by (simp add: parseMs_def js_endsWith_def digits_value_def digits_def suffix_def)

lemma indexOf_append: "c \<notin> set s \<Longrightarrow> js_indexOf c (s @ c # t) = Some (length s)"
  by (induction s) auto

definition ms_text :: "int \<Rightarrow> string" where
  "ms_text i = int_to_string i @ ''ms''"

lemma ms_text:
  assumes "0 \<le> i" and "\<not> is_digit c" and "c \<noteq> CHR ''m''" and "c \<noteq> CHR ''s''"
  shows "c \<notin> set (ms_text i)"
  using assms nat_to_string_digits [of c "nat i"] by (auto simp: ms_text_def int_to_string_def)

lemma parseMs_text: "0 \<le> i \<Longrightarrow> parseMs (ms_text i) = Some (of_int i)"
  using parseMs_nat [of "nat i"] by (simp add: ms_text_def int_to_string_def)

text \<open>The table cell printed by \<open>ToTable\<close> is read back by \<open>RttCell\<close>: for a peer with replies the
  last, smallest, average and largest round trip times each get the colour of their own value, and
  a peer without replies is shown as it is printed.\<close>

theorem rtt_cell_colours:
  assumes "0 \<le> lastRTT ps" and "0 \<le> ps_MinRTT ps" and "0 \<le> AvgRTT ps" and "0 \<le> ps_MaxRTT ps"
  shows "RttCell (rttCell ps) =
     (if ps_ReceivedCount ps > 0 \<and> ps_Events ps \<noteq> []
      then Rtt_parts (map (\<lambda>i. (ms_text i, getLatencyColor (Some (of_int i))))
                        [lastRTT ps, ps_MinRTT ps, AvgRTT ps, ps_MaxRTT ps])
      else if isTimeoutPeer ps then Rtt_nothing else Rtt_plain ''* */*/*'')"
proof (cases "ps_ReceivedCount ps > 0 \<and> ps_Events ps \<noteq> []")
  case False
  then show ?thesis by (auto simp: rttCell_def RttCell_def)
next
  case True
  let ?v = "ms_text (lastRTT ps) @ CHR '' '' # ms_text (ps_MinRTT ps) @ CHR ''/'' # ms_text (AvgRTT ps)
      @ CHR ''/'' # ms_text (ps_MaxRTT ps)"
  have v: "rttCell ps = ?v"
    using True by (simp add: rttCell_def isTimeoutPeer_def ms_text_def AvgRTT_def)
  have sp: "CHR '' '' \<notin> set (ms_text (lastRTT ps))" and sl: "CHR ''/'' \<notin> set (ms_text i)" if "0 \<le> i" for i
    using ms_text [OF assms(1) not_digits(4)] ms_text [OF that not_digits(2)] by auto
  have "?v \<noteq> []" by (simp add: ms_text_def)
  have star: "?v \<noteq> ''* */*/*''"
  proof
    assume "?v = ''* */*/*''"
    then have "hd ?v = CHR ''*''" by simp
    moreover have "is_digit (hd ?v)"
      using assms(1) nat_to_string_digits [OF hd_in_set [OF nat_to_string_not_Nil], of "nat (lastRTT ps)"]
      by (simp add: ms_text_def int_to_string_def hd_append)
    ultimately show False by (simp add: is_digit_def)
  qed
  show ?thesis
    using True assms star \<open>?v \<noteq> []\<close>
    by (simp only: v RttCell_def indexOf_append [OF sp [OF assms(1)]] if_True if_False option.case Let_def)
       (simp add: js_split_append_no_sep js_split_single sl parseMs_text)
qed

lemma rtt_cell_colours_witness:
  "RttCell (rttCell (peer_run [sample_event 1 2 3 ''192.168.1.1'', sample_event 1 3 150 ''192.168.1.1'']))
   = Rtt_parts (map (\<lambda>i. (ms_text i, getLatencyColor (Some (of_int i)))) [150, 3, 76, 150])"
proof -
  let ?p = "peer_run [sample_event 1 2 3 ''192.168.1.1'', sample_event 1 3 150 ''192.168.1.1'']"
  have f: "lastRTT ?p = 150" "ps_MinRTT ?p = 3" "AvgRTT ?p = 76" "ps_MaxRTT ?p = 150" "ps_ReceivedCount ?p = 2" "ps_Events ?p \<noteq> []"
    by code_simp+
  then show ?thesis using rtt_cell_colours [of ?p] by simp
qed

section \<open>The paths join neighbouring markers\<close>

text \<open>The paths on the map are exactly those between neighbouring markers, in order: from the first
  source marker to the first located peer and on from each located peer to the next in hop order;
  peers without a reply or a location are skipped, and without any path there is none.\<close>

theorem paths_join_neighbours:
  "markers_and_paths geo (Some st) srcMarkers ratio =
     (let ms = take 1 srcMarkers @ sample_markers st;
          ps = concat (map (\<lambda>(a, b). join_markers geo ratio a b) (zip ms (tl ms)))
      in (map (scale_marker ratio) (srcMarkers @ sample_markers st), if ps = [] then None else Some ps))"
proof -
  let ?ss = "sample_markers st"
  have pairs: "map (\<lambda>j. f (xs ! (j - 1)) (xs ! j)) [1..<length xs] = map (\<lambda>(a, b). f a b) (zip xs (tl xs))"
    for f :: "Marker \<Rightarrow> Marker \<Rightarrow> Path list" and xs
    by (rule nth_equalityI) (auto simp: nth_tl)
  have "zip (take 1 srcMarkers @ ?ss) (tl (take 1 srcMarkers @ ?ss)) =
      (if srcMarkers \<noteq> [] \<and> ?ss \<noteq> [] then [(srcMarkers ! 0, ?ss ! 0)] else []) @ zip ?ss (tl ?ss)"
    by (cases srcMarkers; cases ?ss) simp_all
  then have z: "concat (map (\<lambda>(a, b). join_markers geo ratio a b) (zip (take 1 srcMarkers @ ?ss) (tl (take 1 srcMarkers @ ?ss)))) =
      (if length srcMarkers > 0 \<and> length ?ss > 0 then join_markers geo ratio (srcMarkers ! 0) (?ss ! 0) else [])
      @ concat (map (\<lambda>(a, b). join_markers geo ratio a b) (zip ?ss (tl ?ss)))" by simp
  show ?thesis
    unfolding markers_and_paths_def option.case Let_def pairs [of "join_markers geo ratio"] z length_greater_0_conv
      append_is_Nil_conv de_Morgan_conj
    by (rule arg_cong [where f = "Pair _"]) argo
qed

section \<open>The shared report\<close>

text \<open>A node that announces only one of the two DN42 attributes gets a report whose source line
  contains the word \<open>undefined\<close>, printed for the missing one.\<close>

theorem dn42_report_says_undefined:
  "rs_isp (hd (tr_sources (buildTracerouteReport now
      \<lparr>connected_at = None, last_heartbeat = None, node_name = Some ''lax1'', registered_at = None,
       attributes = Some [(NodeAttrDN42ASN, ''AS4242420001'')]\<rparr> ''example.org'' Mode_icmp)))
   = Some \<lparr>ri_ispName = [], ri_asn = [], ri_network = Some ''AS4242420001 undefined''\<rparr>"
  by (simp add: buildTracerouteReport_def Let_def node_attr_def template_opt_def NodeAttrISP_def NodeAttrASN_def
      NodeAttrDN42ASN_def NodeAttrDN42ISP_def)

section \<open>The shape of the table\<close>

text \<open>A row of \<open>n\<close> cells or a spacer; a table of such rows; a row of the view whose cells are texts, but
  for the times of a hop's first row.\<close>

definition row_ok :: "nat \<Rightarrow> Row \<Rightarrow> bool" where
  "row_ok n r \<longleftrightarrow> (spacer r = Some True \<and> cells r = []) \<or> (spacer r = Some False \<and> length (cells r) = n)"

definition table_ok :: "nat \<Rightarrow> Table \<Rightarrow> bool" where
  "table_ok n t \<longleftrightarrow> list_all (\<lambda>r. row_ok n r \<and> spacer r = Some False) (header t) \<and> list_all (row_ok n) (rows t)"

definition row_view_ok :: "table_row_view \<Rightarrow> bool" where
  "row_view_ok v \<longleftrightarrow> map isl (tv_cells v) = [True, True, \<not> tv_hopFirstRow v, True]"

lemma peer_rows_ok: "list_all (row_ok 4) (peer_rows c ps)"
  by (simp add: peer_rows_def row_ok_def fromCells_def)

lemma hop_rows_ok: "list_all (row_ok 4) (hop_rows h ps b ks)"
  by (induction h ps b ks rule: hop_rows.induct) (auto simp: peer_rows_ok split: option.split)

lemma spacerRow_ok [simp]: "row_ok n spacerRow" by (simp add: row_ok_def spacerRow_def)

lemma table_loop_ok: "list_all (row_ok 4) (table_loop hops n hs)"
  by (induction hops n hs rule: table_loop.induct)
    (auto simp: hop_rows_ok split: option.split)

lemma ToTable_ok: "table_ok 4 (ToTable st)"
  by (simp add: table_ok_def ToTable_def trace_header_def row_ok_def fromCells_def table_loop_ok)

lemma row_view_typed:
  assumes "row_ok 4 (rs ! i)" and "row_view rs i = Some v"
  shows "row_view_ok v"
proof -
  have "length (cells (rs ! i)) = 4" "v = the (row_view rs i)"
    using assms by (auto simp: row_ok_def row_view_def Let_def truthy_bool_def split: if_splits)
  moreover have "[0..<4] = [0, 1, 2, 3 :: nat]" by (simp add: upt_rec)
  ultimately show ?thesis
    using assms(2) by (auto simp: row_view_def row_view_ok_def Let_def split: if_splits list.splits)
qed

definition numbered_row :: "Row \<Rightarrow> bool" where
  "numbered_row r \<longleftrightarrow> spacer r = Some False \<and> hd (cells r) \<noteq> []"

lemma separated_count:
  "\<not> P s \<Longrightarrow> length (filter P (separated s bs)) = sum_list (map (\<lambda>b. length (filter P b)) bs)"
  by (induction s bs rule: separated.induct) simp_all

lemma hop_block_numbered:
  assumes "l \<noteq> []" shows "length (filter numbered_row (hop_block h l)) = 1"
proof -
  have "hg_PeerOrder (hop_run h l) \<noteq> []" using assms hop_order_set [of h l] by auto
  then obtain k ks where k: "hg_PeerOrder (hop_run h l) = k # ks" by (cases "hg_PeerOrder (hop_run h l)") auto
  have "filter numbered_row (concat (map (\<lambda>(i, k). peer_rows (if i = 0 then c else []) (f k)) (List.enumerate (Suc n) ks))) = []"
    for n c f by (induction ks arbitrary: n) (simp_all add: peer_rows_def numbered_row_def fromCells_def)
  then show ?thesis by (simp add: hop_block_def k peer_rows_def numbered_row_def fromCells_def)
qed

lemma numbered_rows_shown:
  "length (filter tv_hopFirstRow (List.map_filter (row_view rs) is))
   = length (filter (\<lambda>i. numbered_row (rs ! i)) is)"
  if "\<forall>i\<in>set is. row_ok 4 (rs ! i)"
  using that
proof (induction "is")
  case (Cons i "is")
  then have "row_ok 4 (rs ! i)" by simp
  then show ?case using Cons
    by (cases "cells (rs ! i)") (auto simp: map_filter_simps row_view_def row_ok_def numbered_row_def Let_def truthy_bool_def)
qed (simp add: map_filter_simps)

text \<open>C22. The shape of the traceroute table, for whatever statistics it is printed from: the rows of the
  header and the rows between spacers have four cells, a spacer has none. In the view every row but
  the spacers is there, a cell is coloured as times exactly if it is the third of a row that carries
  a hop number, and there is one such row for each hop that has events.\<close>

theorem table_well_typed:
  "table_ok 4 (ToTable st) \<and> list_all row_view_ok (snd (table_view (ToTable st)))
   \<and> length (snd (table_view (ToTable st))) = length (filter (\<lambda>r. spacer r = Some False) (rows (ToTable st)))
   \<and> length (filter tv_hopFirstRow (snd (table_view (ToTable (trace_run evs))))) = card {h. live h evs \<noteq> []}"
proof (intro conjI)
  have ok: "row_ok 4 (rows (ToTable st) ! i)" if "i < length (rows (ToTable st))" for st i
    using ToTable_ok [of st] that by (simp add: table_ok_def list_all_length)
  have filter_nth: "length (filter (\<lambda>i. P (rs ! i)) [0..<length rs]) = length (filter P rs)" for P :: "Row \<Rightarrow> bool" and rs
  proof -
    have "filter P rs = filter P (map ((!) rs) [0..<length rs])" by (simp only: map_nth)
    then show ?thesis by (simp add: filter_map comp_def)
  qed
  show "table_ok 4 (ToTable st)" by (rule ToTable_ok)
  show "list_all row_view_ok (snd (table_view (ToTable st)))"
  proof -
    have "row_view_ok v" if v: "v \<in> set (snd (table_view (ToTable st)))" for v
    proof -
      from v obtain i where "i < length (rows (ToTable st))" "row_view (rows (ToTable st)) i = Some v"
        by (auto simp: table_view_def List.map_filter_def)
      then show ?thesis using row_view_typed ok by blast
    qed
    then show ?thesis by (simp add: list_all_iff)
  qed
  have "length (List.map_filter (row_view rs) is) = length (filter (\<lambda>i. spacer (rs ! i) = Some False) is)"
    if "\<forall>i\<in>set is. row_ok 4 (rs ! i)" for rs "is"
    using that by (induction "is") (auto simp: map_filter_simps row_view_def row_ok_def Let_def truthy_bool_def)
  from this [of "[0..<length (rows (ToTable st))]" "rows (ToTable st)"] ok [of _ st]
  show "length (snd (table_view (ToTable st))) = length (filter (\<lambda>r. spacer r = Some False) (rows (ToTable st)))"
    by (simp add: table_view_def filter_nth [of "\<lambda>r. spacer r = Some False"])
  let ?hs = "{h. live h evs \<noteq> []}" and ?t = "ToTable (trace_run evs)"
  have "h \<in> hop_key ` set evs" if "live h evs \<noteq> []" for h
  proof -
    from that have "hd (live h evs) \<in> set (live h evs)" by simp
    then show ?thesis using live_key [of "hd (live h evs)" h evs] live_subset [of h evs]
      by (intro image_eqI [of _ _ "hd (live h evs)"]) auto
  qed
  then have fin: "finite ?hs" by (intro finite_subset [of ?hs "hop_key ` set evs"]) auto
  have "length (filter tv_hopFirstRow (snd (table_view ?t))) = length (filter numbered_row (rows ?t))"
    using numbered_rows_shown [of "[0..<length (rows ?t)]" "rows ?t"] ok [of _ "trace_run evs"]
    by (simp add: table_view_def filter_nth [of numbered_row])
  also have "\<dots> = sum_list (map (\<lambda>h. length (filter numbered_row (hop_block h (live h evs)))) (sorted_list_of_set ?hs))"
  proof -
    have "\<not> numbered_row spacerRow" by (simp add: numbered_row_def spacerRow_def)
    then show ?thesis by (simp add: ToTable_run separated_count comp_def)
  qed
  also have "\<dots> = sum_list (map (\<lambda>h. 1) (sorted_list_of_set ?hs))"
    by (rule arg_cong [where f = sum_list], rule map_cong) (use fin in \<open>auto simp: hop_block_numbered\<close>)
  finally show "length (filter tv_hopFirstRow (snd (table_view ?t))) = card ?hs" by (simp add: sum_list_triv)
qed

end
