(* ===== verification/Address_Class.thy ===== *)
theory Address_Class
  imports Router
begin

text \<open>
  \<^verbatim>\<open>web/apis/nwdesc.ts\<close> (matching a domain against zones), \<^verbatim>\<open>web/apis/useAddressClassify.ts\<close> (an
  input is an address looked up in the route table of the network descriptors, or a domain looked
  up in the domain descriptors) and the label of the target field computed from them in
  \<^verbatim>\<open>web/components/TaskCreatorPanel.tsx\<close>. The package \<open>ipaddr.js\<close> is a parameter.
\<close>

section \<open>Descriptors and zones\<close>

record NetworkDescriptor =
  nd_id :: string
  nd_prefix :: string
  nd_name :: string
  nd_description :: "string option"

record DomainDescriptor =
  dd_id :: string
  dd_zone :: string
  dd_name :: string
  dd_description :: "string option"

definition normalize :: "string \<Rightarrow> string" where
  "normalize zoneOrDomain =
     (let lower = js_toLowerCase zoneOrDomain
      in if js_endsWith lower ''.'' then lower else lower @ ''.'')"

definition zone_matches :: "string \<Rightarrow> DomainDescriptor \<Rightarrow> bool" where
  "zone_matches fqdn desc =
     (let zoneFqdn = normalize (dd_zone desc) in fqdn = zoneFqdn \<or> js_endsWith fqdn (''.'' @ zoneFqdn))"

definition domainDescriptorLookup :: "DomainDescriptor list \<Rightarrow> string \<Rightarrow> DomainDescriptor list" where
  "domainDescriptorLookup descriptors domain =
     (let fqdn = normalize domain
      in js_sort (\<lambda>a b. int (length (dd_zone b)) - int (length (dd_zone a))) (filter (zone_matches fqdn) descriptors))"

section \<open>Classifying an input\<close>

record ip_package =
  pk_isValid :: "string \<Rightarrow> bool"
  pk_parse :: "string \<Rightarrow> IPAddressFamily \<times> 8 word list"
  pk_isValidCIDR :: "string \<Rightarrow> bool"
  pk_parseCIDR :: "string \<Rightarrow> (IPAddressFamily \<times> 8 word list) \<times> int"

fun descriptor_routes :: "ip_package \<Rightarrow> NetworkDescriptor list \<Rightarrow> (IPAddr, NetworkDescriptor) Route list" where
  "descriptor_routes pk [] = []"
| "descriptor_routes pk (desc # rest) =
     (if \<not> pk_isValidCIDR pk (nd_prefix desc) then descriptor_routes pk rest
      else (let (ipObj, len) = pk_parseCIDR pk (nd_prefix desc)
            in \<lparr>networkAddr = \<lparr>data = snd ipObj, family = (if fst ipObj = IPv4 then IPv4 else IPv6)\<rparr>,
                prefixLength = len, route_value = Some desc\<rparr> # descriptor_routes pk rest))"

record classification =
  cl_parsed :: "IPAddr option"
  cl_routes :: "(IPAddr, NetworkDescriptor) Route list"
  cl_domains :: "DomainDescriptor list"
  matchedRouteIds :: "string set"
  matchedDomainIds :: "string set"

definition route_id :: "(IPAddr, NetworkDescriptor) Route \<Rightarrow> string" where
  "route_id r = (case route_value r of Some d \<Rightarrow> nd_id d | None \<Rightarrow> [])"

text \<open>The two queries may still be loading (\<open>None\<close>). A lookup that throws is an error of the hook.\<close>

definition useAddressClassify ::
  "ip_package \<Rightarrow> NetworkDescriptor list option \<Rightarrow> DomainDescriptor list option \<Rightarrow> string \<Rightarrow> classification result" where
  "useAddressClassify pk nets doms input =
     (let parsed = fromString (pk_isValid pk) (pk_parse pk) input;
          routes = map_option (descriptor_routes pk) nets
      in map_sum id (\<lambda>found.
           \<lparr>cl_parsed = parsed, cl_routes = nullish routes [], cl_domains = nullish doms [],
            matchedRouteIds = set (map route_id found),
            matchedDomainIds = (if parsed = None \<and> input \<noteq> [] then
                set (map dd_id (domainDescriptorLookup (nullish doms []) input)) else {})\<rparr>)
         (case (parsed, routes) of
            (Some ip, Some rs) \<Rightarrow> lookup_ip (buildTable_ip rs) ip
          | _ \<Rightarrow> Inr []))"

definition specialTargetLabel :: "classification \<Rightarrow> string" where
  "specialTargetLabel c =
     (case List.find (\<lambda>d. dd_id d \<in> matchedDomainIds c) (cl_domains c) of
        Some d \<Rightarrow> dd_name d
      | None \<Rightarrow>
          (case List.find (\<lambda>r. route_value r \<noteq> None \<and> route_id r \<in> matchedRouteIds c) (cl_routes c) of
             Some r \<Rightarrow> (case route_value r of Some d \<Rightarrow> nd_name d | None \<Rightarrow> [])
           | None \<Rightarrow> []))"

section \<open>Zones match label by label\<close>

definition labels_of :: "string \<Rightarrow> string list" where
  "labels_of s = js_split CHR ''.'' (normalize s)"

lemma js_split_middle: "js_split c (x @ c # z) = js_split c x @ js_split c z"
proof (induction x)
  case (Cons a x)
  then show ?case
    by (cases "js_split c x") (auto simp: neq_Nil_conv)
qed simp

lemma js_join_append:
  "xs \<noteq> [] \<Longrightarrow> ys \<noteq> [] \<Longrightarrow> js_join sep (xs @ ys) = js_join sep xs @ sep @ js_join sep ys"
proof (induction sep xs rule: js_join.induct)
  case (2 sep w)
  then show ?case by (cases ys) simp_all
qed simp_all

lemma ends_with_zone:
  "s = z \<or> js_endsWith s (c # z) \<longleftrightarrow> suffix (js_split c z) (js_split c s)"
proof
  assume "s = z \<or> js_endsWith s (c # z)"
  then show "suffix (js_split c z) (js_split c s)"
    by (auto simp: js_endsWith_def suffix_def js_split_middle)
next
  assume "suffix (js_split c z) (js_split c s)"
  then obtain xs where x: "js_split c s = xs @ js_split c z" by (auto simp: suffix_def)
  show "s = z \<or> js_endsWith s (c # z)"
  proof (cases "xs = []")
    case True
    then show ?thesis using x by (metis append_Nil js_join_split)
  next
    case False
    have "s = js_join [c] (xs @ js_split c z)" using x by (metis js_join_split)
    also have "\<dots> = js_join [c] xs @ c # z" using False by (simp add: js_join_append)
    finally show ?thesis by (auto simp: js_endsWith_def suffix_def)
  qed
qed

lemma zone_matches_labels: "zone_matches (normalize domain) d \<longleftrightarrow> suffix (labels_of (dd_zone d)) (labels_of domain)"
  using ends_with_zone [of "normalize domain" "normalize (dd_zone d)" "CHR ''.''"]
  by (simp add: zone_matches_def labels_of_def)

lemma length_normalize: "length (normalize s) = length s \<or> length (normalize s) = Suc (length s)"
  by (simp add: normalize_def js_toLowerCase_def Let_def)

text \<open>Two zones of one domain are comparable, and a longer one is longer by at least a label and a
  dot, so the raw lengths the code compares order them as the normalised ones do.\<close>

definition proper_domain :: "string \<Rightarrow> bool" where
  "proper_domain domain \<longleftrightarrow> [] \<notin> set (butlast (labels_of domain))"

lemma suffix_same_length: "suffix a f \<Longrightarrow> suffix b f \<Longrightarrow> length a = length b \<Longrightarrow> a = b"
  by (metis append_eq_append_conv suffix_def)

lemma zone_lengths:
  assumes d: "proper_domain domain"
    and "zone_matches (normalize domain) a" and "zone_matches (normalize domain) b"
    and l: "length (normalize (dd_zone a)) < length (normalize (dd_zone b))"
  shows "length (dd_zone a) < length (dd_zone b)"
proof -
  let ?f = "normalize domain" and ?a = "normalize (dd_zone a)" and ?b = "normalize (dd_zone b)"
  have s: "suffix ?a ?f" "suffix ?b ?f" and da: "?f = ?a \<or> suffix (CHR ''.'' # ?a) ?f"
    using assms(2,3) by (auto simp: zone_matches_def js_endsWith_def Let_def dest: suffix_ConsD)
  have "length ?b \<noteq> Suc (length ?a)"
  proof
    assume e: "length ?b = Suc (length ?a)"
    then have "?f \<noteq> ?a" using suffix_length_le [OF s(2)] by auto
    then have "?b = CHR ''.'' # ?a" using da s(2) e by (auto intro: suffix_same_length)
    then have "labels_of (dd_zone b) = [] # labels_of (dd_zone a)" by (simp add: labels_of_def)
    moreover have "suffix (labels_of (dd_zone b)) (labels_of domain)"
      using assms(3) by (simp add: zone_matches_labels)
    ultimately obtain p where "labels_of domain = p @ [] # labels_of (dd_zone a)" by (auto simp: suffix_def)
    moreover have "labels_of (dd_zone a) \<noteq> []" by (simp add: labels_of_def)
    ultimately show False using d by (simp add: proper_domain_def butlast_append)
  qed
  then have "Suc (length ?a) < length ?b" using l by simp
  then show ?thesis using length_normalize [of "dd_zone a"] length_normalize [of "dd_zone b"] by auto
qed

text \<open>C34. A domain matches exactly the descriptors whose zone is a suffix of it label by label, without
  regard to case or a final dot; for a domain without empty labels the result lists the most
  specific zone first, although the code compares the lengths as they were written.\<close>

theorem domain_lookup_by_labels:
  assumes "proper_domain domain"
  shows "mset (domainDescriptorLookup ds domain)
      = mset (filter (\<lambda>d. suffix (labels_of (dd_zone d)) (labels_of domain)) ds)
    \<and> sorted_wrt (\<lambda>a b. length (normalize (dd_zone b)) \<le> length (normalize (dd_zone a))) (domainDescriptorLookup ds domain)"
proof -
  let ?m = "filter (zone_matches (normalize domain)) ds"
  have r: "domainDescriptorLookup ds domain = sort_key (\<lambda>d. - int (length (dd_zone d))) ?m"
  proof -
    have "(\<lambda>a b. int (length (dd_zone b)) - int (length (dd_zone a)))
        = (\<lambda>a b. - int (length (dd_zone a)) - (- int (length (dd_zone b))))" by (simp add: fun_eq_iff)
    then show ?thesis by (simp add: domainDescriptorLookup_def js_sort_key [symmetric] Let_def)
  qed
  have "sorted_wrt (\<lambda>a b. length (dd_zone b) \<le> length (dd_zone a)) (sort_key (\<lambda>d. - int (length (dd_zone d))) ?m)"
    using sorted_sort_key [of "\<lambda>d. - int (length (dd_zone d))" ?m] by (simp add: sorted_map)
  then have "sorted_wrt (\<lambda>a b. length (normalize (dd_zone b)) \<le> length (normalize (dd_zone a))) (domainDescriptorLookup ds domain)"
    unfolding r
  proof (rule sorted_wrt_mono_rel [rotated])
    fix a b assume "a \<in> set (sort_key (\<lambda>d. - int (length (dd_zone d))) ?m)"
      "b \<in> set (sort_key (\<lambda>d. - int (length (dd_zone d))) ?m)" "length (dd_zone b) \<le> length (dd_zone a)"
    then show "length (normalize (dd_zone b)) \<le> length (normalize (dd_zone a))"
      using zone_lengths [OF assms, of a b] by (auto simp: not_less [symmetric])
  qed
  moreover have "mset (domainDescriptorLookup ds domain)
      = mset (filter (\<lambda>d. suffix (labels_of (dd_zone d)) (labels_of domain)) ds)"
    by (simp add: r zone_matches_labels)
  ultimately show ?thesis by blast
qed

definition zone_desc :: "string \<Rightarrow> string \<Rightarrow> DomainDescriptor" where
  "zone_desc i z = \<lparr>dd_id = i, dd_zone = z, dd_name = i, dd_description = None\<rparr>"

lemma domain_lookup_by_labels_witness:
  "sorted_wrt (\<lambda>a b. length (normalize (dd_zone b)) \<le> length (normalize (dd_zone a)))
     (domainDescriptorLookup [zone_desc ''1'' ''org.'', zone_desc ''2'' ''example.ORG'', zone_desc ''3'' ''ample.org''] ''www.Example.org'')"
proof -
  have "proper_domain ''www.Example.org''" by code_simp
  from domain_lookup_by_labels [OF this] show ?thesis by blast
qed

section \<open>The label of the target\<close>

text \<open>The label ignores that order: it is the name of the first descriptor of the file whose zone
  matches, so a general zone listed before a specific one wins.\<close>

theorem label_of_first_descriptor:
  assumes "\<not> pk_isValid pk ''www.example.org''"
  defines "ds \<equiv> [zone_desc ''org'' ''org'', zone_desc ''example'' ''example.org'']"
  shows "map_sum id specialTargetLabel (useAddressClassify pk nets (Some ds) ''www.example.org'') = Inr ''org''
   \<and> map dd_id (domainDescriptorLookup ds ''www.example.org'') = [''example'', ''org'']"
proof -
  have l: "map dd_id (domainDescriptorLookup ds ''www.example.org'') = [''example'', ''org'']"
    unfolding ds_def by code_simp
  then have "set (map dd_id (domainDescriptorLookup ds ''www.example.org'')) = {''example'', ''org''}" by simp
  then show ?thesis using l assms(1)
    by (simp add: useAddressClassify_def fromString_def specialTargetLabel_def ds_def zone_desc_def)
qed

lemma descriptor_routes_values: "r \<in> set (descriptor_routes pk ds) \<Longrightarrow> \<exists>d\<in>set ds. route_value r = Some d"
  by (induction ds) (auto split: if_splits prod.splits)

text \<open>The routes of descriptors with different identifiers are told apart by the identifier.\<close>

lemma route_id_inj:
  assumes "distinct (map nd_id ds)" "r \<in> set (descriptor_routes pk ds)" "r' \<in> set (descriptor_routes pk ds)"
    and "route_id r = route_id r'"
  shows "r = r'"
  using assms
proof (induction ds)
  case (Cons d ds)
  have other: "route_id x \<noteq> nd_id d" if "x \<in> set (descriptor_routes pk ds)" for x
  proof -
    have "\<exists>y\<in>set ds. route_value x = Some y" using that by (rule descriptor_routes_values)
    then obtain y where "y \<in> set ds" "route_value x = Some y" by blast
    moreover have "nd_id d \<notin> nd_id ` set ds" using Cons.prems(1) by simp
    ultimately show ?thesis by (metis option.simps(5) image_eqI route_id_def)
  qed
  have first: "descriptor_routes pk (d # ds) = x # descriptor_routes pk ds \<and> route_id x = nd_id d"
    if "x \<in> set (descriptor_routes pk (d # ds))" "x \<notin> set (descriptor_routes pk ds)" for x
    using that by (auto simp: route_id_def split: if_splits prod.splits)
  have "distinct (map nd_id ds)" using Cons.prems(1) by simp
  then show ?case using Cons.IH Cons.prems(2-4) other first by (metis list.inject)
qed simp

text \<open>C35. An address that some network descriptor covers is always labelled: the lookup succeeds, no
  domain matches, and the label is the name of a descriptor of the address' family whose kept
  prefix (the bits the route table keeps of it) contains the address and is the longest such; when the
  prefix lengths of the family are level boundaries of the table, this descriptor's prefix itself contains
  the address, and no descriptor with a longer prefix does.\<close>

theorem covered_address_is_labelled:
  assumes "fromString (pk_isValid pk) (pk_parse pk) input = Some ip" and "wf_addr ip"
    and "distinct (map nd_id nets)"
  defines "rs \<equiv> descriptor_routes pk nets"
  assumes "\<forall>r\<in>set rs. wf_route r" and "r \<in> set rs" and "route_contains r ip"
  shows "\<exists>c d r'. useAddressClassify pk (Some nets) doms input = Inr c
    \<and> matchedDomainIds c = {} \<and> nd_id d \<in> matchedRouteIds c \<and> specialTargetLabel c = nd_name d
    \<and> d \<in> set nets \<and> r' \<in> set rs \<and> route_value r' = Some d
    \<and> family (networkAddr r') = family ip \<and> kept_contains rs r' ip
    \<and> (\<forall>r''\<in>set rs. kept_contains rs r'' ip \<longrightarrow> kept_length rs r'' \<le> kept_length rs r')
    \<and> (exact_levels ip rs \<longrightarrow> route_contains r' ip
         \<and> (\<forall>r''\<in>set rs. route_contains r'' ip \<longrightarrow> prefixLength r'' \<le> prefixLength r'))"
proof -
  let ?best = "\<lambda>r. kept_contains rs r ip \<and> (\<forall>r'\<in>set rs. kept_contains rs r' ip \<longrightarrow> kept_length rs r' \<le> kept_length rs r)"
  obtain res where res: "lookup_ip (buildTable_ip rs) ip = Inr res" "res \<noteq> []"
    using lookup_covered [OF assms(2,5,6,7)] by blast
  then have best: "res = filter ?best rs" using lookup_kept [OF assms(2,5)] by simp
  let ?c = "\<lparr>cl_parsed = Some ip, cl_routes = rs, cl_domains = nullish doms [],
     matchedRouteIds = set (map route_id res), matchedDomainIds = {}\<rparr>"
  have c: "useAddressClassify pk (Some nets) doms input = Inr ?c"
    using assms(1) res(1) by (simp add: useAddressClassify_def rs_def)
  let ?P = "\<lambda>r. route_value r \<noteq> None \<and> route_id r \<in> matchedRouteIds ?c"
  have vals: "\<exists>d\<in>set nets. route_value x = Some d" if "x \<in> set rs" for x
    using that unfolding rs_def by (rule descriptor_routes_values)
  have "hd res \<in> set res" using res(2) by simp
  then have "hd res \<in> set rs" "?P (hd res)" using vals [of "hd res"] best by auto
  then obtain r' where f: "List.find ?P rs = Some r'" by (cases "List.find ?P rs") (auto simp: find_None_iff)
  then have r': "?P r'" "r' \<in> set rs" by (auto simp: find_Some_iff)
  then obtain d where d: "d \<in> set nets" "route_value r' = Some d" using vals by blast
  obtain x where "x \<in> set res" "route_id r' = route_id x" using r'(1) by auto
  then have b: "?best r'"
    using route_id_inj [OF assms(3), of r' pk x] r'(2) unfolding best rs_def by auto
  have n: "List.find (\<lambda>d. dd_id d \<in> matchedDomainIds ?c) (cl_domains ?c) = None" by (simp add: find_None_iff)
  have l: "specialTargetLabel ?c = nd_name d" using f d unfolding specialTargetLabel_def n by simp
  have i: "nd_id d \<in> matchedRouteIds ?c" using r' d by (simp add: route_id_def)
  have e: "route_contains r' ip \<and> (\<forall>r''\<in>set rs. route_contains r'' ip \<longrightarrow> prefixLength r'' \<le> prefixLength r')"
    if "exact_levels ip rs"
  proof -
    have k: "kept_contains rs x ip \<longleftrightarrow> route_contains x ip" if "x \<in> set rs" for x
      using that \<open>exact_levels ip rs\<close> assms(2,5) kept_exact_contains by blast
    have "kept_length rs x = prefixLength x" if "x \<in> set rs" "route_contains x ip" for x
      using that \<open>exact_levels ip rs\<close> assms(5) kept_length_exact [of x ip rs]
      by (simp add: routes_for_def route_contains_def getFamily_def)
    then show ?thesis using b k r'(2) by metis
  qed
  have "family (networkAddr r') = family ip" using b by (simp add: kept_contains_def)
  then show ?thesis
    using c l i d r' b e by (intro exI [of _ ?c] exI [of _ d] exI [of _ r']) simp
qed

definition sample_package :: ip_package where
  "sample_package = \<lparr>pk_isValid = (\<lambda>s. s = ''10.1.9.9''), pk_parse = (\<lambda>s. (IPv4, [10, 1, 9, 9])),
     pk_isValidCIDR = (\<lambda>s. s = ''10.1.0.0/16''), pk_parseCIDR = (\<lambda>s. ((IPv4, [10, 1, 0, 0]), 16))\<rparr>"

definition sample_nets :: "NetworkDescriptor list" where
  "sample_nets = [\<lparr>nd_id = ''a'', nd_prefix = ''bad'', nd_name = ''bad'', nd_description = None\<rparr>,
     \<lparr>nd_id = ''b'', nd_prefix = ''10.1.0.0/16'', nd_name = ''lab'', nd_description = None\<rparr>]"

lemma covered_address_is_labelled_witness:
  "\<exists>c d. useAddressClassify sample_package (Some sample_nets) None ''10.1.9.9'' = Inr c
     \<and> d \<in> set sample_nets \<and> nd_id d \<in> matchedRouteIds c \<and> specialTargetLabel c = nd_name d"
proof -
  let ?r = "\<lparr>networkAddr = \<lparr>data = [10, 1, 0, 0], family = IPv4\<rparr>, prefixLength = 16, route_value = Some (sample_nets ! 1)\<rparr>"
  have rs: "descriptor_routes sample_package sample_nets = [?r]"
    by (simp add: sample_package_def sample_nets_def)
  have "fromString (pk_isValid sample_package) (pk_parse sample_package) ''10.1.9.9''
      = Some \<lparr>data = [10, 1, 9, 9], family = IPv4\<rparr>" by (simp add: fromString_def sample_package_def)
  moreover have "wf_addr \<lparr>data = [10, 1, 9, 9], family = IPv4\<rparr>" by code_simp
  moreover have "wf_route ?r" by code_simp
  moreover have "route_contains ?r \<lparr>data = [10, 1, 9, 9], family = IPv4\<rparr>" by code_simp
  moreover have "distinct (map nd_id sample_nets)" by code_simp
  ultimately show ?thesis
    using covered_address_is_labelled [of sample_package "''10.1.9.9''" "\<lparr>data = [10, 1, 9, 9], family = IPv4\<rparr>" sample_nets ?r None]
    unfolding rs by auto
qed

end
