(* ===== verification/Route_Display.thy ===== *)
theory Route_Display
  imports Mrt_Providers Display "HOL-Library.Word"
begin

unbundle bit_operations_syntax

text \<open>
  \<^verbatim>\<open>web/components/RouteQueryResultDisplay.tsx\<close>, \<^verbatim>\<open>RouteQueryStats.tsx\<close>, \<^verbatim>\<open>MRTEntryCard.tsx\<close> and
  \<^verbatim>\<open>ASPathChip.tsx\<close>: the result of a route query, page by page, over the hook of
  \<open>Mrt_Providers\<close>. Community numbers are exact integers.
\<close>

section \<open>Text of an entry\<close>

definition colon :: char where "colon = CHR '':''"

text \<open>\<open>(c >>> 16) & 0xffff\<close> and \<open>c & 0xffff\<close> work on the number modulo \<open>2\<^sup>32\<close>.\<close>

definition formatCommunity :: "int \<Rightarrow> string" where
  "formatCommunity c =
     (let w = word_of_int c :: 32 word; high = drop_bit 16 w AND 0xFFFF; low = w AND 0xFFFF
      in nat_to_string (unat high) @ colon # nat_to_string (unat low))"

definition formatLargeCommunity :: "int \<times> int \<times> int \<Rightarrow> string" where
  "formatLargeCommunity c =
     (case c of (a, b, d) \<Rightarrow> int_to_string a @ colon # int_to_string b @ colon # int_to_string d)"

definition hex_char :: "nat \<Rightarrow> char" where
  "hex_char d = char_of (if d < 10 then 48 + d else 55 + d)"

fun hex_string :: "nat \<Rightarrow> string" where
  "hex_string n = (if n < 16 then [hex_char n] else hex_string (n div 16) @ [hex_char (n mod 16)])"

declare hex_string.simps [simp del]

text \<open>\<open>c.toString(16).toUpperCase().padStart(16, "0")\<close>.\<close>

definition padStart :: "nat \<Rightarrow> char \<Rightarrow> string \<Rightarrow> string" where
  "padStart n c s = replicate (n - length s) c @ s"

definition formatExtendedCommunity :: "int \<Rightarrow> string" where
  "formatExtendedCommunity c =
     ''0x'' @ padStart 16 CHR ''0'' (if c < 0 then CHR ''-'' # hex_string (nat (- c)) else hex_string (nat c))"

definition ASN_COLORS :: "string list" where
  "ASN_COLORS = [''#e53935'', ''#1e88e5'', ''#43a047'', ''#fb8c00'', ''#8e24aa'', ''#00acc1'',
     ''#6d4c41'', ''#f06292'', ''#3949ab'', ''#7cb342'', ''#ff7043'', ''#5e35b1'']"

definition getASNColor :: "int \<Rightarrow> string" where
  "getASNColor asn = ASN_COLORS ! nat (\<bar>asn\<bar> mod int (length ASN_COLORS))"

record chip =
  chip_label :: string
  chip_color :: string
  chip_background :: string

definition ASPathChip :: "int \<Rightarrow> chip" where
  "ASPathChip asn =
     \<lparr>chip_label = ''AS'' @ int_to_string asn, chip_color = getASNColor asn,
      chip_background = getASNColor asn @ ''18''\<rparr>"

definition nonempty :: "'a list option \<Rightarrow> bool" where
  "nonempty xs = (case xs of None \<Rightarrow> False | Some ys \<Rightarrow> length ys > 0)"

definition hasCommunities :: "MRTEntry \<Rightarrow> bool" where
  "hasCommunities e \<longleftrightarrow> nonempty (Communities e) \<or> nonempty (LargeCommunities e) \<or> nonempty (ExtendedCommunities e)"

text \<open>The three kinds of communities, each only when there are any: a label and its chips.\<close>

definition community_rows :: "MRTEntry \<Rightarrow> (string \<times> string list) list" where
  "community_rows entry =
     (if nonempty (Communities entry)
      then [(''BGP Community:'', map formatCommunity (the (Communities entry)))] else [])
     @ (if nonempty (LargeCommunities entry)
        then [(''BGP Large Community:'', map formatLargeCommunity (the (LargeCommunities entry)))] else [])
     @ (if nonempty (ExtendedCommunities entry)
        then [(''BGP Extended Community:'', map formatExtendedCommunity (the (ExtendedCommunities entry)))] else [])"

text \<open>Peer and next hop (\<open>None\<close> is the dash), then the communities.\<close>

record card_details =
  cd_peer :: "string option"
  cd_nextHop :: "string option"
  cd_communities :: "(string \<times> string list) list"

definition details_of :: "MRTEntry \<Rightarrow> card_details" where
  "details_of entry =
     \<lparr>cd_peer = Peer entry, cd_nextHop = NextHop entry,
      cd_communities = (if hasCommunities entry then community_rows entry else [])\<rparr>"

record entry_card =
  ec_number :: string
  ec_prefix :: string
  ec_peer :: "chip option"
  ec_details_hint :: bool
  ec_path :: "chip list"
  ec_expanded :: "card_details option"

definition MRTEntryCard :: "MRTEntry \<Rightarrow> nat \<Rightarrow> bool \<Rightarrow> entry_card" where
  "MRTEntryCard entry index expanded =
     \<lparr>ec_number = CHR ''#'' # nat_to_string (index + 1), ec_prefix = Prefix entry,
      ec_peer = map_option (\<lambda>a. \<lparr>chip_label = ''Peer AS'' @ int_to_string a, chip_color = getASNColor a,
                                chip_background = getASNColor a @ ''15''\<rparr>) (PeerAS entry),
      ec_details_hint = (hasCommunities entry \<and> \<not> expanded),
      ec_path = (if nonempty (ASPath entry) then map ASPathChip (the (ASPath entry)) else []),
      ec_expanded = (if expanded then Some (details_of entry) else None)\<rparr>"

definition toggle_card :: "bool \<Rightarrow> bool" where
  "toggle_card p = (\<not> p)"

section \<open>Statistics\<close>

record RouteQueryStatsData =
  rq_count :: nat
  rq_origins :: nat
  rq_peers :: nat
  rq_maxPathLen :: nat
  rq_minPathLen :: "nat option"

record stats_acc =
  sa_origins :: "int set"
  sa_peers :: "int set"
  sa_max :: nat
  sa_min :: "nat option"

text \<open>The loop; a smallest length of \<open>None\<close> is \<open>Infinity\<close>.\<close>

definition stats_step :: "stats_acc \<Rightarrow> MRTEntry \<Rightarrow> stats_acc" where
  "stats_step a e =
     (let a = (case ASPath e of
                 Some path \<Rightarrow>
                   if length path > 0 then
                     a\<lparr>sa_origins := insert (path ! (length path - 1)) (sa_origins a),
                       sa_max := max (sa_max a) (length path),
                       sa_min := Some (case sa_min a of None \<Rightarrow> length path | Some m \<Rightarrow> min m (length path))\<rparr>
                   else a
               | None \<Rightarrow> a)
      in case PeerAS e of Some p \<Rightarrow> a\<lparr>sa_peers := insert p (sa_peers a)\<rparr> | None \<Rightarrow> a)"

definition stats_init :: stats_acc where
  "stats_init = \<lparr>sa_origins = {}, sa_peers = {}, sa_max = 0, sa_min = None\<rparr>"

definition route_stats :: "MRTEntry list \<Rightarrow> RouteQueryStatsData" where
  "route_stats es =
     (let a = foldl stats_step stats_init es
      in \<lparr>rq_count = length es, rq_origins = card (sa_origins a), rq_peers = card (sa_peers a),
          rq_maxPathLen = sa_max a, rq_minPathLen = sa_min a\<rparr>)"

definition stats_texts :: "RouteQueryStatsData \<Rightarrow> (string \<times> string) list" where
  "stats_texts d =
     [(''Entries'', nat_to_string (rq_count d)), (''Origin ASNs'', nat_to_string (rq_origins d)),
      (''Peer ASNs'', nat_to_string (rq_peers d)),
      (''Shortest Path'', (case rq_minPathLen d of None \<Rightarrow> ''Infinity'' | Some m \<Rightarrow> nat_to_string m) @ '' hops''),
      (''Longest Path'', nat_to_string (rq_maxPathLen d) @ '' hops'')]"

section \<open>The pages\<close>

record route_display =
  rd_generation :: nat
  rd_active :: string
  rd_loaded :: "(string \<times> ResumableResponseStreamEvent list list) list"
  rd_hook :: mrt_hook

definition valid_provider :: "string list \<Rightarrow> string \<Rightarrow> string" where
  "valid_provider srcs active =
     (if active \<in> set srcs then active else case srcs of [] \<Rightarrow> [] | s # ss \<Rightarrow> s)"

definition event_entry :: "ResumableResponseStreamEvent \<Rightarrow> MRTEntry option" where
  "event_entry e = de_Data (se_data e)"

definition provider_state :: "route_display \<Rightarrow> string \<Rightarrow> ProviderMRTEntriesState option" where
  "provider_state d p = map_of (hk_map (rd_hook d)) p"

definition all_entries :: "route_display \<Rightarrow> string \<Rightarrow> MRTEntry list" where
  "all_entries d p =
     List.map_filter event_entry (concat (nullish (map_of (rd_loaded d) p) []))
     @ (case provider_state d p of None \<Rightarrow> [] | Some s \<Rightarrow> entries s)"

definition any_running :: "route_display \<Rightarrow> bool" where
  "any_running d = list_ex (\<lambda>(p, s). isRunning s) (hk_map (rd_hook d))"

definition load_more_visible :: "route_display \<Rightarrow> string \<Rightarrow> bool" where
  "load_more_visible d p =
     (case provider_state d p of None \<Rightarrow> False | Some s \<Rightarrow> truthy_str (cursorId s) \<and> \<not> isRunning s)"

definition load_more_click :: "string \<Rightarrow> route_display \<Rightarrow> route_display" where
  "load_more_click p d =
     (let currentPageEvents = (case provider_state d p of None \<Rightarrow> [] | Some s \<Rightarrow> pageEvents s)
      in d\<lparr>rd_loaded := AList.update p (nullish (map_of (rd_loaded d) p) [] @ [currentPageEvents]) (rd_loaded d),
           rd_hook := loadMore p (rd_hook d)\<rparr>)"

text \<open>Refreshing drops the loaded pages and makes the hook query again.\<close>

definition refresh_click :: "route_display \<Rightarrow> route_display" where
  "refresh_click d = d\<lparr>rd_loaded := [], rd_generation := rd_generation d + 1\<rparr>"

datatype route_message = Route_error string | Route_nothing

definition route_messages :: "route_display \<Rightarrow> string \<Rightarrow> route_message list" where
  "route_messages d p =
     (let err = Option.bind (provider_state d p) st_error;
          running = (case provider_state d p of None \<Rightarrow> False | Some s \<Rightarrow> isRunning s)
      in (if truthy_str err then [Route_error (the err)] else [])
         @ (if \<not> running \<and> length (all_entries d p) = 0 \<and> \<not> truthy_str err then [Route_nothing] else []))"

definition route_cards :: "route_display \<Rightarrow> string \<Rightarrow> entry_card list" where
  "route_cards d p = map (\<lambda>(i, e). MRTEntryCard e i True) (List.enumerate 0 (all_entries d p))"

datatype route_move =
    R_stream nat "ResumableResponseStreamEvent stream_move"
  | R_load_more string
  | R_refresh "string option" "string list"

text \<open>The button is only there to press when \<open>load_more_visible\<close>; a refresh bumps the generation,
  which runs the hook's effect again.\<close>

fun route_step :: "route_display \<Rightarrow> route_move \<Rightarrow> route_display" where
  "route_step d (R_stream i mv) = d\<lparr>rd_hook := stream_event i mv (rd_hook d)\<rparr>"
| "route_step d (R_load_more p) = (if load_more_visible d p then load_more_click p d else d)"
| "route_step d (R_refresh tgt providers) =
     (let d = refresh_click d in d\<lparr>rd_hook := hook_query tgt providers (rd_hook d)\<rparr>)"

definition route_run :: "route_display \<Rightarrow> route_move list \<Rightarrow> route_display" where
  "route_run d ms = foldl route_step d ms"

section \<open>Communities\<close>

lemma unat_high_half:
  assumes "c mod 4294967296 = int (high * 65536 + low)" and "high < 65536" and "low < 65536"
  shows "unat (drop_bit 16 (word_of_int c :: 32 word) AND 0xFFFF) = high"
    and "unat ((word_of_int c :: 32 word) AND 0xFFFF) = low"
proof -
  let ?w = "word_of_int c :: 32 word"
  have "uint ?w = int (high * 65536 + low)" using assms(1) by (simp add: uint_word_of_int)
  then have w: "unat ?w = high * 65536 + low" by (metis nat_int unat_eq_nat_uint)
  have m: "(0xFFFF :: 32 word) = mask 16" by (simp add: mask_eq_exp_minus_1)
  have u: "unat (x AND 0xFFFF) = unat x mod 65536" for x :: "32 word"
    unfolding m take_bit_eq_mask [symmetric] unsigned_take_bit_eq by (simp add: take_bit_eq_mod)
  have "unat (drop_bit 16 ?w) = high" using assms(3) unfolding unat_drop_bit_eq w by (simp add: drop_bit_eq_div)
  then show "unat (drop_bit 16 ?w AND 0xFFFF) = high" using assms(2) unfolding u by simp
  show "unat (?w AND 0xFFFF) = low" using assms(3) unfolding u w by simp
qed

lemma colon_no_digit: "colon \<notin> set (nat_to_string n)"
  using nat_to_string_digits [of colon n] by (auto simp: colon_def is_digit_def)

text \<open>A standard community is shown as its two 16-bit halves, whatever sign or size the number
  arrives with (only its value modulo \<open>2\<^sup>32\<close> counts), so the halves are read back; and the colour of
  an AS number is always one of the twelve.\<close>

theorem community_halves:
  assumes "high < 65536" and "low < 65536"
  shows "formatCommunity (int high * 65536 + int low + 4294967296 * k)
      = nat_to_string high @ colon # nat_to_string low
    \<and> js_split colon (formatCommunity (int high * 65536 + int low + 4294967296 * k)) = [nat_to_string high, nat_to_string low]
    \<and> getASNColor asn \<in> set ASN_COLORS"
proof -
  have "nat (\<bar>asn\<bar> mod int (length ASN_COLORS)) < length ASN_COLORS"
    by (simp add: ASN_COLORS_def nat_less_iff)
  then have "getASNColor asn \<in> set ASN_COLORS" unfolding getASNColor_def by (rule nth_mem)
  moreover have f: "formatCommunity (int high * 65536 + int low + 4294967296 * k)
      = nat_to_string high @ colon # nat_to_string low"
  proof -
    have "(int high * 65536 + int low + 4294967296 * k) mod 4294967296 = int (high * 65536 + low)"
      using assms by simp
    from unat_high_half [OF this assms] show ?thesis by (simp only: formatCommunity_def Let_def)
  qed
  moreover have "js_split colon (nat_to_string high @ colon # nat_to_string low)
      = [nat_to_string high, nat_to_string low]"
    by (simp add: js_split_append_no_sep js_split_single colon_no_digit)
  ultimately show ?thesis unfolding f by simp
qed

lemma community_halves_witness:
  "formatCommunity (- 4278255516) = ''255'' @ colon # ''100''"
proof -
  have "nat_to_string 255 = ''255''" "nat_to_string 100 = ''100''" by code_simp+
  then show ?thesis using community_halves [of 255 100 "- 1" 0] by simp
qed

section \<open>Statistics\<close>

definition route_paths :: "MRTEntry list \<Rightarrow> int list list" where
  "route_paths es = filter (\<lambda>p. p \<noteq> []) (List.map_filter ASPath es)"

lemma route_paths_snoc:
  "route_paths (es @ [e]) =
     route_paths es @ (case ASPath e of None \<Rightarrow> [] | Some p \<Rightarrow> if p = [] then [] else [p])"
  by (auto simp: route_paths_def map_filter_def split: option.split)

lemma map_filter_snoc:
  "List.map_filter f (es @ [e]) = List.map_filter f es @ (case f e of None \<Rightarrow> [] | Some y \<Rightarrow> [y])"
  by (auto simp: map_filter_def split: option.split)

lemma foldr_max_snoc: "foldr max (xs @ [x]) 0 = max (foldr max xs 0) (x :: nat)"
  by (induction xs) auto

lemma stats_step_eq:
  "stats_step a e =
     (case ASPath e of None \<Rightarrow> a | Some p \<Rightarrow> if p = [] then a else
        a\<lparr>sa_origins := insert (last p) (sa_origins a), sa_max := max (sa_max a) (length p),
          sa_min := Some (case sa_min a of None \<Rightarrow> length p | Some m \<Rightarrow> min m (length p))\<rparr>)
     \<lparr>sa_peers := sa_peers a \<union> (case PeerAS e of None \<Rightarrow> {} | Some p \<Rightarrow> {p})\<rparr>"
  by (auto simp: stats_step_def Let_def last_conv_nth split: option.split)

lemma stats_fold:
  "foldl stats_step stats_init es =
     \<lparr>sa_origins = last ` set (route_paths es), sa_peers = set (List.map_filter PeerAS es),
      sa_max = foldr max (map length (route_paths es)) 0,
      sa_min = (if route_paths es = [] then None else Some (Min (length ` set (route_paths es))))\<rparr>"
proof (induction es rule: rev_induct)
  case Nil
  then show ?case by (simp add: stats_init_def route_paths_def map_filter_simps)
next
  case (snoc e es)
  have "foldl stats_step stats_init (es @ [e]) = stats_step (foldl stats_step stats_init es) e" by simp
  then show ?case
    unfolding snoc.IH stats_step_eq route_paths_snoc map_filter_snoc
    by (cases "ASPath e"; cases "PeerAS e") (auto simp: foldr_max_snoc min.commute simp del: foldr_append)
qed

text \<open>The statistics bar is what it says: the number of entries, of distinct origins (last AS of each
  non-empty path) and of distinct peers, and the length of the shortest and the longest non-empty
  path; with no such path the longest is 0 and the shortest is shown as infinite.\<close>

theorem route_stats_exact:
  "route_stats es =
     \<lparr>rq_count = length es, rq_origins = card (last ` set (route_paths es)),
      rq_peers = card (set (List.map_filter PeerAS es)),
      rq_maxPathLen = (if route_paths es = [] then 0 else Max (length ` set (route_paths es))),
      rq_minPathLen = (if route_paths es = [] then None else Some (Min (length ` set (route_paths es))))\<rparr>"
proof -
  have "foldr max (map length ps) 0 = (if ps = [] then 0 else Max (length ` set ps))" for ps :: "int list list"
    by (induction ps) auto
  then show ?thesis by (simp add: route_stats_def stats_fold Let_def)
qed

section \<open>Pages\<close>

text \<open>The entries of a page are the data of its events.\<close>

definition pages_ok :: "mrt_hook \<Rightarrow> bool" where
  "pages_ok h \<longleftrightarrow> (\<forall>p s. map_of (hk_map h) p = Some s \<longrightarrow> entries s = event_entries (pageEvents s))"

lemma event_entries_append [simp]: "event_entries (xs @ ys) = event_entries xs @ event_entries ys"
  by (simp add: event_entries_def map_filter_def)

lemma event_entries_single [simp]:
  "event_entries [e] = (case de_Data (se_data e) of None \<Rightarrow> [] | Some d \<Rightarrow> [d])"
  by (simp add: event_entries_def map_filter_simps split: option.split)

lemma event_entries_initial [simp]:
  "entries initial_provider_state = []" "pageEvents initial_provider_state = []" "event_entries [] = []"
  by (simp_all add: initial_provider_state_def event_entries_def map_filter_simps)

lemma pages_ok_update:
  assumes "pages_ok h" and "\<And>s. entries s = event_entries (pageEvents s) \<Longrightarrow> entries (f s) = event_entries (pageEvents (f s))"
  shows "pages_ok (h\<lparr>hk_map := update_provider p f (hk_map h)\<rparr>)"
  using assms by (auto simp: pages_ok_def map_of_update_provider split: if_splits)

text \<open>What a step of one stream may do to the provider's entry: it appends what arrived.\<close>

lemma stream_event_pages:
  assumes "pages_ok h"
  shows "pages_ok (stream_event i mv h)"
    and "prefix (case map_of (hk_map h) p of None \<Rightarrow> [] | Some s \<Rightarrow> entries s)
           (case map_of (hk_map (stream_event i mv h)) p of None \<Rightarrow> [] | Some s \<Rightarrow> entries s)"
proof -
  have "pages_ok (stream_event i mv h)
    \<and> prefix (case map_of (hk_map h) p of None \<Rightarrow> [] | Some s \<Rightarrow> entries s)
           (case map_of (hk_map (stream_event i mv h)) p of None \<Rightarrow> [] | Some s \<Rightarrow> entries s)"
  proof (cases "i < length (hk_slots h)")
    case True
    show ?thesis
      using assms
      by (cases mv)
        (auto simp: pages_ok_def stream_event_map [OF True] slot_step_def mrt_ops add_event_def
          split: option.splits)
  next
    case False
    with assms show ?thesis by (simp add: stream_event_out)
  qed
  then show "pages_ok (stream_event i mv h)"
    and "prefix (case map_of (hk_map h) p of None \<Rightarrow> [] | Some s \<Rightarrow> entries s)
           (case map_of (hk_map (stream_event i mv h)) p of None \<Rightarrow> [] | Some s \<Rightarrow> entries s)" by auto
qed

lemma map_filter_event_entry: "List.map_filter event_entry evs = event_entries evs"
  by (simp add: event_entries_def event_entry_def[abs_def])

text \<open>Pressing the button moves the entries of the page to the loaded ones.\<close>

lemma load_more_click_keeps:
  assumes "pages_ok (rd_hook d)" and "load_more_visible d q"
  shows "all_entries (load_more_click q d) p = all_entries d p"
    and "pages_ok (rd_hook (load_more_click q d))"
proof -
  obtain s where s: "map_of (hk_map (rd_hook d)) q = Some s" "can_load_more (rd_hook d) q"
    using assms(2) by (auto simp: load_more_visible_def provider_state_def can_load_more_def split: option.splits)
  then have e: "entries s = event_entries (pageEvents s)" using assms(1) by (simp add: pages_ok_def)
  show "all_entries (load_more_click q d) p = all_entries d p"
    using s e
    by (cases "p = q")
      (simp_all add: all_entries_def load_more_click_def Let_def provider_state_def loadMore_def
        map_filter_event_entry)
  show "pages_ok (rd_hook (load_more_click q d))"
    using s assms(1) by (auto simp: load_more_click_def Let_def loadMore_def pages_ok_def)
qed

definition no_refresh :: "route_move \<Rightarrow> bool" where
  "no_refresh m = (case m of R_refresh _ _ \<Rightarrow> False | _ \<Rightarrow> True)"

lemma pages_ok_query: "pages_ok h \<Longrightarrow> pages_ok (hook_query tgt ps h)"
  by (auto simp: pages_ok_def hook_query_def Let_def map_of_init split: if_splits)

lemma route_step_pages:
  assumes "pages_ok (rd_hook d)"
  shows "pages_ok (rd_hook (route_step d m))"
    and "no_refresh m \<Longrightarrow> prefix (all_entries d p) (all_entries (route_step d m) p)"
proof -
  show "pages_ok (rd_hook (route_step d m))"
    using assms by (cases m) (auto simp: stream_event_pages load_more_click_keeps Let_def
        pages_ok_query refresh_click_def)
  show "prefix (all_entries d p) (all_entries (route_step d m) p)" if "no_refresh m"
  proof (cases m)
    case (R_stream i mv)
    with stream_event_pages(2) [OF assms] show ?thesis by (simp add: all_entries_def provider_state_def)
  next
    case (R_load_more q)
    then show ?thesis by (simp add: load_more_click_keeps assms)
  next
    case (R_refresh tgt ps)
    with that show ?thesis by (simp add: no_refresh_def)
  qed
qed

text \<open>C6. From an empty display on, whatever the streams deliver, fail or are aborted at, and however
  often \<open>Load More\<close> is pressed for whichever provider, what is shown for a provider only grows at
  its end: no entry is lost or reordered until the next refresh. This rests on the
  invariant that a page's entries are the data of its events, in every reachable state.\<close>

theorem shown_entries_only_grow:
  assumes "rd_hook d = \<lparr>hk_map = [], hk_slots = [], hk_more = None\<rparr>" and "\<forall>m\<in>set ns. no_refresh m"
  shows "pages_ok (rd_hook (route_run d ms))
    \<and> prefix (all_entries (route_run d ms) p) (all_entries (route_run d (ms @ ns)) p)"
proof -
  have ok: "pages_ok (rd_hook (route_run d ms))" for ms
  proof (induction ms rule: rev_induct)
    case Nil
    then show ?case using assms(1) by (simp add: route_run_def pages_ok_def)
  next
    case (snoc m ms)
    then show ?case by (simp add: route_run_def route_step_pages)
  qed
  have "prefix (all_entries (route_run d ms) p) (all_entries (route_run d (ms @ ns)) p)"
    using assms(2)
  proof (induction ns rule: rev_induct)
    case (snoc n ns)
    then show ?case
      using route_step_pages(2) [OF ok [of "ms @ ns"], of n p]
      by (auto simp: route_run_def intro: prefix_order.trans)
  qed simp
  with ok show ?thesis by simp
qed

definition empty_route_display :: route_display where
  "empty_route_display = \<lparr>rd_generation = 0, rd_active = ''A'', rd_loaded = [],
     rd_hook = \<lparr>hk_map = [], hk_slots = [], hk_more = None\<rparr>\<rparr>"

definition data_event :: ResumableResponseStreamEvent where
  "data_event = \<lparr>se_data = sample_mrt_entry, se_cursor_id = Some ''c''\<rparr>"

text \<open>The first page, its cursor pressed, the first event of the second page.\<close>

lemma shown_entries_only_grow_witness:
  "let first = [R_refresh (Some ''7'') [''A''], R_stream 0 Opened, R_stream 0 (Item data_event),
         R_stream 0 End_of_stream];
       more = [R_load_more ''A'', R_stream 1 Opened, R_stream 1 (Item data_event)]
   in prefix (all_entries (route_run empty_route_display first) ''A'')
        (all_entries (route_run empty_route_display (first @ more)) ''A'')
      \<and> length (all_entries (route_run empty_route_display first) ''A'') = 1
      \<and> length (all_entries (route_run empty_route_display (first @ more)) ''A'') = 2"
proof -
  have 1: "length (all_entries (route_run empty_route_display [R_refresh (Some ''7'') [''A''],
       R_stream 0 Opened, R_stream 0 (Item data_event), R_stream 0 End_of_stream]) ''A'') = 1"
    by code_simp
  have 2: "length (all_entries (route_run empty_route_display ([R_refresh (Some ''7'') [''A''],
       R_stream 0 Opened, R_stream 0 (Item data_event), R_stream 0 End_of_stream]
       @ [R_load_more ''A'', R_stream 1 Opened, R_stream 1 (Item data_event)])) ''A'') = 2"
    by code_simp
  show ?thesis
    unfolding Let_def using 1 2
      shown_entries_only_grow [of empty_route_display
        "[R_load_more ''A'', R_stream 1 Opened, R_stream 1 (Item data_event)]"
        "[R_refresh (Some ''7'') [''A''], R_stream 0 Opened, R_stream 0 (Item data_event), R_stream 0 End_of_stream]" "''A''"]
    by (simp add: empty_route_display_def no_refresh_def)
qed

end
