(* ===== verification/Ip_Display.thy ===== *)
theory Ip_Display
  imports Ip_Query Display Task
begin

text \<open>
  \<^verbatim>\<open>web/components/IPQueryResultDisplay.tsx\<close>: the result of an IP query, one tab per provider, with
  the table in either orientation, over the hook of \<open>Ip_Query\<close>.
\<close>

section \<open>Values and cells\<close>

datatype IPOrientation = IP_COL | ATTR_COL

datatype attr_key = A_ASN | A_ISP | A_Country | A_Region | A_City | A_Location | A_Exact

definition ATTRS :: "(attr_key \<times> string) list" where
  "ATTRS = [(A_ASN, ''ASN''), (A_ISP, ''ISP''), (A_Country, ''Country''), (A_Region, ''Region''),
     (A_City, ''City''), (A_Location, ''Location''), (A_Exact, ''Coordinates'')]"

datatype attr_value = V_string string | V_exact ExactLocation

fun attr_of :: "BasicIPInfo \<Rightarrow> attr_key \<Rightarrow> attr_value option" where
  "attr_of i A_ASN = map_option V_string (info_ASN i)"
| "attr_of i A_ISP = map_option V_string (info_ISP i)"
| "attr_of i A_Country = map_option V_string (info_Country i)"
| "attr_of i A_Region = map_option V_string (info_Region i)"
| "attr_of i A_City = map_option V_string (info_City i)"
| "attr_of i A_Location = map_option V_string (info_Location i)"
| "attr_of i A_Exact = map_option V_exact (info_Exact i)"

definition formatValue :: "attr_value option \<Rightarrow> string option" where
  "formatValue val =
     (case val of
        None \<Rightarrow> None
      | Some (V_exact e) \<Rightarrow> Some (signed_toFixed 4 (Latitude e) @ '', '' @ signed_toFixed 4 (Longitude e))
      | Some (V_string s) \<Rightarrow> Some s)"

definition findEntry :: "IPQueryResultEntry list \<Rightarrow> string \<Rightarrow> IPQueryResultEntry option" where
  "findEntry results ip = List.find (\<lambda>r. qe_ip r = ip) results"

text \<open>A cell: a heading, an error, a spinner, a text, or the dash of an absent value.\<close>

datatype ip_cell = C_head string | C_error string | C_spinner | C_text string | C_dash

definition value_cell :: "bool \<Rightarrow> IPQueryResultEntry option \<Rightarrow> attr_key \<Rightarrow> ip_cell" where
  "value_cell running e k =
     (let val = formatValue (Option.bind (Option.bind e qe_result) (\<lambda>i. attr_of i k))
      in if truthy_str (Option.bind e qe_err) then C_error (the (Option.bind e qe_err))
         else if running \<and> e = None then C_spinner
         else case val of None \<Rightarrow> C_dash | Some s \<Rightarrow> C_text s)"

section \<open>The two tables\<close>

definition ip_col_table :: "string list \<Rightarrow> IPQueryResultEntry list \<Rightarrow> bool \<Rightarrow> ip_cell list list" where
  "ip_col_table ips results running =
     (C_head ''Attribute'' # map C_head ips)
     # map (\<lambda>(k, label). C_head label # map (\<lambda>ip. value_cell running (findEntry results ip) k) ips) ATTRS"

definition attr_col_table :: "string list \<Rightarrow> IPQueryResultEntry list \<Rightarrow> bool \<Rightarrow> ip_cell list list" where
  "attr_col_table ips results running =
     (C_head ''IP'' # map (\<lambda>(k, label). C_head label) ATTRS)
     # map (\<lambda>ip. let e = findEntry results ip in C_head ip # map (\<lambda>(k, label). value_cell running e k) ATTRS) ips"

text \<open>The row of an error spans the table.\<close>

definition error_row :: "IPOrientation \<Rightarrow> string list \<Rightarrow> string option \<Rightarrow> (string \<times> nat) list" where
  "error_row o' ips err =
     (if truthy_str err
      then [(''Error: '' @ the err, (case o' of IP_COL \<Rightarrow> length ips + 1 | ATTR_COL \<Rightarrow> length ATTRS + 1))] else [])"

section \<open>The component\<close>

record ip_display =
  ip_generation :: nat
  ip_active :: string
  ip_orientation :: IPOrientation

definition ip_display_init :: "PendingTask \<Rightarrow> ip_display" where
  "ip_display_init task =
     \<lparr>ip_generation = 0, ip_active = (case sources task of [] \<Rightarrow> [] | s # ss \<Rightarrow> s), ip_orientation = IP_COL\<rparr>"

definition rotate_click :: "ip_display \<Rightarrow> ip_display" where
  "rotate_click d = d\<lparr>ip_orientation := (if ip_orientation d = IP_COL then ATTR_COL else IP_COL)\<rparr>"

definition ip_refresh_click :: "ip_display \<Rightarrow> ip_display" where
  "ip_refresh_click d = d\<lparr>ip_generation := ip_generation d + 1\<rparr>"

definition ip_provider_map :: "PendingTask \<Rightarrow> IPQueryResultEntry stream_move list \<Rightarrow> ProviderIPQueryMap" where
  "ip_provider_map task ms =
     useIPQueryByProvider (targets task) (if length (sources task) > 0 then Some (sources task) else None) ms"

definition ip_valid_provider :: "PendingTask \<Rightarrow> ip_display \<Rightarrow> string" where
  "ip_valid_provider task d =
     (if ip_active d \<in> set (sources task) then ip_active d
      else case sources task of [] \<Rightarrow> [] | s # ss \<Rightarrow> s)"

definition unique_count :: "(BasicIPInfo \<Rightarrow> string option) \<Rightarrow> IPQueryResultEntry list \<Rightarrow> nat" where
  "unique_count f results =
     length (foldl (\<lambda>s r. case Option.bind (qe_result r) f of
                            None \<Rightarrow> s | Some v \<Rightarrow> if v = [] then s else List.insert v s) [] results)"

record ip_view =
  vw_title :: string
  vw_spinner :: bool
  vw_provider :: string
  vw_counts :: "nat list"
  vw_table :: "ip_cell list list"
  vw_error :: "(string \<times> nat) list"
  vw_nothing :: bool

definition IPQueryResultDisplay :: "PendingTask \<Rightarrow> ip_display \<Rightarrow> ProviderIPQueryMap \<Rightarrow> ip_view" where
  "IPQueryResultDisplay task d m =
     (let p = ip_valid_provider task d;
          activeState = map_of m p;
          results = (case activeState of None \<Rightarrow> [] | Some s \<Rightarrow> qs_results s);
          running = (case activeState of None \<Rightarrow> False | Some s \<Rightarrow> qs_isRunning s);
          err = Option.bind activeState qs_error
      in \<lparr>vw_title = firstLetterCap (task_type_string (task_type task)) @ '' Task #'' @ taskId task,
          vw_spinner = list_ex (\<lambda>(p, s). qs_isRunning s) m,
          vw_provider = p,
          vw_counts = [length results, unique_count info_ASN results, unique_count info_Country results,
                       unique_count info_ISP results],
          vw_table = (if ip_orientation d = IP_COL then ip_col_table (targets task) results running
                      else attr_col_table (targets task) results running),
          vw_error = error_row (ip_orientation d) (targets task) err,
          vw_nothing = (\<not> running \<and> length results = 0 \<and> \<not> truthy_str err)\<rparr>)"

section \<open>Properties\<close>

lemma transpose_table:
  "transpose ((c # map f xs) # map (\<lambda>y. g y # map (h y) xs) ys) =
     (c # map g ys) # map (\<lambda>x. f x # map (\<lambda>y. h y x) ys) xs"
proof -
  have "transpose (map f xs # map (\<lambda>y. map (h y) xs) ys) = map (\<lambda>x. f x # map (\<lambda>y. h y x) ys) xs"
    by (induction xs) (auto simp: comp_def transpose_empty)
  then show ?thesis by (simp add: comp_def)
qed

text \<open>C33. Rotating the table transposes it: the two orientations show the same cells, with rows and
  columns exchanged (only the corner names what the first column holds); rotating twice restores
  the view; and nothing but the table and the width of the error row depends on the orientation.\<close>

theorem rotate_transposes:
  "transpose (ip_col_table ips results running)
     = (C_head ''Attribute'' # tl (hd (attr_col_table ips results running))) # tl (attr_col_table ips results running)
   \<and> rotate_click (rotate_click d) = d
   \<and> (IPQueryResultDisplay task (rotate_click d) m)\<lparr>vw_table := [], vw_error := []\<rparr>
       = (IPQueryResultDisplay task d m)\<lparr>vw_table := [], vw_error := []\<rparr>"
proof (intro conjI)
  show "transpose (ip_col_table ips results running)
     = (C_head ''Attribute'' # tl (hd (attr_col_table ips results running))) # tl (attr_col_table ips results running)"
    unfolding ip_col_table_def attr_col_table_def case_prod_beta Let_def by (simp add: transpose_table del: transpose.simps)
  show "rotate_click (rotate_click d) = d" by (cases "ip_orientation d") (simp_all add: rotate_click_def)
  show "(IPQueryResultDisplay task (rotate_click d) m)\<lparr>vw_table := [], vw_error := []\<rparr>
       = (IPQueryResultDisplay task d m)\<lparr>vw_table := [], vw_error := []\<rparr>"
    by (simp add: IPQueryResultDisplay_def Let_def rotate_click_def ip_valid_provider_def)
qed

text \<open>The cell of an address once the stream is over, from what the provider sent.\<close>

definition settled_cell :: "IPQueryResultEntry list \<Rightarrow> string \<Rightarrow> attr_key \<Rightarrow> ip_cell" where
  "settled_cell es ip k =
     (case List.find (\<lambda>e. qe_ip e = ip) es of
        None \<Rightarrow> C_dash
      | Some e \<Rightarrow>
          if truthy_str (qe_err e) then C_error (the (qe_err e))
          else case formatValue (Option.bind (qe_result e) (\<lambda>i. attr_of i k)) of
                 None \<Rightarrow> C_dash | Some s \<Rightarrow> C_text s)"

lemma value_cell_settled: "value_cell False (findEntry es ip) k = settled_cell es ip k"
  by (simp add: value_cell_def findEntry_def settled_cell_def Let_def formatValue_def split: option.split)

lemma ip_map_complete:
  assumes "targets task \<noteq> []" and "sources task \<noteq> []"
  shows "map_of (ip_provider_map task (Opened # map Item es @ [End_of_stream])) p =
     (if entries_of p es = [] then (if p \<in> set (sources task) then Some initial_ipquery_state else None)
      else Some ((foldl add_entry initial_ipquery_state (entries_of p es))\<lparr>qs_isRunning := False\<rparr>))"
  using assms
  by (simp add: ip_provider_map_def useIPQueryByProvider_def ipquery_init_def ipquery_complete map_of_init)

lemma valid_provider_in: "sources task \<noteq> [] \<Longrightarrow> ip_valid_provider task d \<in> set (sources task)"
  by (auto simp: ip_valid_provider_def split: list.split)

text \<open>The table of the page in either orientation, from the cell shown for an address and an attribute.\<close>

definition table_of_cells :: "IPOrientation \<Rightarrow> string list \<Rightarrow> (string \<Rightarrow> attr_key \<Rightarrow> ip_cell) \<Rightarrow> ip_cell list list" where
  "table_of_cells orient ips cell =
     (case orient of
        IP_COL \<Rightarrow> [C_head ''Attribute'' # map C_head ips,
          C_head ''ASN'' # map (\<lambda>ip. cell ip A_ASN) ips,
          C_head ''ISP'' # map (\<lambda>ip. cell ip A_ISP) ips,
          C_head ''Country'' # map (\<lambda>ip. cell ip A_Country) ips,
          C_head ''Region'' # map (\<lambda>ip. cell ip A_Region) ips,
          C_head ''City'' # map (\<lambda>ip. cell ip A_City) ips,
          C_head ''Location'' # map (\<lambda>ip. cell ip A_Location) ips,
          C_head ''Coordinates'' # map (\<lambda>ip. cell ip A_Exact) ips]
      | ATTR_COL \<Rightarrow> map C_head [''IP'', ''ASN'', ''ISP'', ''Country'', ''Region'', ''City'', ''Location'', ''Coordinates'']
          # map (\<lambda>ip. [C_head ip, cell ip A_ASN, cell ip A_ISP, cell ip A_Country, cell ip A_Region,
                        cell ip A_City, cell ip A_Location, cell ip A_Exact]) ips)"

lemma tables_of_cells:
  "(if orient = IP_COL then ip_col_table ips results running else attr_col_table ips results running)
     = table_of_cells orient ips (\<lambda>ip. value_cell running (findEntry results ip))"
  by (cases orient) (simp_all add: table_of_cells_def ip_col_table_def attr_col_table_def ATTRS_def Let_def)

text \<open>C8. Query, stream, hook and table together. When the stream has ended, the tab of a provider that
  sent something counts exactly that provider's entries and shows, in either orientation of the table,
  for every address and attribute what the provider's first entry for the address says: its error,
  its value, or a dash if either is missing; no cell is waiting and \<open>No results\<close> is not claimed.
  A selected provider that sent nothing instead waits in every cell for ever, and keeps the global
  spinner on.\<close>

theorem ip_table_after_stream:
  assumes "targets task \<noteq> []" and "sources task \<noteq> []"
  shows "let m = ip_provider_map task (Opened # map Item es @ [End_of_stream]);
             v = IPQueryResultDisplay task d m; mine = entries_of (vw_provider v) es
         in vw_nothing v = False \<and> vw_provider v \<in> set (sources task)
          \<and> hd (vw_counts v) = length mine
          \<and> (mine = [] \<longrightarrow> vw_spinner v)
          \<and> vw_table v = table_of_cells (ip_orientation d) (targets task)
              (if mine = [] then (\<lambda>ip k. C_spinner) else settled_cell mine)"
proof -
  let ?ms = "Opened # map Item es @ [End_of_stream]"
  let ?m = "ip_provider_map task ?ms"
  let ?p = "ip_valid_provider task d"
  have p: "?p \<in> set (sources task)" by (rule valid_provider_in [OF assms(2)])
  show ?thesis
  proof (cases "entries_of ?p es = []")
    case True
    with p have m: "map_of ?m ?p = Some initial_ipquery_state" by (simp add: ip_map_complete assms)
    then have s: "list_ex (\<lambda>(p, s). qs_isRunning s) ?m"
      by (force simp: list_ex_iff initial_ipquery_state_def dest!: map_of_SomeD)
    have c: "value_cell True (findEntry [] ip) = (\<lambda>k. C_spinner)" for ip
      by (simp add: value_cell_def findEntry_def fun_eq_iff)
    show ?thesis
      using True s p
      by (simp add: Let_def IPQueryResultDisplay_def tables_of_cells m initial_ipquery_state_def c)
  next
    case False
    let ?s = "(foldl add_entry initial_ipquery_state (entries_of ?p es))\<lparr>qs_isRunning := False\<rparr>"
    have m: "map_of ?m ?p = Some ?s" using False by (simp add: ip_map_complete assms)
    have r: "qs_results ?s = entries_of ?p es"
      using foldl_add_entry [OF False, of initial_ipquery_state] by (simp add: initial_ipquery_state_def)
    have run: "\<not> qs_isRunning ?s" by simp
    have c: "(\<lambda>ip. value_cell False (findEntry es' ip)) = settled_cell es'" for es'
      by (simp add: fun_eq_iff value_cell_settled)
    show ?thesis
      using False r run p
      by (simp add: Let_def IPQueryResultDisplay_def tables_of_cells m c)
  qed
qed

definition sample_ip_task :: PendingTask where
  "sample_ip_task =
     \<lparr>sources = [''dn42'', ''ipinfo''], targets = [''1.1.1.1''], taskId = ''7'', task_type = T_ip_query,
      preferV4 = None, preferV6 = None, useUDP = None, pmtu = None, dnsProbePlan = None,
      dnsProbeTargets = None, httpProbeTargets = None, targetsInput = None, headersInput = None,
      selectingHttpTransport = None, selectingIPPref = None, addHeaderSW = None,
      routeQueryType = None, routeQueryTgt = None\<rparr>"

lemma ip_table_after_stream_witness:
  "vw_table (IPQueryResultDisplay sample_ip_task ((ip_display_init sample_ip_task)\<lparr>ip_active := ''ipinfo''\<rparr>)
     (ip_provider_map sample_ip_task
       (Opened # map Item [(sample_entry ''ipinfo'')\<lparr>qe_err := Some ''timeout''\<rparr>] @ [End_of_stream]))) ! 1
     = [C_head ''ASN'', C_error ''timeout'']
   \<and> vw_table (IPQueryResultDisplay sample_ip_task ((ip_display_init sample_ip_task)\<lparr>ip_orientation := ATTR_COL\<rparr>)
     (ip_provider_map sample_ip_task
       (Opened # map Item [(sample_entry ''ipinfo'')\<lparr>qe_err := Some ''timeout''\<rparr>] @ [End_of_stream]))) ! 1
     = C_head ''1.1.1.1'' # replicate 7 C_spinner"
proof -
  let ?e = "(sample_entry ''ipinfo'')\<lparr>qe_err := Some ''timeout''\<rparr>"
  let ?v = "\<lambda>d. IPQueryResultDisplay sample_ip_task d
     (ip_provider_map sample_ip_task (Opened # map Item [?e] @ [End_of_stream]))"
  have n: "targets sample_ip_task \<noteq> []" "sources sample_ip_task \<noteq> []" by (simp_all add: sample_ip_task_def)
  have p: "vw_provider (?v ((ip_display_init sample_ip_task)\<lparr>ip_active := ''ipinfo''\<rparr>)) = ''ipinfo''"
      "vw_provider (?v ((ip_display_init sample_ip_task)\<lparr>ip_orientation := ATTR_COL\<rparr>)) = ''dn42''"
    by (simp_all add: IPQueryResultDisplay_def Let_def ip_valid_provider_def sample_ip_task_def ip_display_init_def)
  have t: "settled_cell [?e] ''1.1.1.1'' A_ASN = C_error ''timeout''"
      "entries_of ''ipinfo'' [?e] = [?e]" "entries_of ''dn42'' [?e] = []" "targets sample_ip_task = [''1.1.1.1'']"
    by (simp_all add: settled_cell_def sample_entry_def sample_ip_task_def entries_of_def)
  have "vw_table (?v ((ip_display_init sample_ip_task)\<lparr>ip_active := ''ipinfo''\<rparr>))
      = table_of_cells IP_COL [''1.1.1.1''] (settled_cell [?e])"
    using ip_table_after_stream [OF n, of "[?e]" "(ip_display_init sample_ip_task)\<lparr>ip_active := ''ipinfo''\<rparr>"]
    unfolding Let_def p t by (simp add: ip_display_init_def)
  moreover have "vw_table (?v ((ip_display_init sample_ip_task)\<lparr>ip_orientation := ATTR_COL\<rparr>))
      = table_of_cells ATTR_COL [''1.1.1.1''] (\<lambda>ip k. C_spinner)"
    using ip_table_after_stream [OF n, of "[?e]" "(ip_display_init sample_ip_task)\<lparr>ip_orientation := ATTR_COL\<rparr>"]
    unfolding Let_def p t by simp
  ultimately show ?thesis using t by (simp add: table_of_cells_def numeral_eq_Suc)
qed

end
