(* ===== verification/Profile.thy ===== *)
theory Profile
  imports Display "HOL-Library.Word"
begin

text \<open>
  The user's profile and the small controls of the page: \<^verbatim>\<open>web/components/AvatarIconMenu.tsx\<close>,
  \<^verbatim>\<open>web/apis/basicprofile.ts\<close>, \<^verbatim>\<open>web/components/ModeSelector.tsx\<close>, \<^verbatim>\<open>taskclose.tsx\<close>,
  \<^verbatim>\<open>ipdisp.tsx\<close>, the repository link of \<^verbatim>\<open>web/apis/getrepo.ts\<close> and the options of
  \<^verbatim>\<open>web/app/login/page.tsx\<close>.
\<close>

unbundle bit_operations_syntax

section \<open>The avatar\<close>

text \<open>One round of the loop. \<open>hash << 5\<close> works on the hash modulo \<open>2\<^sup>32\<close>, read as a signed number;
  the subtraction and the addition are on the number itself, which is never cut back.\<close>

definition hue_step :: "int \<Rightarrow> char \<Rightarrow> int" where
  "hue_step hash c = of_char c + (sint (push_bit 5 (word_of_int hash :: 32 word)) - hash)"

definition string_hash :: "string \<Rightarrow> int" where
  "string_hash str = foldl hue_step 0 str"

definition stringToHue :: "string \<Rightarrow> int" where
  "stringToHue str = \<bar>string_hash str\<bar> mod 360"

definition getInitial :: "string \<Rightarrow> string" where
  "getInitial username = (if username = [] then [] else [to_upper_char (hd username)])"

record BasicProfile =
  subject_id :: string
  profile_username :: string

text \<open>The query function: the outcome of the fetch, as the status and the parsed body.\<close>

definition fetch_profile :: "nat \<Rightarrow> BasicProfile option \<Rightarrow> string + BasicProfile option" where
  "fetch_profile status body =
     (if status = 401 then Inl ''Unauthenticated, retry after login''
      else if \<not> (200 \<le> status \<and> status \<le> 299) then Inl (''Failed to fetch profile: '' @ nat_to_string status)
      else Inr body)"

record avatar_menu =
  am_initial :: "string option"
  am_color :: string
  am_items :: "(string \<times> bool) list"

text \<open>The menu of the query's data; an item is its text and whether it can be pressed.\<close>

definition AvatarIconMenu :: "BasicProfile option \<Rightarrow> avatar_menu" where
  "AvatarIconMenu profile =
     (let username = (case profile of None \<Rightarrow> [] | Some p \<Rightarrow> profile_username p);
          hue = stringToHue (if username = [] then ''guest'' else username)
      in \<lparr>am_initial = (case profile of None \<Rightarrow> None | Some p \<Rightarrow> Some (getInitial username)),
          am_color = ''hsl('' @ int_to_string hue @ '', 50%, 50%)'',
          am_items = (case profile of
                        Some p \<Rightarrow> [(''Login as: '' @ username, False), (''Logout'', True)]
                      | None \<Rightarrow> [(''Not logged in'', False)])\<rparr>)"

section \<open>Colour mode\<close>

datatype DarkModePreference = PreferSystem | PreferDark | PreferLight

definition modes :: "DarkModePreference list" where
  "modes = [PreferSystem, PreferDark, PreferLight]"

fun find_index :: "('a \<Rightarrow> bool) \<Rightarrow> 'a list \<Rightarrow> nat option" where
  "find_index p [] = None"
| "find_index p (x # xs) = (if p x then Some 0 else map_option Suc (find_index p xs))"

definition mode_click :: "DarkModePreference \<Rightarrow> DarkModePreference" where
  "mode_click mode =
     (case find_index (\<lambda>m. m = mode) modes of
        None \<Rightarrow> mode
      | Some idx \<Rightarrow> if length modes \<ge> 1 then modes ! ((idx + 1) mod length modes) else mode)"

section \<open>Dialogs, addresses, links\<close>

datatype close_move = Close_icon | Close_cancel | Close_confirm

text \<open>The dialog's state and how often the parent was told to close the task.\<close>

fun close_step :: "bool \<times> nat \<Rightarrow> close_move \<Rightarrow> bool \<times> nat" where
  "close_step (shown, n) Close_icon = (True, n)"
| "close_step (shown, n) Close_cancel = (False, n)"
| "close_step (shown, n) Close_confirm = (if shown then (shown, n + 1) else (shown, n))"

definition ip_disp :: "string \<Rightarrow> string option \<Rightarrow> string \<times> string" where
  "ip_disp ip rdns =
     (if ip \<noteq> [] then ip else str_or rdns [],
      if truthy_str rdns then the rdns else if ip \<noteq> [] then ip else ''***'')"

definition ip_disp_open :: "string option \<Rightarrow> bool \<Rightarrow> bool" where
  "ip_disp_open rdns was_open = (if truthy_str rdns then True else was_open)"

definition getRepo_url :: "string \<Rightarrow> string \<Rightarrow> string" where
  "getRepo_url owner name = ''https://api.github.com/repos/'' @ owner @ ''/'' @ name"

record LoginOption =
  lo_name :: string
  lo_displayName :: string
  lo_label :: "string option"
  lo_loginURL :: string

definition login_option :: "string \<Rightarrow> string \<Rightarrow> string option \<Rightarrow> string option \<Rightarrow> LoginOption" where
  "login_option name display label url =
     \<lparr>lo_name = name, lo_displayName = display, lo_label = label, lo_loginURL = nullish url []\<rparr>"

definition loginOptions :: "(string \<Rightarrow> string option) \<Rightarrow> LoginOption list" where
  "loginOptions env =
     [login_option ''github'' ''Github'' None (env ''NEXT_PUBLIC_GITHUB_LOGIN_URL''),
      login_option ''google'' ''Google'' None (env ''NEXT_PUBLIC_GOOGLE_LOGIN_URL''),
      login_option ''entra'' ''Entra ID'' None (env ''NEXT_PUBLIC_ENTRA_LOGIN_URL''),
      login_option ''iedon'' ''iEdon'' None (env ''NEXT_PUBLIC_IEDON_LOGIN_URL''),
      login_option ''kioubit'' ''Kioubit'' None (env ''NEXT_PUBLIC_KIOUBIT_LOGIN_URL''),
      login_option ''visitor'' [] (Some ''Sign in as Visitor'') (env ''NEXT_PUBLIC_VISITOR_LOGIN_URL'')]"

datatype login_effect = Go_to string | Alert string

definition handleLogin :: "string \<Rightarrow> login_effect" where
  "handleLogin loginURL = (if loginURL \<noteq> [] then Go_to loginURL else Alert ''no supported'')"

definition activeLoginOptions :: "(string \<Rightarrow> string option) \<Rightarrow> LoginOption list" where
  "activeLoginOptions env = filter (\<lambda>opt. lo_loginURL opt \<noteq> []) (loginOptions env)"

definition login_button :: "LoginOption \<Rightarrow> string" where
  "login_button opt = str_or (lo_label opt) (''Sign in with '' @ lo_displayName opt)"

section \<open>Properties\<close>

lemma hue_step_cong: "(word_of_int (hue_step h c) :: 32 word) = of_char c + 31 * word_of_int h"
proof -
  have "(word_of_int (sint (push_bit 5 (word_of_int h :: 32 word))) :: 32 word) = 32 * word_of_int h"
    by (simp add: push_bit_eq_mult)
  moreover have "(word_of_int (of_char c) :: 32 word) = of_char c"
    by (rule of_int_of_char)
  ultimately show ?thesis by (simp add: hue_step_def)
qed

lemma hue_step_bound: "\<bar>hue_step h c\<bar> \<le> \<bar>h\<bar> + (2 ^ 31 + 255)"
proof -
  have "- (2 ^ 31) \<le> sint (push_bit 5 (word_of_int h :: 32 word))"
    "sint (push_bit 5 (word_of_int h :: 32 word)) < 2 ^ 31"
    using sint_ge [of "push_bit 5 (word_of_int h :: 32 word)"] sint_lt [of "push_bit 5 (word_of_int h :: 32 word)"]
    by simp_all
  moreover have "(of_char c :: int) \<le> 255" "0 \<le> (of_char c :: int)"
    using nat_of_char_less_256 [of c] of_nat_of_char [of c, where ?'a = int] by linarith+
  ultimately show ?thesis unfolding hue_step_def by linarith
qed

text \<open>The hash of a user name agrees modulo \<open>2\<^sup>32\<close> with the classic 32-bit hash
  \<open>31 * h + c\<close>. It is not cut back to 32 bits, so it grows with the name, but only linearly: up to
  four million characters it stays below \<open>2\<^sup>53\<close>, where the language's numbers are exact. The hue is
  a valid one.\<close>

theorem name_hash:
  "(word_of_int (string_hash s) :: 32 word) = foldl (\<lambda>h c. of_char c + 31 * h) 0 s
   \<and> \<bar>string_hash s\<bar> \<le> int (length s) * (2 ^ 31 + 255)
   \<and> (length s \<le> 4000000 \<longrightarrow> \<bar>string_hash s\<bar> < 2 ^ 53)
   \<and> 0 \<le> stringToHue s \<and> stringToHue s < 360"
proof -
  have w: "(word_of_int (string_hash s) :: 32 word) = foldl (\<lambda>h c. of_char c + 31 * h) 0 s"
    unfolding string_hash_def by (induction s rule: rev_induct) (simp_all add: hue_step_cong)
  have b: "\<bar>string_hash s\<bar> \<le> int (length s) * (2 ^ 31 + 255)"
    unfolding string_hash_def
  proof (induction s rule: rev_induct)
    case (snoc c s)
    then show ?case using hue_step_bound [of "foldl hue_step 0 s" c] by (simp add: algebra_simps)
  qed simp
  then have "length s \<le> 4000000 \<Longrightarrow> \<bar>string_hash s\<bar> < 2 ^ 53" by simp
  with w b show ?thesis by (simp add: stringToHue_def)
qed

lemma name_hash_witness: "0 \<le> stringToHue ''guest'' \<and> \<bar>string_hash ''guest''\<bar> < 2 ^ 53"
  using name_hash [of "''guest''"] by simp

text \<open>The mode button goes through all three modes; a login button never alerts.\<close>

lemma mode_click_cycle: "mode_click (mode_click (mode_click m)) = m \<and> mode_click m \<noteq> m"
  by (cases m) (simp_all add: mode_click_def modes_def)

lemma login_button_navigates: "opt \<in> set (activeLoginOptions env) \<Longrightarrow> handleLogin (lo_loginURL opt) = Go_to (lo_loginURL opt)"
  by (simp add: activeLoginOptions_def handleLogin_def)

end
