(* ===== verification/Email_Worker.thy ===== *)
theory Email_Worker
  imports Prelude
begin

text \<open>
  \<^verbatim>\<open>workers/email/src/index.ts\<close>: the worker that forwards a mail to an HTTP API and answers with the
  API's response. The mail, the response and the MIME library are outside; the worker's own part is
  the request it makes and the reply it composes. A header of \<open>Headers.get\<close> that is missing is
  \<open>None\<close>.
\<close>

record mail_env =
  TUI_SERVICE_TOKEN_ID :: string
  TUI_SERVICE_TOKEN_SECRET :: string
  UPSTREAM_MAIL_API_URL :: string
  REPLY_SENDER_EMAIL :: string
  REPLY_SENDER_NAME :: string

record mail_message =
  mail_from :: string
  mail_headers :: "string \<Rightarrow> string option"
  mail_raw :: string

record upstream_request =
  up_url :: string
  up_body :: string
  up_headers :: "(string \<times> string) list"

record upstream_response =
  resp_status :: nat
  resp_contentType :: "string option"
  resp_text :: string

record mail_reply =
  rp_inReplyTo :: string
  rp_sender :: "string \<times> string"
  rp_recipient :: string
  rp_subject :: string
  rp_contentType :: string
  rp_data :: string

definition upstream_of :: "mail_env \<Rightarrow> mail_message \<Rightarrow> upstream_request" where
  "upstream_of env message =
     \<lparr>up_url = UPSTREAM_MAIL_API_URL env, up_body = mail_raw message,
      up_headers = [(''Content-Type'', nullish (mail_headers message ''Content-Type'') []),
                    (''CF-Access-Client-Id'', TUI_SERVICE_TOKEN_ID env),
                    (''CF-Access-Client-Secret'', TUI_SERVICE_TOKEN_SECRET env)]\<rparr>"

definition semicolon :: char where "semicolon = CHR '';''"

text \<open>\<^verbatim>\<open>replace(/;.+$/, "")\<close>: from the first semicolon on, if anything follows it. A header value has
  no line break.\<close>

definition strip_parameters :: "string \<Rightarrow> string" where
  "strip_parameters s =
     (let head = takeWhile (\<lambda>c. c \<noteq> semicolon) s; tail = dropWhile (\<lambda>c. c \<noteq> semicolon) s
      in if length tail > 1 then head else s)"

text \<open>Concatenating an absent header gives the text \<^verbatim>\<open>null\<close>.\<close>

definition email_reply :: "mail_env \<Rightarrow> mail_message \<Rightarrow> upstream_response \<Rightarrow> mail_reply" where
  "email_reply env message resp =
     \<lparr>rp_inReplyTo = nullish (mail_headers message ''Message-ID'') [],
      rp_sender = (REPLY_SENDER_NAME env, REPLY_SENDER_EMAIL env),
      rp_recipient = mail_from message,
      rp_subject = ''Re: '' @ nullish (mail_headers message ''Subject'') ''null'',
      rp_contentType = nullish (map_option strip_parameters (resp_contentType resp)) ''text/plain'',
      rp_data = resp_text resp\<rparr>"

definition email_fetch :: "string \<Rightarrow> string \<times> nat" where
  "email_fetch url = (''Not Found'', 404)"

section \<open>Properties\<close>

lemma strip_parameters_media_type:
  "semicolon \<notin> set m \<Longrightarrow> ps \<noteq> [] \<Longrightarrow> strip_parameters (m @ semicolon # ps) = m"
proof -
  assume m: "semicolon \<notin> set m" and ps: "ps \<noteq> []"
  have "dropWhile (\<lambda>c. c \<noteq> semicolon) (m @ semicolon # ps) = semicolon # ps
      \<and> takeWhile (\<lambda>c. c \<noteq> semicolon) (m @ semicolon # ps) = m"
    using m by (induction m) auto
  with ps show ?thesis by (simp add: strip_parameters_def)
qed

lemma strip_parameters_plain: "semicolon \<notin> set m \<Longrightarrow> strip_parameters m = m"
  by (induction m) (auto simp: strip_parameters_def Let_def)

text \<open>A reply goes back to the sender of the mail, in its thread, with the API's text whatever the
  status of the API's response, under the bare media type of that response (parameters such as
  the charset are dropped); a mail without a subject is answered under the subject \<^verbatim>\<open>Re: null\<close>.\<close>

theorem reply_of_mail:
  assumes "semicolon \<notin> set m" and "ps \<noteq> []"
  shows "rp_contentType (email_reply env message
           \<lparr>resp_status = st, resp_contentType = Some (m @ semicolon # ps), resp_text = t\<rparr>) = m
    \<and> rp_recipient (email_reply env message r) = mail_from message
    \<and> rp_data (email_reply env message (r\<lparr>resp_status := st\<rparr>)) = resp_text r
    \<and> (mail_headers message ''Subject'' = None \<longrightarrow> rp_subject (email_reply env message r) = ''Re: null'')
    \<and> (\<forall>s. mail_headers message ''Subject'' = Some s \<longrightarrow> rp_subject (email_reply env message r) = ''Re: '' @ s)"
  using assms by (simp add: email_reply_def strip_parameters_media_type)

lemma reply_of_mail_witness:
  "rp_contentType (email_reply
      \<lparr>TUI_SERVICE_TOKEN_ID = [], TUI_SERVICE_TOKEN_SECRET = [], UPSTREAM_MAIL_API_URL = [],
       REPLY_SENDER_EMAIL = [], REPLY_SENDER_NAME = []\<rparr>
      \<lparr>mail_from = ''a@b'', mail_headers = Map.empty, mail_raw = []\<rparr>
      \<lparr>resp_status = 500, resp_contentType = Some (''text/html'' @ semicolon # '' charset=utf-8''), resp_text = []\<rparr>)
    = ''text/html''"
  by (rule reply_of_mail [THEN conjunct1]) (simp_all add: semicolon_def)

end
