(* ===== verification/Source_Selector.thy ===== *)
theory Source_Selector
  imports Task Mrt_Providers
begin

text \<open>
  \<^verbatim>\<open>web/components/sourceselector.tsx\<close>: the three selectors of sources (agents, route data
  providers, IP data providers). They differ in the type of an option and its key; each loads its
  options whenever it is opened and shows the selected keys it knows an option for. The widget of
  the component library is a parameter: what it reports when an option is picked.
\<close>

section \<open>State\<close>

record 'o selector =
  ss_options :: "'o list"
  ss_isLoading :: bool
  ss_isOpen :: bool
  ss_pending :: nat

definition selector_init :: "'o selector" where
  "selector_init = \<lparr>ss_options = [], ss_isLoading = False, ss_isOpen = False, ss_pending = 0\<rparr>"

text \<open>\<open>ss_pending\<close> counts the promises of \<open>onOpen\<close> that are not settled. A response without data keeps
  the options; so does a rejection.\<close>

datatype 'o selector_move = S_open | S_close | S_settled "'o list option"

fun selector_step :: "'o selector \<Rightarrow> 'o selector_move \<Rightarrow> 'o selector" where
  "selector_step s S_open = s\<lparr>ss_isOpen := True, ss_isLoading := True, ss_pending := ss_pending s + 1\<rparr>"
| "selector_step s S_close = s\<lparr>ss_isOpen := False\<rparr>"
| "selector_step s (S_settled res) =
     (if ss_pending s = 0 then s
      else s\<lparr>ss_options := nullish res (ss_options s), ss_isLoading := False, ss_pending := ss_pending s - 1\<rparr>)"

text \<open>The keys reported when option \<open>x\<close> is picked: \<open>pick\<close> is the widget's change of its list.\<close>

definition selector_change ::
  "('o list \<Rightarrow> 'o \<Rightarrow> 'o list) \<Rightarrow> ('o \<Rightarrow> string) \<Rightarrow> 'o selector \<Rightarrow> string list \<Rightarrow> 'o \<Rightarrow> string list" where
  "selector_change pick key s value x = map key (pick (options_selected key (ss_options s) value) x)"

definition selector_placeholder :: "('o \<Rightarrow> string) \<Rightarrow> 'o selector \<Rightarrow> string list \<Rightarrow> string" where
  "selector_placeholder key s value =
     (if length (options_selected key (ss_options s) value) > 0 then []
      else ''Hint: multiple items can be selected at a time'')"

section \<open>Options\<close>

text \<open>An agent's line: its label, then city and country, then AS number and provider.\<close>

definition agent_option :: "SourceOption \<Rightarrow> int list \<times> string option \<times> string option" where
  "agent_option opt =
     (let truthy = (\<lambda>s. if truthy_str s then [the s] else []);
          cityLoc = truthy (so_cityName opt) @ truthy (so_iso3166alpha2 opt);
          asnIsp = truthy (so_asn opt) @ truthy (so_isp opt)
      in (getOptionLabel opt,
          if length cityLoc > 0 then Some (js_join '', '' cityLoc) else None,
          if length asnIsp > 0 then Some (js_join '' '' asnIsp) else None))"

fun getProviderStatusLabel :: "ProviderStatus \<Rightarrow> string" where
  "getProviderStatusLabel Provisioning = ''Provisioning''"
| "getProviderStatusLabel Ready = ''Ready''"

definition provider_option :: "MRTEntriesProvider \<Rightarrow> string \<times> string \<times> string \<times> string" where
  "provider_option option =
     (mp_Name option, getProviderStatusLabel (mp_Status option),
      if mp_Status option = Ready then ''success'' else ''warning'', ''Updated: '' @ mp_LastModified option)"

section \<open>Properties\<close>

lemma selector_loading_pending: "ss_isLoading (foldl selector_step selector_init ms) \<Longrightarrow>
    0 < ss_pending (foldl selector_step selector_init ms)"
proof (induction ms rule: rev_induct)
  case (snoc m ms)
  then show ?case by (cases m) (auto split: if_splits)
qed (simp add: selector_init_def)

text \<open>The documented behaviour of the widget: picking an option adds it, or removes it if it is there.\<close>

definition toggles :: "('o list \<Rightarrow> 'o \<Rightarrow> 'o list) \<Rightarrow> bool" where
  "toggles pick \<longleftrightarrow> (\<forall>v x. set (pick v x) = (if x \<in> set v then set v - {x} else insert x (set v)))"

text \<open>Picking an option toggles its key among the selected keys the selector knows an option for;
  selected keys without an option (not loaded, or no longer offered) are silently given up. So the
  selection changes by the picked key alone exactly if every selected key is offered. And the
  spinner never outlives the requests: it shows only while one is unsettled.\<close>

theorem picking_a_source:
  assumes "toggles pick" and "inj_on key (set (ss_options s))" and "x \<in> set (ss_options s)"
  shows "set (selector_change pick key s value x)
      = (let known = set value \<inter> key ` set (ss_options s)
         in if key x \<in> set value then known - {key x} else insert (key x) known)
    \<and> (set (selector_change pick key s value x)
         = (if key x \<in> set value then set value - {key x} else insert (key x) (set value))
       \<longleftrightarrow> set value \<subseteq> key ` set (ss_options s))
    \<and> (ss_isLoading (foldl selector_step selector_init ms) \<longrightarrow> 0 < ss_pending (foldl selector_step selector_init ms))"
proof -
  let ?sel = "options_selected key (ss_options s) value"
  have sel: "set ?sel = {opt \<in> set (ss_options s). key opt \<in> set value}" by (auto simp: options_selected_def)
  have keys: "key ` set ?sel = set value \<inter> key ` set (ss_options s)" unfolding sel by auto
  have x: "x \<in> set ?sel \<longleftrightarrow> key x \<in> set value" using assms(3) by (simp add: sel)
  have "set (pick ?sel x) = (if key x \<in> set value then set ?sel - {x} else insert x (set ?sel))"
    using assms(1) x by (simp add: toggles_def)
  moreover have "key ` (set ?sel - {x}) = key ` set ?sel - {key x}"
    using assms(2,3) sel by (subst inj_on_image_set_diff [where C = "set (ss_options s)"]) auto
  ultimately have c: "set (selector_change pick key s value x)
      = (let known = set value \<inter> key ` set (ss_options s)
         in if key x \<in> set value then known - {key x} else insert (key x) known)"
    by (simp add: selector_change_def keys Let_def)
  have "key x \<in> key ` set (ss_options s)" using assms(3) by simp
  with c selector_loading_pending [of ms] show ?thesis by (auto simp: Let_def split: if_splits)
qed

definition append_or_remove :: "'o list \<Rightarrow> 'o \<Rightarrow> 'o list" where
  "append_or_remove v x = (if x \<in> set v then filter (\<lambda>y. y \<noteq> x) v else v @ [x])"

text \<open>With ''b'' selected but not offered, picking ''a'' gives it up.\<close>

lemma picking_a_source_witness:
  "set (selector_change append_or_remove id (selector_init\<lparr>ss_options := [''a'', ''c'']\<rparr>) [''b'', ''c''] ''a'') = {''a'', ''c''}"
proof -
  have "toggles (append_or_remove :: string list \<Rightarrow> string \<Rightarrow> string list)"
    unfolding toggles_def append_or_remove_def by auto
  from picking_a_source [OF this, of id "selector_init\<lparr>ss_options := [''a'', ''c'']\<rparr>" "''a''" "[''b'', ''c'']" "[]"]
  show ?thesis by (auto simp: selector_init_def Let_def)
qed

end
