(* ===== verification/Events_Hook.thy ===== *)
theory Events_Hook
  imports Http_Probe Task
begin

text \<open>
  The hook \<open>useEVsRead\<close> of \<^verbatim>\<open>web/components/EventsBrowser.tsx\<close> as a machine over timers and reads, what
  the browser and the HTTP probe display (\<^verbatim>\<open>httpprobedisplay.tsx\<close>) render from it.
\<close>

section \<open>The reading loops\<close>

text \<open>Every run of the effect with a reader starts a loop: a timer, then a pending read, then the next
  timer. All loops share \<open>tickRef\<close>, which holds the timer that was set last; a timer is named by its
  loop, of which at most one is outstanding. \<open>eh_cleanup\<close> says whether the last run of the effect
  registered a clean-up.\<close>

datatype loop_phase = L_timer | L_reading | L_over

record evs_hook =
  eh_view :: evs_state
  eh_loops :: "loop_phase list"
  eh_tick :: "nat option"
  eh_cleanup :: bool

definition evs_hook_init :: evs_hook where
  "evs_hook_init = \<lparr>eh_view = evs_init, eh_loops = [], eh_tick = None, eh_cleanup = False\<rparr>"

definition evs_startTick :: "nat \<Rightarrow> evs_hook \<Rightarrow> evs_hook" where
  "evs_startTick i h = h\<lparr>eh_loops := (eh_loops h)[i := L_timer], eh_tick := Some i\<rparr>"

definition evs_effect_cleanup :: "evs_hook \<Rightarrow> evs_hook" where
  "evs_effect_cleanup h =
     (if \<not> eh_cleanup h then h
      else h\<lparr>eh_tick := None,
             eh_loops := (case eh_tick h of
                            None \<Rightarrow> eh_loops h
                          | Some i \<Rightarrow> if eh_loops h ! i = L_timer then (eh_loops h)[i := L_over] else eh_loops h),
             eh_view := evs_cleanup (eh_view h)\<rparr>)"

datatype evs_move =
    EV_effect bool
  | EV_timer nat
  | EV_value nat "EventObject option"
  | EV_done nat
  | EV_failed nat

fun evs_step :: "evs_hook \<Rightarrow> evs_move \<Rightarrow> evs_hook" where
  "evs_step h (EV_effect has_reader) =
     (let h = evs_effect_cleanup h
      in if \<not> has_reader then h\<lparr>eh_cleanup := False\<rparr>
         else evs_startTick (length (eh_loops h)) (h\<lparr>eh_loops := eh_loops h @ [L_timer], eh_cleanup := True\<rparr>))"
| "evs_step h (EV_timer i) =
     (if i < length (eh_loops h) \<and> eh_loops h ! i = L_timer then h\<lparr>eh_loops := (eh_loops h)[i := L_reading]\<rparr> else h)"
| "evs_step h (EV_value i value) =
     (if i < length (eh_loops h) \<and> eh_loops h ! i = L_reading then
        (if eh_tick h = None then h\<lparr>eh_loops := (eh_loops h)[i := L_over]\<rparr>
         else evs_startTick i (case value of None \<Rightarrow> h | Some v \<Rightarrow> h\<lparr>eh_view := evs_read (eh_view h) v\<rparr>))
      else h)"
| "evs_step h (EV_done i) =
     (if i < length (eh_loops h) \<and> eh_loops h ! i = L_reading then h\<lparr>eh_loops := (eh_loops h)[i := L_over]\<rparr> else h)"
| "evs_step h (EV_failed i) =
     (if i < length (eh_loops h) \<and> eh_loops h ! i = L_reading then h\<lparr>eh_loops := (eh_loops h)[i := L_over]\<rparr> else h)"

definition evs_steps :: "evs_hook \<Rightarrow> evs_move list \<Rightarrow> evs_hook" where
  "evs_steps h ms = foldl evs_step h ms"

section \<open>What is rendered\<close>

record event_card =
  cd_time :: string
  cd_message :: string
  cd_labels :: "labels option"
  cd_annotations :: "labels option"

definition EventDock ::
  "(string \<Rightarrow> string \<Rightarrow> int) \<Rightarrow> (int \<Rightarrow> string) \<Rightarrow> EventObject list \<Rightarrow> event_card list" where
  "EventDock localeCompare toISO evs =
     map (\<lambda>ev. \<lparr>cd_time = toISO (eo_timestamp ev), cd_message = eo_message ev,
                cd_labels = map_option (chips localeCompare) (eo_labels ev),
                cd_annotations = map_option (chips localeCompare) (eo_annotations ev)\<rparr>) evs"

text \<open>The two rows of chips with the active one marked.\<close>

definition filter_row :: "string \<Rightarrow> labels \<Rightarrow> string list \<Rightarrow> (string \<times> bool) list" where
  "filter_row key evLabelsFilter vals = map (\<lambda>s. (s, map_of evLabelsFilter key = Some s)) vals"

definition EventsFilterDisplay :: "labels \<Rightarrow> evs_state \<Rightarrow> (string \<times> bool) list \<times> (string \<times> bool) list" where
  "EventsFilterDisplay evLabelsFilter st =
     (filter_row FILTERKEY_FROM evLabelsFilter (es_srcs st), filter_row FILTERKEY_CORR_ID evLabelsFilter (es_dsts st))"

datatype http_body = Body_loading | Body_events "event_card list" | Body_no_data

definition HTTPProbeDisplay ::
  "(string \<Rightarrow> string \<Rightarrow> int) \<Rightarrow> (int \<Rightarrow> string) \<Rightarrow> bool \<Rightarrow> bool \<Rightarrow> labels \<Rightarrow> evs_state
   \<Rightarrow> ((string \<times> bool) list \<times> (string \<times> bool) list) option \<times> http_body" where
  "HTTPProbeDisplay localeCompare toISO isLoading has_reader evLabelsFilter st =
     (if \<not> isLoading \<and> length (es_dsts st) + length (es_srcs st) > 0
      then Some (EventsFilterDisplay evLabelsFilter st) else None,
      if isLoading then Body_loading
      else if has_reader then Body_events (EventDock localeCompare toISO (shown_events st (Some evLabelsFilter)))
      else Body_no_data)"

section \<open>Properties\<close>

text \<open>The rounds of one undisturbed loop: the timer fires, the read delivers.\<close>

definition rounds :: "nat \<Rightarrow> EventObject option list \<Rightarrow> evs_move list" where
  "rounds i vs = concat (map (\<lambda>v. [EV_timer i, EV_value i v]) vs)"

lemma rounds_run:
  assumes "i < length (eh_loops h)" and "eh_loops h ! i = L_timer" and "eh_tick h = Some i"
  shows "evs_steps h (rounds i vs) = h\<lparr>eh_view := foldl evs_read (eh_view h) (List.map_filter id vs)\<rparr>"
  using assms
proof (induction vs arbitrary: h)
  case Nil
  then show ?case by (simp add: rounds_def evs_steps_def map_filter_simps)
next
  case (Cons v vs)
  define h1 where "h1 = (case v of None \<Rightarrow> h | Some e \<Rightarrow> h\<lparr>eh_view := evs_read (eh_view h) e\<rparr>)"
  have l: "(eh_loops h)[i := L_timer] = eh_loops h" using Cons.prems(2) by (metis list_update_id)
  have "evs_steps h [EV_timer i, EV_value i v] = h1"
    using Cons.prems l by (cases v) (simp_all add: evs_steps_def evs_startTick_def h1_def)
  then have "evs_steps h (rounds i (v # vs)) = evs_steps h1 (rounds i vs)"
    by (simp add: rounds_def evs_steps_def)
  also have "\<dots> = h1\<lparr>eh_view := foldl evs_read (eh_view h1) (List.map_filter id vs)\<rparr>"
    using Cons.prems by (intro Cons.IH) (cases v; simp add: h1_def)+
  finally show ?case by (cases v) (simp_all add: h1_def map_filter_simps id_def)
qed

lemma effect_starts_loop:
  "evs_step evs_hook_init (EV_effect True) =
     \<lparr>eh_view = evs_init, eh_loops = [L_timer], eh_tick = Some 0, eh_cleanup = True\<rparr>"
  by (simp add: evs_hook_init_def evs_effect_cleanup_def evs_startTick_def)

text \<open>C25. One reader alone: after any number of rounds the browser has read exactly the values
  delivered, in order. A refresh empties the list and a read that settles while the new reader is
  being opened is ignored; but a read of the old reader that is still pending when the new one
  starts is not: \<open>tickRef\<close> is set again, so the old value lands in the new list and the old loop
  goes on beside the new one.\<close>

theorem refresh_and_pending_read:
  assumes "eh_cleanup h" and "i < length (eh_loops h)" and "eh_loops h ! i = L_reading"
  shows "eh_view (evs_steps evs_hook_init (EV_effect True # rounds 0 vs)) = evs_run (List.map_filter id vs)
    \<and> es_evs (eh_view (evs_steps h [EV_effect False, EV_value i (Some v), EV_effect True])) = []
    \<and> eh_loops (evs_steps h [EV_effect False, EV_value i (Some v), EV_effect True]) ! i = L_over
    \<and> es_evs (eh_view (evs_steps h [EV_effect False, EV_effect True, EV_value i (Some v)])) = [v]
    \<and> eh_loops (evs_steps h [EV_effect False, EV_effect True, EV_value i (Some v)]) ! i = L_timer"
proof -
  have one: "eh_view (evs_steps evs_hook_init (EV_effect True # rounds 0 vs)) = evs_run (List.map_filter id vs)"
  proof -
    have "evs_steps evs_hook_init (EV_effect True # rounds 0 vs)
        = evs_steps (evs_step evs_hook_init (EV_effect True)) (rounds 0 vs)" by (simp add: evs_steps_def)
    then show ?thesis by (simp add: effect_starts_loop rounds_run evs_run_def del: evs_step.simps)
  qed
  define h1 where "h1 = evs_step h (EV_effect False)"
  have "(eh_loops h)[j := L_over] ! i = L_reading" if "eh_loops h ! j = L_timer" for j
    using that assms(3) by (cases "j = i") simp_all
  then have h1: "eh_tick h1 = None" "\<not> eh_cleanup h1" "es_evs (eh_view h1) = []" "i < length (eh_loops h1)"
    "eh_loops h1 ! i = L_reading"
    using assms
    by (auto simp: h1_def Let_def evs_effect_cleanup_def evs_cleanup_def split: option.split)
  have step: "evs_steps h (EV_effect False # ms) = evs_steps h1 ms" for ms by (simp add: evs_steps_def h1_def)
  have "es_evs (eh_view (evs_steps h1 [EV_value i (Some v), EV_effect True])) = []"
    "eh_loops (evs_steps h1 [EV_value i (Some v), EV_effect True]) ! i = L_over"
    "es_evs (eh_view (evs_steps h1 [EV_effect True, EV_value i (Some v)])) = [v]"
    "eh_loops (evs_steps h1 [EV_effect True, EV_value i (Some v)]) ! i = L_timer"
    using h1 by (simp_all add: evs_steps_def Let_def evs_effect_cleanup_def evs_startTick_def evs_read_def nth_append)
  with one show ?thesis unfolding step by blast
qed

lemma refresh_and_pending_read_witness:
  "es_evs (eh_view (evs_steps evs_hook_init
     [EV_effect True, EV_timer 0, EV_effect False, EV_effect True, EV_value 0 (Some (sample_browser_event ''a'' 5 ''nyc''))]))
   = [sample_browser_event ''a'' 5 ''nyc'']"
proof -
  let ?h = "evs_steps evs_hook_init [EV_effect True, EV_timer 0]"
  have h: "?h = \<lparr>eh_view = evs_init, eh_loops = [L_reading], eh_tick = Some 0, eh_cleanup = True\<rparr>"
    by (simp add: evs_steps_def effect_starts_loop del: evs_step.simps(1))
  have "es_evs (eh_view (evs_steps ?h
      [EV_effect False, EV_effect True, EV_value 0 (Some (sample_browser_event ''a'' 5 ''nyc''))]))
    = [sample_browser_event ''a'' 5 ''nyc'']"
    using refresh_and_pending_read [of ?h 0 "[]" "sample_browser_event ''a'' 5 ''nyc''"] by (simp add: h)
  then show ?thesis by (simp add: evs_steps_def del: evs_step.simps)
qed

end
