(* ===== verification/Dns_Hook.thy ===== *)
theory Dns_Hook
  imports Dns_Display Task
begin

text \<open>
  The effect of \<open>DNSProbeDisplay\<close> (\<^verbatim>\<open>web/components/dnsprobedisplay.tsx\<close>) as a machine: every run of the
  effect schedules a fetch, reads its stream and keeps a one-second timer of its own; a refresh
  cleans up the last run and starts another. And what the component renders.
\<close>

section \<open>Runs of the effect\<close>

text \<open>A run waits for its zero timeout, then for its response, then reads. \<open>dl_idle\<close> says whether the
  timer that ends the activity mark is set.\<close>

datatype dns_phase = DP_scheduled | DP_fetching | DP_reading | DP_over

record dns_loop =
  dl_phase :: dns_phase
  dl_idle :: bool

record dns_hook =
  dh_answers :: AnswersMap
  dh_loading :: bool
  dh_loops :: "dns_loop list"

definition dns_new_loop :: dns_loop where
  "dns_new_loop = \<lparr>dl_phase = DP_scheduled, dl_idle = False\<rparr>"

definition dns_hook_init :: dns_hook where
  "dns_hook_init = \<lparr>dh_answers = [], dh_loading = False, dh_loops = [dns_new_loop]\<rparr>"

text \<open>The clean-up: clears the zero timeout, and cancels the reader if there is one already.\<close>

definition dns_cleanup :: "dns_loop \<Rightarrow> dns_loop" where
  "dns_cleanup l = (if dl_phase l = DP_scheduled \<or> dl_phase l = DP_reading then l\<lparr>dl_phase := DP_over\<rparr> else l)"

definition dns_update :: "nat \<Rightarrow> (dns_loop \<Rightarrow> dns_loop) \<Rightarrow> dns_hook \<Rightarrow> dns_hook" where
  "dns_update i f h = h\<lparr>dh_loops := (dh_loops h)[i := f (dh_loops h ! i)]\<rparr>"

definition in_phase :: "dns_hook \<Rightarrow> nat \<Rightarrow> dns_phase \<Rightarrow> bool" where
  "in_phase h i p \<longleftrightarrow> i < length (dh_loops h) \<and> dl_phase (dh_loops h ! i) = p"

text \<open>\<open>DM_stream i has_body\<close>: the response of run \<open>i\<close> arrived; without a body \<open>getReader\<close> throws. A
  rejected read is not handled, so the run just ends.\<close>

datatype dns_move =
    DM_refresh
  | DM_timeout nat
  | DM_stream nat bool
  | DM_fetch_failed nat
  | DM_value nat "DNSResponse RawPingEvent option"
  | DM_done nat
  | DM_read_failed nat
  | DM_idle nat

fun dns_step :: "dns_hook \<Rightarrow> dns_move \<Rightarrow> dns_hook" where
  "dns_step h DM_refresh =
     (let h = dns_update (length (dh_loops h) - 1) dns_cleanup h in h\<lparr>dh_loops := dh_loops h @ [dns_new_loop]\<rparr>)"
| "dns_step h (DM_timeout i) =
     (if in_phase h i DP_scheduled then dns_update i (dl_phase_update (\<lambda>_. DP_fetching)) h else h)"
| "dns_step h (DM_stream i has_body) =
     (if in_phase h i DP_fetching
      then dns_update i (dl_phase_update (\<lambda>_. if has_body then DP_reading else DP_over)) h else h)"
| "dns_step h (DM_fetch_failed i) =
     (if in_phase h i DP_fetching then dns_update i (dl_phase_update (\<lambda>_. DP_over)) h else h)"
| "dns_step h (DM_value i value) =
     (if in_phase h i DP_reading then
        (case value of
           None \<Rightarrow> h
         | Some v \<Rightarrow> dns_update i (dl_idle_update (\<lambda>_. True))
                      (h\<lparr>dh_answers := updateAnswersMap (dh_answers h) v, dh_loading := True\<rparr>))
      else h)"
| "dns_step h (DM_done i) =
     (if in_phase h i DP_reading then dns_update i (dl_phase_update (\<lambda>_. DP_over)) h else h)"
| "dns_step h (DM_read_failed i) =
     (if in_phase h i DP_reading then dns_update i (dl_phase_update (\<lambda>_. DP_over)) h else h)"
| "dns_step h (DM_idle i) =
     (if i < length (dh_loops h) \<and> dl_idle (dh_loops h ! i)
      then dns_update i (dl_idle_update (\<lambda>_. False)) (h\<lparr>dh_loading := False\<rparr>) else h)"

definition dns_steps :: "dns_move list \<Rightarrow> dns_hook" where
  "dns_steps ms = foldl dns_step dns_hook_init ms"

section \<open>What is rendered\<close>

definition dns_target_lines :: "DNSTarget \<Rightarrow> string list" where
  "dns_target_lines tgt =
     [''Server: '' @ dt_addrport tgt, ''Query: '' @ dt_target tgt,
      ''Type: '' @ js_toUpperCase (query_type_string (dt_queryType tgt))]"

definition dns_table :: "AnswersMap \<Rightarrow> PendingTask \<Rightarrow> (string list \<times> string list option list) list" where
  "dns_table answers task =
     map (\<lambda>tgt. (dns_target_lines tgt, map (\<lambda>s. dns_cell answers s tgt) (sources task)))
       (nullish (dnsProbeTargets task) [])"

record dns_view =
  dv_title :: string
  dv_spinner :: bool
  dv_header :: "string list"
  dv_rows :: "(string list \<times> string list option list) list"

definition DNSProbeDisplay :: "PendingTask \<Rightarrow> dns_hook \<Rightarrow> dns_view" where
  "DNSProbeDisplay task h =
     \<lparr>dv_title = firstLetterCap (task_type_string (task_type task)) @ '' Task #'' @ taskId task,
      dv_spinner = dh_loading h, dv_header = ''Target'' # map js_toUpperCase (sources task),
      dv_rows = dns_table (dh_answers h) task\<rparr>"

section \<open>Properties\<close>

text \<open>The values a sequence of moves really delivers: those that arrive in a run that is reading.\<close>

definition delivers :: "dns_hook \<Rightarrow> dns_move \<Rightarrow> DNSResponse RawPingEvent list" where
  "delivers h m = (case m of DM_value i (Some v) \<Rightarrow> if in_phase h i DP_reading then [v] else [] | _ \<Rightarrow> [])"

fun delivered :: "dns_hook \<Rightarrow> dns_move list \<Rightarrow> DNSResponse RawPingEvent list" where
  "delivered h [] = []"
| "delivered h (m # ms) = delivers h m @ delivered (dns_step h m) ms"

lemma dns_update_simps [simp]:
  "dh_answers (dns_update i f h) = dh_answers h" "dh_loading (dns_update i f h) = dh_loading h"
  "length (dh_loops (dns_update i f h)) = length (dh_loops h)"
  by (simp_all add: dns_update_def)

lemma dns_answers: "dh_answers (foldl dns_step h ms) = foldl updateAnswersMap (dh_answers h) (delivered h ms)"
proof (induction ms arbitrary: h)
  case (Cons m ms)
  have "dh_answers (dns_step h m) = foldl updateAnswersMap (dh_answers h) (delivers h m)"
    by (cases m) (auto simp: delivers_def Let_def split: option.split)
  then show ?case by (simp add: Cons.IH)
qed simp

text \<open>No refresh comes while the last run waits for its response.\<close>

fun settled_refreshes :: "dns_hook \<Rightarrow> dns_move list \<Rightarrow> bool" where
  "settled_refreshes h [] = True"
| "settled_refreshes h (m # ms) =
     ((m = DM_refresh \<longrightarrow> \<not> in_phase h (length (dh_loops h) - 1) DP_fetching) \<and> settled_refreshes (dns_step h m) ms)"

definition only_last_alive :: "dns_hook \<Rightarrow> bool" where
  "only_last_alive h \<longleftrightarrow> dh_loops h \<noteq> [] \<and>
     (\<forall>i p. in_phase h i p \<and> p \<noteq> DP_over \<longrightarrow> i = length (dh_loops h) - 1)"

lemma in_phase_update:
  "in_phase (dns_update j f h) i p \<longleftrightarrow>
     (if i = j then i < length (dh_loops h) \<and> dl_phase (f (dh_loops h ! i)) = p else in_phase h i p)"
  by (auto simp: in_phase_def dns_update_def nth_list_update)

lemma in_phase_more [simp]:
  "in_phase (h\<lparr>dh_answers := a\<rparr>) i p = in_phase h i p" "in_phase (h\<lparr>dh_loading := b\<rparr>) i p = in_phase h i p"
  by (simp_all add: in_phase_def)

lemma only_last_alive_update:
  assumes "only_last_alive h" and "i < length (dh_loops h)"
    and "dl_phase (dh_loops h ! i) \<noteq> DP_over \<or> (\<forall>l. dl_phase (f l) = dl_phase l)"
  shows "only_last_alive (dns_update i f h)"
  using assms unfolding only_last_alive_def in_phase_update by (auto simp: in_phase_def dns_update_def)

lemma only_last_alive_more [simp]:
  "only_last_alive (h\<lparr>dh_answers := a\<rparr>) = only_last_alive h" "only_last_alive (h\<lparr>dh_loading := b\<rparr>) = only_last_alive h"
  by (simp_all add: only_last_alive_def)

lemma only_last_alive_step:
  assumes "only_last_alive h" and "m = DM_refresh \<longrightarrow> \<not> in_phase h (length (dh_loops h) - 1) DP_fetching"
  shows "only_last_alive (dns_step h m)"
proof (cases "m = DM_refresh")
  case True
  let ?n = "length (dh_loops h) - 1"
  have n: "?n < length (dh_loops h)" using assms(1) by (simp add: only_last_alive_def)
  with assms(2) True have "dl_phase (dh_loops h ! ?n) \<noteq> DP_fetching" by (simp add: in_phase_def)
  then have over: "dl_phase (dns_cleanup (dh_loops h ! ?n)) = DP_over"
    by (cases "dl_phase (dh_loops h ! ?n)") (simp_all add: dns_cleanup_def)
  show ?thesis
    unfolding only_last_alive_def
  proof (intro conjI allI impI)
    show "dh_loops (dns_step h m) \<noteq> []" by (simp add: True Let_def)
    fix i p assume a: "in_phase (dns_step h m) i p \<and> p \<noteq> DP_over"
    show "i = length (dh_loops (dns_step h m)) - 1"
    proof (rule ccontr)
      assume "i \<noteq> length (dh_loops (dns_step h m)) - 1"
      with a True have i: "i < length (dh_loops h)" by (auto simp: in_phase_def Let_def)
      with a True have "in_phase (dns_update ?n dns_cleanup h) i p"
        by (simp add: in_phase_def Let_def nth_append)
      with a over assms(1) i show False
        by (auto simp: in_phase_update only_last_alive_def split: if_splits)
    qed
  qed
next
  case False
  then show ?thesis
    using assms(1)
    by (cases m) (simp_all add: only_last_alive_update in_phase_def split: option.split)
qed

lemma only_last_alive_steps:
  "only_last_alive h \<Longrightarrow> settled_refreshes h ms \<Longrightarrow> only_last_alive (foldl dns_step h ms)"
  by (induction ms arbitrary: h) (simp_all add: only_last_alive_step del: dns_step.simps)

text \<open>A spinner has a timer that will turn it off.\<close>

definition spinner_ends :: "dns_hook \<Rightarrow> bool" where
  "spinner_ends h \<longleftrightarrow> (dh_loading h \<longrightarrow> (\<exists>l\<in>set (dh_loops h). dl_idle l))"

lemma idle_kept:
  assumes "\<exists>l\<in>set (dh_loops h). dl_idle l" and "\<And>l. dl_idle l \<Longrightarrow> dl_idle (f l)"
  shows "\<exists>l\<in>set (dh_loops (dns_update i f h)). dl_idle l"
proof -
  obtain j where j: "j < length (dh_loops h)" "dl_idle (dh_loops h ! j)"
    using assms(1) by (metis in_set_conv_nth)
  then have "dl_idle (dh_loops (dns_update i f h) ! j)" using assms(2)
    by (cases "i = j") (simp_all add: dns_update_def)
  with j(1) show ?thesis by (metis dns_update_simps(3) nth_mem)
qed

lemma spinner_ends_update: "spinner_ends h \<Longrightarrow> (\<And>l. dl_idle l \<Longrightarrow> dl_idle (f l)) \<Longrightarrow> spinner_ends (dns_update i f h)"
  using idle_kept [of h f i] by (auto simp: spinner_ends_def)

lemma spinner_ends_step: "spinner_ends h \<Longrightarrow> spinner_ends (dns_step h m)"
proof (cases m)
  case DM_refresh
  assume "spinner_ends h"
  then have "spinner_ends (dns_update (length (dh_loops h) - 1) dns_cleanup h)"
    by (rule spinner_ends_update) (simp add: dns_cleanup_def)
  with DM_refresh show ?thesis by (auto simp: spinner_ends_def Let_def)
next
  case (DM_value i v)
  assume "spinner_ends h"
  with DM_value show ?thesis
    by (auto simp: spinner_ends_def in_phase_def dns_update_def set_update_memI split: option.split
        intro!: bexI [OF _ set_update_memI])
next
  case (DM_idle i)
  assume "spinner_ends h"
  with DM_idle show ?thesis by (simp add: spinner_ends_def)
qed (auto intro!: spinner_ends_update)

lemma hook_init_facts: "only_last_alive dns_hook_init" "spinner_ends dns_hook_init"
  by (auto simp: only_last_alive_def spinner_ends_def dns_hook_init_def in_phase_def)

text \<open>C11. Whatever the runs of the effect do, a cell of the table shows the latest response that was
  delivered for its source and target by any run, those of refreshes before included, since the
  answers are kept; the spinner shows only while a timer is set that will turn it off; and if no
  refresh comes while a response is awaited, at most the last run can still deliver.\<close>

theorem dns_table_of_moves:
  assumes "s \<noteq> []" and "dt_corrId tgt \<noteq> []"
  shows "dns_cell (dh_answers (dns_steps ms)) s tgt =
      (let rs = List.map_filter (\<lambda>ev. if event_from (raw_metadata ev) = s
                   \<and> Option.bind (raw_data ev) dr_corrId = Some (dt_corrId tgt) then raw_data ev else None)
                  (delivered dns_hook_init ms)
       in if rs = [] then None else Some (RenderResponse (last rs)))
    \<and> (dh_loading (dns_steps ms) \<longrightarrow> (\<exists>l\<in>set (dh_loops (dns_steps ms)). dl_idle l))
    \<and> (settled_refreshes dns_hook_init ms \<and> in_phase (dns_steps ms) i p \<and> p \<noteq> DP_over
         \<longrightarrow> i = length (dh_loops (dns_steps ms)) - 1)"
proof (intro conjI impI)
  have "dh_answers (dns_steps ms) = dns_run (delivered dns_hook_init ms)"
    by (simp add: dns_steps_def dns_answers dns_run_def) (simp add: dns_hook_init_def)
  then show "dns_cell (dh_answers (dns_steps ms)) s tgt =
      (let rs = List.map_filter (\<lambda>ev. if event_from (raw_metadata ev) = s
                   \<and> Option.bind (raw_data ev) dr_corrId = Some (dt_corrId tgt) then raw_data ev else None)
                  (delivered dns_hook_init ms)
       in if rs = [] then None else Some (RenderResponse (last rs)))"
    by (simp only: dns_cell_of_run [OF assms])
next
  have "spinner_ends (foldl dns_step h ms)" if "spinner_ends h" for h
    using that by (induction ms arbitrary: h) (simp_all add: spinner_ends_step del: dns_step.simps)
  from this [OF hook_init_facts(2)] have "spinner_ends (dns_steps ms)" by (simp add: dns_steps_def)
  then show "dh_loading (dns_steps ms) \<Longrightarrow> \<exists>l\<in>set (dh_loops (dns_steps ms)). dl_idle l"
    by (simp add: spinner_ends_def)
next
  assume "settled_refreshes dns_hook_init ms \<and> in_phase (dns_steps ms) i p \<and> p \<noteq> DP_over"
  moreover from this have "only_last_alive (dns_steps ms)"
    unfolding dns_steps_def by (intro only_last_alive_steps hook_init_facts) simp
  ultimately show "i = length (dh_loops (dns_steps ms)) - 1" by (auto simp: only_last_alive_def)
qed

lemma dns_table_of_moves_witness:
  "let ms = [DM_timeout 0, DM_stream 0 True, DM_value 0 (Some (sample_dns_event ''nyc'' ''1.2.3.4'')), DM_refresh,
             DM_timeout 1]
   in dns_cell (dh_answers (dns_steps ms)) ''nyc'' sample_dns_target = Some [''1.2.3.4'']
    \<and> dh_loading (dns_steps ms) \<and> (\<exists>l\<in>set (dh_loops (dns_steps ms)). dl_idle l)
    \<and> \<not> in_phase (dns_steps ms) 0 DP_reading"
proof -
  let ?ms = "[DM_timeout 0, DM_stream 0 True, DM_value 0 (Some (sample_dns_event ''nyc'' ''1.2.3.4'')), DM_refresh,
             DM_timeout 1]"
  have c: "dt_corrId sample_dns_target = ''0''"
  proof -
    have "nat_to_string 0 = ''0''" by code_simp
    then show ?thesis by (simp add: sample_dns_target_def)
  qed
  note steps = dns_steps_def dns_hook_init_def dns_new_loop_def in_phase_def dns_update_def dns_cleanup_def Let_def
  have d: "delivered dns_hook_init ?ms = [sample_dns_event ''nyc'' ''1.2.3.4'']" by (simp add: steps delivers_def)
  have r: "settled_refreshes dns_hook_init ?ms" by (simp add: steps)
  have l: "length (dh_loops (dns_steps ?ms)) = 2" and s: "dh_loading (dns_steps ?ms)" by (simp_all add: steps)
  note t = dns_table_of_moves [of "''nyc''" sample_dns_target ?ms 0 DP_reading]
  from t c d have "dns_cell (dh_answers (dns_steps ?ms)) ''nyc'' sample_dns_target = Some [''1.2.3.4'']"
    by (simp add: sample_dns_event_def sample_response_def event_from_def map_filter_simps RenderResponse_def
        RenderRTT_def del: dns_step.simps)
  with t c r l s show ?thesis by (simp del: dns_step.simps)
qed

text \<open>C28. A refresh while the response of the last run is awaited does not stop that run: there is no
  reader to cancel yet. When the response comes it is read beside the new run, what it delivers
  enters the answers, and no later refresh cancels it either, since each cleans up the run before
  it only.\<close>

theorem refresh_while_fetching_leaks:
  assumes "dh_loops h \<noteq> []" and "in_phase h (length (dh_loops h) - 1) DP_fetching"
  shows "let i = length (dh_loops h) - 1;
             h' = foldl dns_step h ([DM_refresh, DM_stream i True] @ replicate n DM_refresh)
         in in_phase h' i DP_reading \<and> dh_answers (dns_step h' (DM_value i (Some v))) = updateAnswersMap (dh_answers h) v"
proof -
  let ?i = "length (dh_loops h) - 1"
  have refresh: "in_phase (dns_step g DM_refresh) i DP_reading \<and> dh_answers (dns_step g DM_refresh) = dh_answers g
      \<and> length (dh_loops (dns_step g DM_refresh)) = Suc (length (dh_loops g))"
    if "in_phase g i DP_reading" "Suc i < length (dh_loops g)" for g i
    using that by (auto simp: Let_def in_phase_def dns_update_def nth_append nth_list_update)
  have many: "in_phase (foldl dns_step g (replicate n DM_refresh)) i DP_reading
      \<and> dh_answers (foldl dns_step g (replicate n DM_refresh)) = dh_answers g"
    if "in_phase g i DP_reading" "Suc i < length (dh_loops g)" for g i
    using that
  proof (induction n arbitrary: g)
    case (Suc n)
    from refresh [OF Suc.prems] Suc.prems(2) have "in_phase (dns_step g DM_refresh) i DP_reading"
      "Suc i < length (dh_loops (dns_step g DM_refresh))" "dh_answers (dns_step g DM_refresh) = dh_answers g"
      by (simp_all del: dns_step.simps)
    with Suc.IH [of "dns_step g DM_refresh"] show ?case by (simp del: dns_step.simps)
  qed simp
  let ?g = "foldl dns_step h [DM_refresh, DM_stream ?i True]"
  have "in_phase ?g ?i DP_reading" "Suc ?i < length (dh_loops ?g)" "dh_answers ?g = dh_answers h"
    using assms by (auto simp: Let_def in_phase_def dns_update_def nth_append nth_list_update dns_cleanup_def)
  from many [OF this(1,2)] this(3) show ?thesis
    by (simp add: Let_def del: dns_step.simps(1,3))
qed

lemma refresh_while_fetching_leaks_witness:
  "let h = foldl dns_step (dns_steps [DM_timeout 0]) ([DM_refresh, DM_stream 0 True] @ replicate 3 DM_refresh)
   in in_phase h 0 DP_reading
      \<and> dh_answers (dns_step h (DM_value 0 (Some (sample_dns_event ''nyc'' ''1.2.3.4''))))
        = updateAnswersMap [] (sample_dns_event ''nyc'' ''1.2.3.4'')"
proof -
  note steps = dns_steps_def dns_hook_init_def dns_new_loop_def in_phase_def dns_update_def
  have h: "dh_loops (dns_steps [DM_timeout 0]) \<noteq> []" "length (dh_loops (dns_steps [DM_timeout 0])) = 1"
    "in_phase (dns_steps [DM_timeout 0]) 0 DP_fetching" "dh_answers (dns_steps [DM_timeout 0]) = []"
    by (simp_all add: steps)
  from refresh_while_fetching_leaks [OF h(1), of 3 "sample_dns_event ''nyc'' ''1.2.3.4''"] h(2-) show ?thesis
    by (simp add: Let_def del: dns_step.simps)
qed

end
