(* ===== verification/Task_Form.thy ===== *)
theory Task_Form
  imports Source_Selector Address_Class Ip_Query
begin

text \<open>
  What the form of \<^verbatim>\<open>web/components/TaskCreatorPanel.tsx\<close> renders and what its controls do: the controls
  of \<^verbatim>\<open>DNSProbeOptions.tsx\<close>, \<^verbatim>\<open>HTTPProbeTransportSelect.tsx\<close>, \<^verbatim>\<open>PingTaskTransportOptions.tsx\<close>,
  \<^verbatim>\<open>RouteQueryTaskPanel.tsx\<close>, \<^verbatim>\<open>IPQueryTaskPanel.tsx\<close> and \<^verbatim>\<open>PingTaskSourceSelector.tsx\<close>. A control is its
  label, the value it shows and what it offers; its handler takes the text of the event and is one
  of the edits of \<open>Task\<close>.
\<close>

section \<open>The texts of the enumerations\<close>

instantiation PingTaskType :: enum
begin
definition enum_PingTaskType :: "PingTaskType list" where
  "enum_PingTaskType = [T_ping, T_traceroute, T_tcpping, T_dns, T_http, T_route, T_ip_query]"
definition enum_all_PingTaskType :: "(PingTaskType \<Rightarrow> bool) \<Rightarrow> bool" where
  "enum_all_PingTaskType P \<longleftrightarrow> list_all P enum_class.enum"
definition enum_ex_PingTaskType :: "(PingTaskType \<Rightarrow> bool) \<Rightarrow> bool" where
  "enum_ex_PingTaskType P \<longleftrightarrow> list_ex P enum_class.enum"
instance
proof
  show u: "UNIV = set (enum_class.enum :: PingTaskType list)"
    unfolding enum_PingTaskType_def by (auto intro: PingTaskType.exhaust)
  show "distinct (enum_class.enum :: PingTaskType list)" by (simp add: enum_PingTaskType_def)
  fix P :: "PingTaskType \<Rightarrow> bool"
  show "enum_class.enum_all P \<longleftrightarrow> Ball UNIV P" by (simp add: enum_all_PingTaskType_def u list_all_iff)
  show "enum_class.enum_ex P \<longleftrightarrow> Bex UNIV P" by (simp add: enum_ex_PingTaskType_def u list_ex_iff)
qed
end

instantiation DNSTransport :: enum
begin
definition enum_DNSTransport :: "DNSTransport list" where
  "enum_DNSTransport = [DNS_udp, DNS_tcp, DNS_tls, DNS_http2, DNS_http3]"
definition enum_all_DNSTransport :: "(DNSTransport \<Rightarrow> bool) \<Rightarrow> bool" where
  "enum_all_DNSTransport P \<longleftrightarrow> list_all P enum_class.enum"
definition enum_ex_DNSTransport :: "(DNSTransport \<Rightarrow> bool) \<Rightarrow> bool" where
  "enum_ex_DNSTransport P \<longleftrightarrow> list_ex P enum_class.enum"
instance
proof
  show u: "UNIV = set (enum_class.enum :: DNSTransport list)"
    unfolding enum_DNSTransport_def by (auto intro: DNSTransport.exhaust)
  show "distinct (enum_class.enum :: DNSTransport list)" by (simp add: enum_DNSTransport_def)
  fix P :: "DNSTransport \<Rightarrow> bool"
  show "enum_class.enum_all P \<longleftrightarrow> Ball UNIV P" by (simp add: enum_all_DNSTransport_def u list_all_iff)
  show "enum_class.enum_ex P \<longleftrightarrow> Bex UNIV P" by (simp add: enum_ex_DNSTransport_def u list_ex_iff)
qed
end

text \<open>A group of options is its values with their labels; the texts of the values are what the page
  holds, and a handler casts the text of the event back to the value.\<close>

definition options_of :: "('a \<Rightarrow> string) \<Rightarrow> ('a \<times> string) list \<Rightarrow> (string \<times> string) list" where
  "options_of txt opts = map (\<lambda>(x, l). (txt x, l)) opts"

definition cast_text :: "('a \<Rightarrow> string) \<Rightarrow> ('a \<times> string) list \<Rightarrow> string \<Rightarrow> 'a option" where
  "cast_text txt opts v = map_option fst (List.find (\<lambda>(x, _). txt x = v) opts)"

definition task_type_options :: "(PingTaskType \<times> string) list" where
  "task_type_options =
     [(T_ping, ''Ping''), (T_traceroute, ''Traceroute''), (T_tcpping, ''TCP Ping''), (T_dns, ''DNS''),
      (T_http, ''HTTP''), (T_route, ''Route''), (T_ip_query, ''IP'')]"

definition dns_transport_options :: "(DNSTransport \<times> string) list" where
  "dns_transport_options =
     [(DNS_udp, ''UDP''), (DNS_tcp, ''TCP''), (DNS_tls, ''TLS''), (DNS_http2, ''HTTP/2''), (DNS_http3, ''HTTP/3'')]"

definition dns_type_options :: "(DNSQueryType \<times> string) list" where
  "dns_type_options =
     [(Q_a, ''A''), (Q_aaaa, ''AAAA''), (Q_cname, ''CNAME''), (Q_mx, ''MX''), (Q_ns, ''NS''), (Q_ptr, ''PTR''),
      (Q_txt, ''TXT'')]"

definition http_proto_options :: "(HTTPProto \<times> string) list" where
  "http_proto_options = [(HTTP11, ''HTTP/1.1''), (HTTP2, ''HTTP/2''), (HTTP3, ''HTTP/3'')]"

fun ip_pref_string :: "IPPref \<Rightarrow> string" where
  "ip_pref_string Pref_ip4 = ''ip4''"
| "ip_pref_string Pref_ip6 = ''ip6''"
| "ip_pref_string Pref_ip = ''ip''"

definition ip_pref_options :: "(IPPref \<times> string) list" where
  "ip_pref_options = [(Pref_ip4, ''Prefer IPv4''), (Pref_ip6, ''Prefer IPv6'')]"

fun route_type_string :: "RouteQueryType \<Rightarrow> string" where
  "route_type_string AS_Path_Segs = ''aspath_segs''"
| "route_type_string Neighbor_ASN = ''neighbor_asn''"
| "route_type_string Origin_ASN = ''origin_asn''"
| "route_type_string IP_Or_CIDR = ''ip_or_cidr''"

definition route_type_options :: "(RouteQueryType \<times> string) list" where
  "route_type_options =
     map (\<lambda>ty. (ty, getQueryTypeLabel ty)) [AS_Path_Segs, Neighbor_ASN, Origin_ASN, IP_Or_CIDR]"

section \<open>Controls\<close>

text \<open>Which list a selector of sources offers.\<close>

datatype source_list =
    MRT_providers string
  | IPQuery_providers string
  | Agents "(string \<times> string) list option"

datatype control =
    Radio_group string string "(string \<times> string) list"
  | Select_box string string "(string \<times> string) list"
  | Check_box string bool bool
  | Switch_box string bool
  | Text_field string string string
  | Source_select source_list "string list" "string list"

text \<open>A check box is its label, whether it is disabled and whether it is checked; a text field is its
  label, its placeholder and its text; a selector of sources is the list it loads, the keys of the options it
  has loaded and the keys the page has selected.\<close>

datatype field =
    F_type | F_dns_transport | F_http_transport | F_ip_pref | F_preferV4 | F_preferV6 | F_useUDP | F_pmtu
  | F_dns_type | F_domains | F_name_map | F_resolvers | F_add_headers | F_headers | F_urls
  | F_route_type | F_route_target | F_ip_addresses | F_targets | F_sources

type_synonym controls = "(field \<times> control) list"

definition TaskTypeSelector :: "PendingTask \<Rightarrow> controls" where
  "TaskTypeSelector t =
     [(F_type, Radio_group ''Task Type'' (task_type_string (task_type t)) (options_of task_type_string task_type_options))]"

definition DefaultTaskTargetInput :: "string \<Rightarrow> PendingTask \<Rightarrow> controls" where
  "DefaultTaskTargetInput special t =
     [(F_targets, Text_field
        (if task_type t = T_ping then ''Targets'' else if special \<noteq> [] then special @ '' Target'' else ''Target'')
        (if task_type t = T_ping then ''Targets, separated by comma''
         else if task_type t = T_tcpping then
           ''Specify a single target, in the format of <host>:<port>\", e.g. 192.168.1.1:80, or cloudflare.com:443''
         else ''Specify a single target'')
        (nullish (targetsInput t) []))]"

definition plan_field :: "(DNSProbePlan \<Rightarrow> 'a option) \<Rightarrow> PendingTask \<Rightarrow> 'a option" where
  "plan_field f t = Option.bind (dnsProbePlan t) f"

definition DNSProbeTransportSelect :: "PendingTask \<Rightarrow> controls" where
  "DNSProbeTransportSelect t =
     [(F_dns_transport, Radio_group ''Transport'' (nullish (map_option dns_transport_string (plan_field plan_transport t)) [])
        (options_of dns_transport_string dns_transport_options))]"

definition DNSProbeTaskPanel :: "PendingTask \<Rightarrow> controls" where
  "DNSProbeTaskPanel t =
     (let transport = plan_field plan_transport t in
      [(F_dns_type, Select_box ''Type'' (nullish (map_option query_type_string (plan_field plan_type t)) [])
          (options_of query_type_string dns_type_options)),
       (F_domains, Text_field ''Domains'' ''Querying Domains, separated by comma''
          (nullish (plan_field plan_domainsInput t) []))] @
      (if transport = Some DNS_tls \<or> transport = Some DNS_http2 \<or> transport = Some DNS_http3 then
         [(F_name_map, Text_field ''ServerName Map'' ''e.g. 1.1.1.1=one.one.one.one, 2001:4860:4860::8888=dns.google''
             (nullish (plan_field plan_serverNameMapInput t) []))] else []) @
      [(F_resolvers, Text_field ''Resolvers''
          (if transport = Some DNS_http2 \<or> transport = Some DNS_http3
           then ''e.g. https://8.8.8.8/dns-query, https://[2001:4860:4860::8888]/dns-query''
           else ''e.g. 8.8.8.8, or [2001:4860:4860::8888]:53, no hostname here.'')
          (nullish (plan_field plan_resolversInput t) []))])"

definition HTTPProbeTransportSelect :: "PendingTask \<Rightarrow> controls" where
  "HTTPProbeTransportSelect t =
     [(F_http_transport, Radio_group ''Transport''
         (http_proto_string (nullish (selectingHttpTransport t) defaultHTTPProto))
         (options_of http_proto_string http_proto_options)),
      (F_ip_pref, Radio_group ''IP Preference'' (ip_pref_string (nullish (selectingIPPref t) defaultIPPref))
         (options_of ip_pref_string ip_pref_options))]"

definition HTTPProbeTaskPanel :: "PendingTask \<Rightarrow> controls" where
  "HTTPProbeTaskPanel t =
     [(F_add_headers, Switch_box ''Add Headers'' (truthy_bool (addHeaderSW t)))] @
     (if truthy_bool (addHeaderSW t) then
        [(F_headers, Text_field ''Headers'' ''Additional headers, one per line, e.g. User-Agent: MyAgent''
            (nullish (headersInput t) []))] else []) @
     [(F_urls, Text_field ''URLs''
         ''URLs to probe, separated by comma, e.g. https://example.com, https://example.org/path''
         (nullish (targetsInput t) []))]"

definition PingTaskDefaultTransportOptionsPanel :: "PendingTask \<Rightarrow> controls" where
  "PingTaskDefaultTransportOptionsPanel t =
     [(F_preferV4, Check_box ''Prefer V4'' False (truthy_bool (preferV4 t))),
      (F_preferV6, Check_box ''Prefer V6'' False (truthy_bool (preferV6 t))),
      (F_useUDP, Check_box ''Use UDP'' (task_type t = T_tcpping) (truthy_bool (useUDP t))),
      (F_pmtu, Check_box ''PMTU'' (task_type t \<noteq> T_traceroute) (task_type t = T_traceroute \<and> truthy_bool (pmtu t)))]"

definition RouteQueryTaskPanel :: "PendingTask \<Rightarrow> controls" where
  "RouteQueryTaskPanel t =
     (let queryTy = nullish (routeQueryType t) defaultRouteQueryType in
      [(F_route_type, Radio_group ''Query By'' (route_type_string queryTy) (options_of route_type_string route_type_options)),
       (F_route_target, Text_field (getQueryTypeLabel queryTy) (getQueryTypeTextPlaceholder queryTy)
          (nullish (routeQueryTgt t) []))])"

definition IPQueryTaskPanel :: "PendingTask \<Rightarrow> controls" where
  "IPQueryTaskPanel t =
     [(F_ip_addresses, Text_field ''IP Addresses'' ''IP addresses, separated by comma'' (nullish (targetsInput t) []))]"

text \<open>The selector of sources: which list it offers and what is selected.\<close>

definition PingTaskSourceSelector ::
  "string option \<Rightarrow> string option \<Rightarrow> string option \<Rightarrow> PendingTask \<Rightarrow> source_list \<times> string list" where
  "PingTaskSourceSelector route_env ip_env env t =
     (if task_type t = T_route then MRT_providers (providers_url (getMRTEntryServiceAPIPrefix route_env env))
      else if task_type t = T_ip_query then IPQuery_providers (ipquery_providers_url (getIPQueryServiceAPIPrefix ip_env env))
      else Agents (source_filter t),
      clean_sources (sources t))"

text \<open>What the panel shows beside the task: the label computed for the target, the environment the list
  prefixes are read from, and the keys of the options that the mounted selector of sources has loaded.\<close>

record panel_context =
  pc_special :: string
  pc_route_env :: "string option"
  pc_ip_env :: "string option"
  pc_env :: "string option"
  pc_offered :: "string list"

definition source_control :: "panel_context \<Rightarrow> PendingTask \<Rightarrow> controls" where
  "source_control pc t =
     (case PingTaskSourceSelector (pc_route_env pc) (pc_ip_env pc) (pc_env pc) t of
        (l, selected) \<Rightarrow> [(F_sources, Source_select l (pc_offered pc) selected)])"

definition TaskCreatorPanel :: "panel_context \<Rightarrow> PendingTask \<Rightarrow> controls" where
  "TaskCreatorPanel pc t =
     TaskTypeSelector t @
     (if task_type t \<noteq> T_route \<and> task_type t \<noteq> T_ip_query then
        (if task_type t = T_dns then DNSProbeTransportSelect t
         else if task_type t = T_http then HTTPProbeTransportSelect t
         else PingTaskDefaultTransportOptionsPanel t) else []) @
     source_control pc t @
     (if task_type t = T_dns then DNSProbeTaskPanel t
      else if task_type t = T_http then HTTPProbeTaskPanel t
      else if task_type t = T_route then RouteQueryTaskPanel t
      else if task_type t = T_ip_query then IPQueryTaskPanel t
      else DefaultTaskTargetInput (pc_special pc) t)"

text \<open>The selector of sources is one of three components. The options it has loaded are its state: they
  stay while the same component is mounted and are gone when another takes its place.\<close>

datatype selector_kind = Sel_MRTSource | Sel_IPQuerySource | Sel_Sources

definition mounted_selector :: "PendingTask \<Rightarrow> selector_kind" where
  "mounted_selector t =
     (if task_type t = T_route then Sel_MRTSource else if task_type t = T_ip_query then Sel_IPQuerySource else Sel_Sources)"

definition offered_after :: "PendingTask \<Rightarrow> PendingTask \<Rightarrow> string list \<Rightarrow> string list" where
  "offered_after t t' offered = (if mounted_selector t' = mounted_selector t then offered else [])"

text \<open>Around the controls: whether the button \<^verbatim>\<open>Add Task\<close> is loading, and the dialog, if it is open.\<close>

definition creator_frame :: "page_state \<Rightarrow> bool \<times> confirm_view option" where
  "creator_frame s =
     (pg_inflight s \<noteq> None, if pg_open s then Some (TaskConfirmDialog (pg_task s)) else None)"

section \<open>Handlers\<close>

text \<open>What the user does to a control: picks an option, checks a box, types a text, or leaves the selector of
  sources with a list of picked keys.\<close>

datatype input = Picked string | Checked bool | Typed string | Chosen "string list"

text \<open>One group of handlers per component.\<close>

fun type_handler :: "field \<Rightarrow> input \<Rightarrow> form_edit option" where
  "type_handler F_type (Picked v) = map_option E_type (cast_text task_type_string task_type_options v)"
| "type_handler _ _ = None"

fun target_handler :: "field \<Rightarrow> input \<Rightarrow> form_edit option" where
  "target_handler F_targets (Typed v) = Some (E_targets v)"
| "target_handler _ _ = None"

fun ping_options_handler :: "field \<Rightarrow> input \<Rightarrow> form_edit option" where
  "ping_options_handler F_preferV4 (Checked b) = Some (E_preferV4 b)"
| "ping_options_handler F_preferV6 (Checked b) = Some (E_preferV6 b)"
| "ping_options_handler F_useUDP (Checked b) = Some (E_useUDP b)"
| "ping_options_handler F_pmtu (Checked b) = Some (E_pmtu b)"
| "ping_options_handler _ _ = None"

fun dns_handler :: "field \<Rightarrow> input \<Rightarrow> form_edit option" where
  "dns_handler F_dns_transport (Picked v) = map_option E_dns_transport (cast_text dns_transport_string dns_transport_options v)"
| "dns_handler F_dns_type (Picked v) = map_option E_dns_type (cast_text query_type_string dns_type_options v)"
| "dns_handler F_domains (Typed v) = Some (E_domains v)"
| "dns_handler F_name_map (Typed v) = Some (E_name_map v)"
| "dns_handler F_resolvers (Typed v) = Some (E_resolvers v)"
| "dns_handler _ _ = None"

fun http_handler :: "field \<Rightarrow> input \<Rightarrow> form_edit option" where
  "http_handler F_http_transport (Picked v) = map_option E_http_transport (cast_text http_proto_string http_proto_options v)"
| "http_handler F_ip_pref (Picked v) = map_option E_ip_pref (cast_text ip_pref_string ip_pref_options v)"
| "http_handler F_add_headers (Checked b) = Some (E_add_headers b)"
| "http_handler F_headers (Typed v) = Some (E_headers v)"
| "http_handler F_urls (Typed v) = Some (E_targets v)"
| "http_handler _ _ = None"

fun route_handler :: "field \<Rightarrow> input \<Rightarrow> form_edit option" where
  "route_handler F_route_type (Picked v) = map_option E_route_type (cast_text route_type_string route_type_options v)"
| "route_handler F_route_target (Typed v) = Some (E_route_target v)"
| "route_handler _ _ = None"

fun ip_addresses_handler :: "field \<Rightarrow> input \<Rightarrow> form_edit option" where
  "ip_addresses_handler F_ip_addresses (Typed v) = Some (E_targets v)"
| "ip_addresses_handler _ _ = None"

fun sources_handler :: "field \<Rightarrow> input \<Rightarrow> form_edit option" where
  "sources_handler F_sources (Chosen ks) = Some (E_sources ks)"
| "sources_handler _ _ = None"

text \<open>The panel hands \<open>setPendingTask\<close> to every component; the handler of a field is the one of the component
  that renders it.\<close>

fun handler :: "field \<Rightarrow> input \<Rightarrow> form_edit option" where
  "handler F_type = type_handler F_type"
| "handler F_targets = target_handler F_targets"
| "handler F_preferV4 = ping_options_handler F_preferV4"
| "handler F_preferV6 = ping_options_handler F_preferV6"
| "handler F_useUDP = ping_options_handler F_useUDP"
| "handler F_pmtu = ping_options_handler F_pmtu"
| "handler F_dns_transport = dns_handler F_dns_transport"
| "handler F_dns_type = dns_handler F_dns_type"
| "handler F_domains = dns_handler F_domains"
| "handler F_name_map = dns_handler F_name_map"
| "handler F_resolvers = dns_handler F_resolvers"
| "handler F_http_transport = http_handler F_http_transport"
| "handler F_ip_pref = http_handler F_ip_pref"
| "handler F_add_headers = http_handler F_add_headers"
| "handler F_headers = http_handler F_headers"
| "handler F_urls = http_handler F_urls"
| "handler F_route_type = route_handler F_route_type"
| "handler F_route_target = route_handler F_route_target"
| "handler F_ip_addresses = ip_addresses_handler F_ip_addresses"
| "handler F_sources = sources_handler F_sources"

text \<open>The inputs a control accepts and the value it shows, as an input. The selector reports keys it has
  loaded, each once, and shows the loaded ones that are selected.\<close>

fun accepts :: "control \<Rightarrow> input \<Rightarrow> bool" where
  "accepts (Radio_group l v opts) (Picked w) \<longleftrightarrow> w \<in> fst ` set opts"
| "accepts (Select_box l v opts) (Picked w) \<longleftrightarrow> w \<in> fst ` set opts"
| "accepts (Check_box l disabled ckd) (Checked b) \<longleftrightarrow> \<not> disabled"
| "accepts (Switch_box l ckd) (Checked b) \<longleftrightarrow> True"
| "accepts (Text_field l p v) (Typed w) \<longleftrightarrow> True"
| "accepts (Source_select l offered v) (Chosen ks) \<longleftrightarrow> distinct ks \<and> set ks \<subseteq> set offered"
| "accepts _ _ \<longleftrightarrow> False"

fun value_of :: "control \<Rightarrow> input" where
  "value_of (Radio_group l v opts) = Picked v"
| "value_of (Select_box l v opts) = Picked v"
| "value_of (Check_box l disabled ckd) = Checked ckd"
| "value_of (Switch_box l ckd) = Checked ckd"
| "value_of (Text_field l p v) = Typed v"
| "value_of (Source_select l offered v) = Chosen (options_selected id offered v)"

definition shown :: "panel_context \<Rightarrow> PendingTask \<Rightarrow> field \<Rightarrow> input option" where
  "shown pc t f = map_option value_of (map_of (TaskCreatorPanel pc t) f)"

section \<open>Properties\<close>

lemma cast_text_value: "cast_text txt opts w = Some x \<Longrightarrow> txt x = w"
  by (auto simp: cast_text_def find_Some_iff dest: arg_cong [where f = fst])

lemma cast_text_offered:
  assumes "(w, l) \<in> set (options_of txt opts)" shows "\<exists>x. cast_text txt opts w = Some x"
proof -
  have "List.find (\<lambda>(x, _). txt x = w) opts \<noteq> None"
    using assms by (auto simp: find_None_iff options_of_def)
  then show ?thesis by (auto simp: cast_text_def)
qed

lemmas panel_defs = TaskTypeSelector_def DNSProbeTransportSelect_def HTTPProbeTransportSelect_def
  PingTaskDefaultTransportOptionsPanel_def DNSProbeTaskPanel_def HTTPProbeTaskPanel_def RouteQueryTaskPanel_def
  IPQueryTaskPanel_def DefaultTaskTargetInput_def source_control_def PingTaskSourceSelector_def

lemma fields_distinct: "distinct (map fst (TaskCreatorPanel pc t))"
  by (cases "task_type t") (auto simp: TaskCreatorPanel_def panel_defs Let_def)

text \<open>Where a field is on the page and what it shows there.\<close>

fun on_page :: "PendingTask \<Rightarrow> field \<Rightarrow> bool" where
  "on_page t F_type = True"
| "on_page t F_sources = True"
| "on_page t F_dns_transport = (task_type t = T_dns)"
| "on_page t F_dns_type = (task_type t = T_dns)"
| "on_page t F_domains = (task_type t = T_dns)"
| "on_page t F_resolvers = (task_type t = T_dns)"
| "on_page t F_name_map = (task_type t = T_dns \<and>
     plan_field plan_transport t \<in> {Some DNS_tls, Some DNS_http2, Some DNS_http3})"
| "on_page t F_http_transport = (task_type t = T_http)"
| "on_page t F_ip_pref = (task_type t = T_http)"
| "on_page t F_add_headers = (task_type t = T_http)"
| "on_page t F_headers = (task_type t = T_http \<and> truthy_bool (addHeaderSW t))"
| "on_page t F_urls = (task_type t = T_http)"
| "on_page t F_route_type = (task_type t = T_route)"
| "on_page t F_route_target = (task_type t = T_route)"
| "on_page t F_ip_addresses = (task_type t = T_ip_query)"
| "on_page t f = options_shown t"

fun field_value :: "panel_context \<Rightarrow> PendingTask \<Rightarrow> field \<Rightarrow> input" where
  "field_value pc t F_type = Picked (task_type_string (task_type t))"
| "field_value pc t F_dns_transport = Picked (nullish (map_option dns_transport_string (plan_field plan_transport t)) [])"
| "field_value pc t F_dns_type = Picked (nullish (map_option query_type_string (plan_field plan_type t)) [])"
| "field_value pc t F_domains = Typed (nullish (plan_field plan_domainsInput t) [])"
| "field_value pc t F_name_map = Typed (nullish (plan_field plan_serverNameMapInput t) [])"
| "field_value pc t F_resolvers = Typed (nullish (plan_field plan_resolversInput t) [])"
| "field_value pc t F_http_transport = Picked (http_proto_string (nullish (selectingHttpTransport t) defaultHTTPProto))"
| "field_value pc t F_ip_pref = Picked (ip_pref_string (nullish (selectingIPPref t) defaultIPPref))"
| "field_value pc t F_preferV4 = Checked (truthy_bool (preferV4 t))"
| "field_value pc t F_preferV6 = Checked (truthy_bool (preferV6 t))"
| "field_value pc t F_useUDP = Checked (truthy_bool (useUDP t))"
| "field_value pc t F_pmtu = Checked (task_type t = T_traceroute \<and> truthy_bool (pmtu t))"
| "field_value pc t F_add_headers = Checked (truthy_bool (addHeaderSW t))"
| "field_value pc t F_headers = Typed (nullish (headersInput t) [])"
| "field_value pc t F_route_type = Picked (route_type_string (nullish (routeQueryType t) defaultRouteQueryType))"
| "field_value pc t F_route_target = Typed (nullish (routeQueryTgt t) [])"
| "field_value pc t F_sources = Chosen (options_selected id (pc_offered pc) (clean_sources (sources t)))"
| "field_value pc t f = Typed (nullish (targetsInput t) [])"

lemma shown_field: "shown pc t f = (if on_page t f then Some (field_value pc t f) else None)"
  by (cases f; cases "task_type t")
    (simp_all add: shown_def TaskCreatorPanel_def panel_defs Let_def options_shown_def)

text \<open>What another field shows after an input. Checking one of the two families unchecks the other, TCP ping
  unchecks \<^verbatim>\<open>Use UDP\<close>, \<^verbatim>\<open>PMTU\<close> is only ever shown checked for traceroute, and a new selector of sources
  shows none until its options are loaded. Every other field shows what it showed.\<close>

definition shows_next :: "PendingTask \<Rightarrow> form_edit \<Rightarrow> field \<Rightarrow> input \<Rightarrow> field \<Rightarrow> input \<Rightarrow> input" where
  "shows_next t e f inp g v =
     (if (f = F_preferV4 \<and> g = F_preferV6 \<or> f = F_preferV6 \<and> g = F_preferV4) \<and> inp = Checked True
         \<or> f = F_type \<and> g = F_useUDP \<and> inp = Picked ''tcpping'' then Checked False
      else if f = F_type \<and> g = F_pmtu then Checked (inp = Picked ''traceroute'' \<and> truthy_bool (pmtu t))
      else if g = F_sources \<and> mounted_selector (apply_edit e t) \<noteq> mounted_selector t then Chosen []
      else v)"

text \<open>The source selector shows what the handler keeps of the picked keys, in the order of its options.\<close>

fun as_shown :: "string list \<Rightarrow> input \<Rightarrow> input" where
  "as_shown offered (Chosen ks) = Chosen (filter (\<lambda>k. k \<in> set (clean_sources ks)) offered)"
| "as_shown offered inp = inp"

lemmas edits = select_task_type_def set_targetsInput_def set_preferV4_def set_preferV6_def set_useUDP_def set_pmtu_def
  set_plan_def set_dns_transport_def set_dns_type_def set_domainsInput_def set_resolversInput_def
  set_serverNameMapInput_def set_http_transport_def set_ip_pref_def set_addHeaderSW_def set_headersInput_def
  set_routeQueryType_def set_routeQueryTgt_def set_sources_def

text \<open>Every task type and every DNS transport has its option, and its text is cast back to it.\<close>

lemma every_choice_offered:
  "\<forall>ty. cast_text task_type_string task_type_options (task_type_string ty) = Some ty"
  "\<forall>tr. cast_text dns_transport_string dns_transport_options (dns_transport_string tr) = Some tr"
  by code_simp+

lemma plan_field_nullish: "f empty_plan = None \<Longrightarrow> plan_field f t = f (nullish (dnsProbePlan t) empty_plan)"
  by (cases "dnsProbePlan t") (simp_all add: plan_field_def)

lemma plan_fields:
  "plan_field plan_transport t = plan_transport (nullish (dnsProbePlan t) empty_plan)"
  "plan_field plan_type t = plan_type (nullish (dnsProbePlan t) empty_plan)"
  "plan_field plan_domainsInput t = plan_domainsInput (nullish (dnsProbePlan t) empty_plan)"
  "plan_field plan_resolversInput t = plan_resolversInput (nullish (dnsProbePlan t) empty_plan)"
  "plan_field plan_serverNameMapInput t = plan_serverNameMapInput (nullish (dnsProbePlan t) empty_plan)"
  by (rule plan_field_nullish; simp add: empty_plan_def)+

fun touched :: "form_edit \<Rightarrow> field set" where
  "touched (E_type ty) = {F_type, F_pmtu, F_sources} \<union> (if ty = T_tcpping then {F_useUDP} else {})"
| "touched (E_targets v) = {F_targets, F_urls, F_ip_addresses}"
| "touched (E_preferV4 b) = {F_preferV4} \<union> (if b then {F_preferV6} else {})"
| "touched (E_preferV6 b) = {F_preferV6} \<union> (if b then {F_preferV4} else {})"
| "touched (E_useUDP b) = {F_useUDP}"
| "touched (E_pmtu b) = {F_pmtu}"
| "touched (E_sources v) = {F_sources}"
| "touched (E_dns_transport v) = {F_dns_transport}"
| "touched (E_dns_type v) = {F_dns_type}"
| "touched (E_domains v) = {F_domains}"
| "touched (E_resolvers v) = {F_resolvers}"
| "touched (E_name_map v) = {F_name_map}"
| "touched (E_http_transport v) = {F_http_transport}"
| "touched (E_ip_pref v) = {F_ip_pref}"
| "touched (E_add_headers b) = {F_add_headers}"
| "touched (E_headers v) = {F_headers}"
| "touched (E_route_type v) = {F_route_type}"
| "touched (E_route_target v) = {F_route_target}"

lemma field_value_kept:
  "g \<notin> touched e \<Longrightarrow> pc_offered pc' = offered_after t (apply_edit e t) (pc_offered pc) \<Longrightarrow>
   field_value pc' (apply_edit e t) g = field_value pc t g"
  by (cases e; cases g) (simp_all add: edits plan_fields offered_after_def mounted_selector_def split: if_splits)

text \<open>The input of an edit, read off the edit.\<close>

fun made_by :: "form_edit \<Rightarrow> field \<Rightarrow> input \<Rightarrow> bool" where
  "made_by (E_type ty) f inp \<longleftrightarrow> f = F_type \<and> inp = Picked (task_type_string ty)"
| "made_by (E_targets v) f inp \<longleftrightarrow> f \<in> {F_targets, F_urls, F_ip_addresses} \<and> inp = Typed v"
| "made_by (E_preferV4 b) f inp \<longleftrightarrow> f = F_preferV4 \<and> inp = Checked b"
| "made_by (E_preferV6 b) f inp \<longleftrightarrow> f = F_preferV6 \<and> inp = Checked b"
| "made_by (E_useUDP b) f inp \<longleftrightarrow> f = F_useUDP \<and> inp = Checked b"
| "made_by (E_pmtu b) f inp \<longleftrightarrow> f = F_pmtu \<and> inp = Checked b"
| "made_by (E_sources v) f inp \<longleftrightarrow> f = F_sources \<and> inp = Chosen v"
| "made_by (E_dns_transport v) f inp \<longleftrightarrow> f = F_dns_transport \<and> inp = Picked (dns_transport_string v)"
| "made_by (E_dns_type v) f inp \<longleftrightarrow> f = F_dns_type \<and> inp = Picked (query_type_string v)"
| "made_by (E_domains v) f inp \<longleftrightarrow> f = F_domains \<and> inp = Typed v"
| "made_by (E_resolvers v) f inp \<longleftrightarrow> f = F_resolvers \<and> inp = Typed v"
| "made_by (E_name_map v) f inp \<longleftrightarrow> f = F_name_map \<and> inp = Typed v"
| "made_by (E_http_transport v) f inp \<longleftrightarrow> f = F_http_transport \<and> inp = Picked (http_proto_string v)"
| "made_by (E_ip_pref v) f inp \<longleftrightarrow> f = F_ip_pref \<and> inp = Picked (ip_pref_string v)"
| "made_by (E_add_headers b) f inp \<longleftrightarrow> f = F_add_headers \<and> inp = Checked b"
| "made_by (E_headers v) f inp \<longleftrightarrow> f = F_headers \<and> inp = Typed v"
| "made_by (E_route_type v) f inp \<longleftrightarrow> f = F_route_type \<and> inp = Picked (route_type_string v)"
| "made_by (E_route_target v) f inp \<longleftrightarrow> f = F_route_target \<and> inp = Typed v"

lemma handler_made_by: "handler f inp = Some e \<Longrightarrow> made_by e f inp"
  by (cases f; cases inp) (auto dest: cast_text_value)

lemma clean_sources_idem: "clean_sources (clean_sources ks) = clean_sources ks"
  by (induction ks) (simp_all add: clean_sources_def)

lemma task_type_texts:
  "task_type_string ty = ''tcpping'' \<longleftrightarrow> ty = T_tcpping" "task_type_string ty = ''traceroute'' \<longleftrightarrow> ty = T_traceroute"
  by (cases ty; simp)+

lemma edit_of_input:
  assumes "handler f inp = Some e" and "on_page t f" and "edit_enabled t e"
  shows "on_page (apply_edit e t) f"
    and "pc_offered pc' = offered_after t (apply_edit e t) (pc_offered pc) \<Longrightarrow>
         field_value pc' (apply_edit e t) f = as_shown (pc_offered pc) inp"
    and "g \<in> touched e \<Longrightarrow> g \<noteq> f \<Longrightarrow> on_page t g \<Longrightarrow> on_page (apply_edit e t) g \<Longrightarrow>
         pc_offered pc' = offered_after t (apply_edit e t) (pc_offered pc) \<Longrightarrow>
         field_value pc' (apply_edit e t) g = shows_next t e f inp g (field_value pc t g)"
proof -
  note m = handler_made_by [OF assms(1)]
  show "on_page (apply_edit e t) f"
    using m assms(2,3) by (cases e; force simp: edits plan_fields options_shown_def split: if_splits)
  show "field_value pc' (apply_edit e t) f = as_shown (pc_offered pc) inp"
    if "pc_offered pc' = offered_after t (apply_edit e t) (pc_offered pc)"
    using m assms(2,3) that
    by (cases e; force simp: edits plan_fields options_shown_def truthy_bool_def offered_after_def mounted_selector_def
        options_selected_def clean_sources_idem)
  show "field_value pc' (apply_edit e t) g = shows_next t e f inp g (field_value pc t g)"
    if "g \<in> touched e" "g \<noteq> f" "on_page t g" "on_page (apply_edit e t) g"
      "pc_offered pc' = offered_after t (apply_edit e t) (pc_offered pc)"
    using m assms(2,3) that
    by (cases e; force simp: edits plan_fields options_shown_def truthy_bool_def offered_after_def mounted_selector_def
        options_selected_def shows_next_def task_type_texts split: if_splits)
qed

lemma shows_next_kept:
  assumes "handler f inp = Some e" and "g \<notin> touched e"
  shows "shows_next t e f inp g v = v"
  using handler_made_by [OF assms(1)] assms(2)
  by (cases e) (auto simp: shows_next_def edits mounted_selector_def task_type_texts split: if_splits)

lemma accepted_handler:
  assumes "map_of (TaskCreatorPanel pc t) f = Some c" and "accepts c inp"
  shows "on_page t f" and "\<exists>e. handler f inp = Some e \<and> edit_enabled t e"
proof -
  show on: "on_page t f" using assms(1) shown_field [of pc t f] by (simp add: shown_def split: if_splits)
  have "(f, c) \<in> set (TaskCreatorPanel pc t)" by (rule map_of_SomeD [OF assms(1)])
  with assms(2) on show "\<exists>e. handler f inp = Some e \<and> edit_enabled t e"
    by (cases inp) (auto simp: TaskCreatorPanel_def panel_defs Let_def dest!: cast_text_offered split: if_splits)
qed

text \<open>C10. The form is controlled by the task. Every control on the page, the selector of sources included,
  that is not disabled accepts its inputs (an option it offers, a check mark, a text, keys it has
  loaded): its handler makes an edit that the page allows, and afterwards the control is still there and
  shows that input. The selector shows the keys the handler keeps, and the task's sources are then
  those alone, so keys that were selected but are not offered are dropped. Every other control that
  stays on the page shows what it showed, except the boxes the input unchecks, which show unchecked, and a
  selector that another one replaces, which shows none. No two controls stand for one field.\<close>

theorem form_shows_edits:
  assumes "map_of (TaskCreatorPanel pc t) f = Some c" and "accepts c inp"
  shows "distinct (map fst (TaskCreatorPanel pc t)) \<and>
    (\<exists>e. handler f inp = Some e \<and> edit_enabled t e
       \<and> (\<forall>pc'. pc_offered pc' = offered_after t (apply_edit e t) (pc_offered pc) \<longrightarrow>
            shown pc' (apply_edit e t) f = Some (as_shown (pc_offered pc) inp)
          \<and> (\<forall>g v v'. g \<noteq> f \<and> shown pc t g = Some v \<and> shown pc' (apply_edit e t) g = Some v'
               \<longrightarrow> v' = shows_next t e f inp g v))
       \<and> (\<forall>ks. inp = Chosen ks \<longrightarrow> sources (apply_edit e t) = clean_sources ks))"
proof -
  note on = accepted_handler(1) [OF assms]
  obtain e where e: "handler f inp = Some e" "edit_enabled t e" using accepted_handler(2) [OF assms] by auto
  note input = edit_of_input [OF e(1) on e(2)]
  have "v' = shows_next t e f inp g v"
    if o: "pc_offered pc' = offered_after t (apply_edit e t) (pc_offered pc)"
      and "g \<noteq> f" "shown pc t g = Some v" "shown pc' (apply_edit e t) g = Some v'" for pc' g v v'
  proof -
    have "on_page t g" "on_page (apply_edit e t) g" "v = field_value pc t g" "v' = field_value pc' (apply_edit e t) g"
      using that(3,4) by (simp_all add: shown_field split: if_splits)
    then show ?thesis
      using input(3) [OF _ that(2) _ _ o] field_value_kept [OF _ o, of g] shows_next_kept [OF e(1), of g] by metis
  qed
  moreover have "sources (apply_edit e t) = clean_sources ks" if "inp = Chosen ks" for ks
    using handler_made_by [OF e(1)] that by (cases e) (simp_all add: set_sources_def)
  ultimately show ?thesis
    using e input(1,2) fields_distinct by (auto simp: shown_field)
qed

definition bare_context :: "string list \<Rightarrow> panel_context" where
  "bare_context offered =
     \<lparr>pc_special = [], pc_route_env = None, pc_ip_env = None, pc_env = None, pc_offered = offered\<rparr>"

text \<open>With ''b'' selected but not offered, picking ''a'' as well leaves ''a'' and ''c''.\<close>

lemma form_shows_edits_witness:
  "shown (bare_context [''a'', ''c'']) (apply_edit (E_sources [''c'', ''a'']) (initialPendingTask\<lparr>sources := [''b'', ''c'']\<rparr>)) F_sources
     = Some (Chosen [''a'', ''c''])
   \<and> sources (apply_edit (E_sources [''c'', ''a'']) (initialPendingTask\<lparr>sources := [''b'', ''c'']\<rparr>)) = [''c'', ''a'']"
proof -
  let ?pc = "bare_context [''a'', ''c'']" and ?t = "initialPendingTask\<lparr>sources := [''b'', ''c'']\<rparr>"
  have c: "clean_sources [''c'', ''a''] = [''c'', ''a'']" by code_simp
  have "map_of (TaskCreatorPanel ?pc ?t) F_sources
      = Some (Source_select (Agents (source_filter ?t)) [''a'', ''c''] (clean_sources [''b'', ''c'']))"
    by (simp add: TaskCreatorPanel_def panel_defs initialPendingTask_def bare_context_def)
  from form_shows_edits [OF this, of "Chosen [''c'', ''a'']"]
  have "shown ?pc (apply_edit (E_sources [''c'', ''a'']) ?t) F_sources = Some (as_shown [''a'', ''c''] (Chosen [''c'', ''a'']))"
    and "sources (apply_edit (E_sources [''c'', ''a'']) ?t) = clean_sources [''c'', ''a'']"
    by (auto simp: bare_context_def offered_after_def mounted_selector_def set_sources_def)
  then show ?thesis by (simp add: c)
qed

text \<open>Selecting another task type keeps what the form then hides. After traceroute with \<^verbatim>\<open>PMTU\<close>
  checked, the DNS and HTTP forms have no such box and still offer only agents that support it; and
  the sources selected for one type stay selected for the others, whose lists need not know them.\<close>

theorem hidden_options_still_filter:
  assumes "truthy_bool (pmtu t)" and "ty \<noteq> T_ping" and "ty \<noteq> T_tcpping" and "ty \<noteq> T_traceroute"
    and "ty \<noteq> T_route" and "ty \<noteq> T_ip_query"
  shows "let t' = apply_edit (E_type ty) t in
      shown pc t' F_pmtu = None
    \<and> (\<exists>filter. fst (PingTaskSourceSelector route_env ip_env env t') = Agents (Some filter)
             \<and> map_of filter ''SupportPMTU'' = Some ''true'')
    \<and> snd (PingTaskSourceSelector route_env ip_env env t') = clean_sources (sources t)"
  using assms
  by (cases ty) (auto simp: Let_def shown_field options_shown_def PingTaskSourceSelector_def select_task_type_def
      source_filter_def update_conv)

lemma hidden_options_still_filter_witness:
  "let t = apply_edit (E_pmtu True) (apply_edit (E_type T_traceroute) initialPendingTask)
   in shown (bare_context []) t F_pmtu = Some (Checked True) \<and> shown (bare_context []) (apply_edit (E_type T_dns) t) F_pmtu = None
      \<and> (\<exists>filter. fst (PingTaskSourceSelector None None None (apply_edit (E_type T_dns) t)) = Agents (Some filter)
             \<and> map_of filter ''SupportPMTU'' = Some ''true'')"
  using hidden_options_still_filter [of "apply_edit (E_pmtu True) (apply_edit (E_type T_traceroute) initialPendingTask)"
      T_dns "bare_context []" None None None]
  by (simp add: Let_def shown_field options_shown_def select_task_type_def set_pmtu_def initialPendingTask_def truthy_bool_def)

end
