(* ===== verification/Docking.thy ===== *)
theory Docking
  imports Http_Probe
begin

text \<open>
  \<^verbatim>\<open>web/apis/useDockingMode.ts\<close> and the scrolling of \<open>EventDock\<close> (\<^verbatim>\<open>web/components/EventsBrowser.tsx\<close>): a
  list that follows its newest event until the user scrolls up. The browser's part is written as it
  is documented: the scroll height is at least the height of the box, the scroll position is kept
  between zero and their difference, and a scroll event comes some time after the position changed.
\<close>

section \<open>The scrolling box\<close>

record dock =
  dk_content :: int
  dk_client :: int
  dk_top :: int
  dk_following :: bool

definition scrollHeight :: "dock \<Rightarrow> int" where
  "scrollHeight d = max (dk_content d) (dk_client d)"

definition bottom :: "dock \<Rightarrow> int" where
  "bottom d = scrollHeight d - dk_client d"

text \<open>Assigning \<open>scrollTop\<close>.\<close>

definition set_scrollTop :: "int \<Rightarrow> dock \<Rightarrow> dock" where
  "set_scrollTop y d = d\<lparr>dk_top := max 0 (min y (bottom d))\<rparr>"

text \<open>A record of the observer: whether it is about the list of children, and how many were added.\<close>

record mutation =
  mut_childList :: bool
  mut_addedNodes :: nat

fun dock_observer :: "mutation list \<Rightarrow> dock \<Rightarrow> dock" where
  "dock_observer [] d = d"
| "dock_observer (m # ms) d =
     dock_observer ms
       (if mut_childList m \<and> 0 < mut_addedNodes m then
          (if dk_following d then set_scrollTop (max 0 (scrollHeight d - dk_client d)) d else d)
        else d)"

definition onScroll :: "dock \<Rightarrow> dock" where
  "onScroll d = d\<lparr>dk_following := followingMode (scrollHeight d) (dk_client d) (dk_top d)\<rparr>"

text \<open>\<open>Dk_mutate h ms\<close>: the children change, are \<open>h\<close> high now, and the observer is called with \<open>ms\<close>.\<close>

datatype dock_move =
    Dk_mutate int "mutation list"
  | Dk_user_scroll int
  | Dk_scroll_event
  | Dk_resize int

fun dock_step :: "dock \<Rightarrow> dock_move \<Rightarrow> dock" where
  "dock_step d (Dk_mutate h ms) = dock_observer ms (set_scrollTop (dk_top d) (d\<lparr>dk_content := h\<rparr>))"
| "dock_step d (Dk_user_scroll y) = set_scrollTop y d"
| "dock_step d Dk_scroll_event = onScroll d"
| "dock_step d (Dk_resize h) = set_scrollTop (dk_top d) (d\<lparr>dk_client := h\<rparr>)"

section \<open>Properties\<close>

definition adds_cards :: "mutation list \<Rightarrow> bool" where
  "adds_cards ms \<longleftrightarrow> (\<exists>m\<in>set ms. mut_childList m \<and> 0 < mut_addedNodes m)"

lemma bottom_nonneg [simp]: "0 \<le> bottom d" by (simp add: bottom_def scrollHeight_def)

lemma box_of_top [simp]:
  "bottom (d\<lparr>dk_top := y\<rparr>) = bottom d" "bottom (d\<lparr>dk_following := b\<rparr>) = bottom d"
  "scrollHeight (d\<lparr>dk_top := y\<rparr>) = scrollHeight d"
  by (simp_all add: bottom_def scrollHeight_def)

lemma observer_following:
  "dk_following d \<Longrightarrow> dk_top d \<le> bottom d \<Longrightarrow> 0 \<le> dk_top d \<Longrightarrow>
     dock_observer ms d = (if adds_cards ms then d\<lparr>dk_top := bottom d\<rparr> else d)"
  by (induction ms arbitrary: d) (auto simp: adds_cards_def set_scrollTop_def bottom_def [symmetric])

lemma observer_idle: "\<not> dk_following d \<Longrightarrow> dock_observer ms d = d"
  by (induction ms) simp_all

text \<open>The user leaves the box alone, and a taller list comes with added cards.\<close>

fun undisturbed :: "dock \<Rightarrow> dock_move \<Rightarrow> bool" where
  "undisturbed d (Dk_mutate h ms) \<longleftrightarrow> adds_cards ms \<or> h \<le> dk_content d"
| "undisturbed d Dk_scroll_event \<longleftrightarrow> True"
| "undisturbed d _ \<longleftrightarrow> False"

fun all_undisturbed :: "dock \<Rightarrow> dock_move list \<Rightarrow> bool" where
  "all_undisturbed d [] \<longleftrightarrow> True"
| "all_undisturbed d (m # ms) \<longleftrightarrow> undisturbed d m \<and> all_undisturbed (dock_step d m) ms"

definition docked :: "dock \<Rightarrow> bool" where
  "docked d \<longleftrightarrow> dk_following d \<and> dk_top d = bottom d"

lemma docked_step: "docked d \<Longrightarrow> undisturbed d m \<Longrightarrow> docked (dock_step d m)"
proof (cases m)
  case (Dk_mutate h ms)
  assume d: "docked d" and u: "undisturbed d m"
  let ?d = "set_scrollTop (dk_top d) (d\<lparr>dk_content := h\<rparr>)"
  have b: "dk_following ?d" "dk_top ?d \<le> bottom ?d" "0 \<le> dk_top ?d"
    using d by (simp_all add: set_scrollTop_def docked_def)
  have "\<not> adds_cards ms \<Longrightarrow> dk_top ?d = bottom ?d"
    using u d by (auto simp: Dk_mutate set_scrollTop_def docked_def bottom_def scrollHeight_def)
  with Dk_mutate b observer_following [OF b, of ms] show ?thesis by (simp add: docked_def)
qed (auto simp: docked_def onScroll_def followingMode_def bottom_def scrollHeight_def)

lemma scrolled_up_step:
  assumes "\<not> dk_following d" and "0 \<le> dk_top d" and "dk_top d + 10 \<le> bottom d"
    and "case m of Dk_mutate h ms \<Rightarrow> dk_content d \<le> h | Dk_scroll_event \<Rightarrow> True | _ \<Rightarrow> False"
  shows "let d' = dock_step d m in \<not> dk_following d' \<and> dk_top d' = dk_top d \<and> dk_top d' + 10 \<le> bottom d'
           \<and> dk_content d \<le> dk_content d'"
  using assms
  by (cases m) (auto simp: Let_def set_scrollTop_def observer_idle onScroll_def followingMode_def bottom_def
      scrollHeight_def)

text \<open>Heights of the list that only grow.\<close>

fun growing :: "int \<Rightarrow> dock_move list \<Rightarrow> bool" where
  "growing h [] \<longleftrightarrow> True"
| "growing h (m # ms) \<longleftrightarrow>
     (case m of Dk_mutate h' _ \<Rightarrow> h \<le> h' \<and> growing h' ms | Dk_scroll_event \<Rightarrow> growing h ms | _ \<Rightarrow> False)"

lemma observer_content [simp]: "dk_content (dock_observer ms d) = dk_content d"
  by (induction ms arbitrary: d) (auto simp: set_scrollTop_def)

lemma scrolled_up_stays:
  "\<not> dk_following d \<Longrightarrow> 0 \<le> dk_top d \<Longrightarrow> dk_top d + 10 \<le> bottom d \<Longrightarrow> growing (dk_content d) ms \<Longrightarrow>
     \<not> dk_following (foldl dock_step d ms) \<and> dk_top (foldl dock_step d ms) = dk_top d"
proof (induction ms arbitrary: d)
  case (Cons m ms)
  have "case m of Dk_mutate h ms \<Rightarrow> dk_content d \<le> h | Dk_scroll_event \<Rightarrow> True | _ \<Rightarrow> False"
    using Cons.prems(4) by (cases m) auto
  from scrolled_up_step [OF Cons.prems(1-3) this] have s: "\<not> dk_following (dock_step d m)"
    "dk_top (dock_step d m) = dk_top d" "dk_top (dock_step d m) + 10 \<le> bottom (dock_step d m)" by (auto simp: Let_def)
  have "growing (dk_content (dock_step d m)) ms"
    using Cons.prems(4) by (cases m) (auto simp: set_scrollTop_def onScroll_def)
  from Cons.IH [OF s(1) _ s(3) this] s(2) Cons.prems(2) show ?case by (simp del: dock_step.simps)
qed simp

text \<open>C38. A docked list stays at its newest card, whatever cards are added or removed and whenever the
  scroll events come. A list the user has scrolled up, at least ten pixels above the end, is never
  moved by new cards, and does not start to follow. But between the user's scrolling and its event the
  list still follows: a card that arrives then takes the position back to the end.\<close>

theorem docking_keeps_position:
  "(docked d \<and> all_undisturbed d ms \<longrightarrow> docked (foldl dock_step d ms))
   \<and> (\<not> dk_following d \<and> 0 \<le> dk_top d \<and> dk_top d + 10 \<le> bottom d \<and> growing (dk_content d) ms
        \<longrightarrow> dk_top (foldl dock_step d ms) = dk_top d \<and> \<not> dk_following (foldl dock_step d ms))
   \<and> (docked d \<and> adds_cards cards \<longrightarrow> docked (foldl dock_step d [Dk_user_scroll y, Dk_mutate h cards]))"
proof (intro conjI impI; elim conjE)
  show "docked (foldl dock_step d ms)" if "docked d" "all_undisturbed d ms"
    using that by (induction ms arbitrary: d) (simp_all add: docked_step del: dock_step.simps)
next
  show "docked (foldl dock_step d [Dk_user_scroll y, Dk_mutate h cards])" if "docked d" "adds_cards cards"
  proof -
    let ?d = "set_scrollTop (dk_top (set_scrollTop y d)) ((set_scrollTop y d)\<lparr>dk_content := h\<rparr>)"
    have b: "dk_following ?d" "dk_top ?d \<le> bottom ?d" "0 \<le> dk_top ?d"
      using that(1) by (simp_all add: set_scrollTop_def docked_def bottom_def scrollHeight_def)
    show ?thesis using observer_following [OF b, of cards] that(2) b(1) by (simp add: docked_def)
  qed
qed (simp_all add: scrolled_up_stays)

lemma docking_keeps_position_witness:
  "let card = \<lparr>mut_childList = True, mut_addedNodes = 1\<rparr>;
       d = \<lparr>dk_content = 300, dk_client = 100, dk_top = 200, dk_following = True\<rparr>
   in docked (foldl dock_step d [Dk_mutate 350 [card], Dk_scroll_event, Dk_mutate 400 [card]])
    \<and> dk_top (foldl dock_step (d\<lparr>dk_top := 50, dk_following := False\<rparr>) [Dk_mutate 350 [card], Dk_scroll_event]) = 50"
proof -
  let ?card = "\<lparr>mut_childList = True, mut_addedNodes = 1\<rparr>"
  let ?d = "\<lparr>dk_content = 300, dk_client = 100, dk_top = 200, dk_following = True\<rparr>"
  let ?e = "\<lparr>dk_content = 300, dk_client = 100, dk_top = 50, dk_following = False\<rparr>"
  have "docked ?d" "all_undisturbed ?d [Dk_mutate 350 [?card], Dk_scroll_event, Dk_mutate 400 [?card]]"
    by (simp_all add: docked_def bottom_def scrollHeight_def adds_cards_def)
  moreover have "dk_top ?e + 10 \<le> bottom ?e" by (simp add: bottom_def scrollHeight_def)
  ultimately show ?thesis
    using docking_keeps_position [of ?d "[Dk_mutate 350 [?card], Dk_scroll_event, Dk_mutate 400 [?card]]" "[]" 0 0]
      docking_keeps_position [of ?e "[Dk_mutate 350 [?card], Dk_scroll_event]" "[]" 0 0]
    by (simp add: Let_def del: dock_step.simps foldl.simps)
qed

end
