(* ===== verification/Requests.thy ===== *)
theory Requests
  imports Task Http_Probe Ping_Display Traceroute_Display Ip_Query
begin

text \<open>
  From the form to the request: what the service reads in the URL that a display fetches, when the
  task was filled in on the form, expanded and confirmed. The service's decoding of a query string
  is \<open>parse_query\<close>; a list of values is split at its commas, a repeated key gives all its values.
\<close>

section \<open>Reading a request\<close>

definition read_list :: "string \<Rightarrow> string \<Rightarrow> string list" where
  "read_list k q = (case map_of (parse_query q) k of None \<Rightarrow> [] | Some v \<Rightarrow> js_split CHR '','' v)"

definition read_all :: "string \<Rightarrow> string \<Rightarrow> string list" where
  "read_all k q = map snd (filter (\<lambda>p. fst p = k) (parse_query q))"

text \<open>What the IP display asks for.\<close>

definition ip_display_url :: "string \<Rightarrow> PendingTask \<Rightarrow> string" where
  "ip_display_url apiPrefix task =
     queryIPs_url apiPrefix (targets task) (if length (sources task) > 0 then Some (sources task) else None)"

text \<open>The task of a user who picks a type, types the values and selects the sources.\<close>

definition filled_in :: "PingTaskType \<Rightarrow> string list \<Rightarrow> string list \<Rightarrow> PendingTask \<Rightarrow> PendingTask" where
  "filled_in ty vs srcs t =
     apply_edit (E_sources srcs) (apply_edit (E_targets (js_join '','' vs)) (apply_edit (E_type ty) t))"

definition filled_in_dns :: "string list \<Rightarrow> string list \<Rightarrow> string list \<Rightarrow> PendingTask \<Rightarrow> PendingTask" where
  "filled_in_dns ds rs srcs t =
     apply_edit (E_sources srcs) (apply_edit (E_resolvers (js_join '','' rs))
       (apply_edit (E_domains (js_join '','' ds)) (apply_edit (E_type T_dns) t)))"

abbreviation clean_values :: "string list \<Rightarrow> bool" where
  "clean_values vs \<equiv> \<forall>v\<in>set vs. clean_value {CHR '',''} v"

section \<open>Lemmas\<close>

lemma read_list_joined:
  "parse_query q = ps \<Longrightarrow> map_of ps k = Some (js_join '','' vs) \<Longrightarrow> vs \<noteq> [] \<Longrightarrow> clean_values vs \<Longrightarrow> read_list k q = vs"
  by (simp add: read_list_def, subst js_split_join) (auto simp: clean_value_def)

lemma clean_sources_clean: "clean_values srcs \<Longrightarrow> clean_sources srcs = srcs"
  by (induction srcs) (auto simp: clean_sources_def clean_value_def)

lemma filled_in_fields:
  assumes "clean_values srcs"
  shows "sources (expandTask env rnd (filled_in ty vs srcs t)) = srcs"
    and "targets (expandTask env rnd (filled_in ty vs srcs t)) = csv_values (Some (js_join '','' vs))"
    and "task_type (expandTask env rnd (filled_in ty vs srcs t)) = ty"
  using clean_sources_clean [OF assms]
  by (simp_all add: expandTask_def expandHTTPProbes_def expandDNSProbeTask_def filled_in_def set_sources_def
      set_targetsInput_def select_task_type_def Let_def)

lemma filled_in_http:
  "nullish (httpProbeTargets (expandTask env rnd (filled_in ty vs srcs t))) []
   = map (make_http_target env (filled_in ty vs srcs t)) (csv_values (Some (js_join '','' vs)))"
  by (simp add: expandTask_def expandHTTPProbes_def expandDNSProbeTask_def filled_in_def set_sources_def
      set_targetsInput_def select_task_type_def Let_def make_http_target_def parse_headers_def)

definition dns_plan_of :: "string list \<Rightarrow> string list \<Rightarrow> PendingTask \<Rightarrow> DNSProbePlan" where
  "dns_plan_of ds rs t = (nullish (dnsProbePlan t) empty_plan)\<lparr>plan_domainsInput := Some (js_join '','' ds),
      plan_resolversInput := Some (js_join '','' rs), plan_domains := Some ds, plan_resolvers := Some rs\<rparr>"

lemma filled_in_dns_fields:
  assumes "clean_values ds" and "distinct ds" and "clean_values rs" and "distinct rs" and "clean_values srcs"
  shows "sources (expandTask env rnd (filled_in_dns ds rs srcs t)) = srcs"
    and "task_type (expandTask env rnd (filled_in_dns ds rs srcs t)) = T_dns"
    and "\<exists>nm. dnsProbeTargets (expandTask env rnd (filled_in_dns ds rs srcs t))
           = Some (expand_spec (dns_plan_of ds rs t) nm)"
  using clean_sources_clean [OF assms(5)] expandDNSProbePlan_spec [THEN conjunct1]
  by (auto simp: expandTask_def expandHTTPProbes_def expandDNSProbeTask_def filled_in_dns_def set_sources_def
      set_resolversInput_def set_domainsInput_def set_plan_def select_task_type_def Let_def dns_plan_of_def
      csv_values_join [OF assms(1,2)] csv_values_join [OF assms(3,4)])

lemma confirmed:
  assumes "TaskConfirmDialog t = Confirm_details ls"
  shows "sources t \<noteq> []" and "numValidTargets t \<noteq> 0" and "task_type t = T_traceroute \<Longrightarrow> length (targets t) \<le> 1"
  using assms by (auto simp: TaskConfirmDialog_def split: if_splits)

lemma ping_url_lists:
  assumes "clean_values (pr_sources r)" "clean_values (pr_targets r)" "pr_sources r \<noteq> []" "pr_targets r \<noteq> []"
  shows "\<exists>q. getPingSampleStreamURL env r = getApiEndpoint env @ ''/ping?'' @ q
     \<and> read_list ''from'' q = pr_sources r \<and> read_list ''targets'' q = pr_targets r"
proof (intro exI conjI)
  let ?q = "params_toString (ping_params r)"
  show "getPingSampleStreamURL env r = getApiEndpoint env @ ''/ping?'' @ ?q" by (simp add: getPingSampleStreamURL_def)
  note p = parse_params_toString [of "ping_params r"]
  show "read_list ''from'' ?q = pr_sources r"
    by (rule read_list_joined [OF p _ assms(3,1)]) (simp add: ping_params_list)
  show "read_list ''targets'' ?q = pr_targets r"
    by (rule read_list_joined [OF p _ assms(4,2)]) (simp add: ping_params_list)
qed

lemma appended: "foldl (\<lambda>p t. params_append k (f t) p) ps ts = ps @ map (\<lambda>t. (k, f t)) ts"
  by (induction ts arbitrary: ps) (simp_all add: params_append_def)

lemma event_params_list:
  "srcs \<noteq> [] \<Longrightarrow> event_params stringify srcs tgts
     = [(''from'', js_join '','' srcs), (''l7PacketType'', ''http'')] @ map (\<lambda>t. (''httpTarget'', stringify t)) tgts"
  by (simp add: event_params_def appended params_set_if_fresh params_set_fresh opt_param_def)

lemma dns_params_list:
  "dns_params stringify tgts srcs
     = [(''from'', js_join '','' srcs)] @ map (\<lambda>t. (''dnsTarget'', stringify t)) tgts @ [(''l7PacketType'', ''dns'')]"
  unfolding dns_params_def appended by (subst params_set_fresh) (auto simp: params_set_fresh)

section \<open>Properties\<close>

text \<open>C9. What the user typed is what the service is asked for. For the tasks whose targets are typed in
  one field, once the expanded task is confirmed: the request of the ping, TCP ping and traceroute
  displays names exactly the selected sources and the typed targets, in their order (a traceroute
  has exactly one); that of the HTTP display carries one target per typed URL; that of
  the IP display the typed addresses and the selected providers.\<close>

theorem request_of_form:
  assumes "clean_values vs" and "distinct vs" and "clean_values srcs"
    and "t = expandTask env rnd (filled_in ty vs srcs t0)" and "TaskConfirmDialog t = Confirm_details ls"
    and "\<forall>x\<in>set (nullish (httpProbeTargets t) []). parse (stringify x) = x"
  shows "case ty of
      T_ping \<Rightarrow> \<exists>q. getPingSampleStreamURL api (launch_request resolver t) = getApiEndpoint api @ ''/ping?'' @ q
         \<and> read_list ''from'' q = srcs \<and> read_list ''targets'' q = vs
    | T_tcpping \<Rightarrow> \<exists>q. getPingSampleStreamURL api (launch_request resolver t) = getApiEndpoint api @ ''/ping?'' @ q
         \<and> read_list ''from'' q = srcs \<and> read_list ''targets'' q = vs
    | T_traceroute \<Rightarrow> length vs = 1
         \<and> (\<exists>q. getPingSampleStreamURL api (trace_request resolver t) = getApiEndpoint api @ ''/ping?'' @ q
              \<and> read_list ''from'' q = srcs \<and> read_list ''targets'' q = vs)
    | T_http \<Rightarrow> \<exists>q. http_query api stringify t = Some (getApiEndpoint api @ ''/ping?'' @ q)
         \<and> read_list ''from'' q = srcs \<and> map (\<lambda>s. ht_url (parse s)) (read_all ''httpTarget'' q) = vs
    | T_ip_query \<Rightarrow> \<exists>q. ip_display_url apiPrefix t = apiPrefix @ ''/query?'' @ q
         \<and> read_all ''provider'' q = srcs \<and> read_all ''ip'' q = vs
    | _ \<Rightarrow> True"
proof -
  note f = filled_in_fields [OF assms(3), of env rnd ty vs t0, folded assms(4)]
  have vs: "targets t = vs" using f(2) csv_values_join [OF assms(1,2)] by simp
  have srcs: "srcs \<noteq> []" using confirmed(1) [OF assms(5)] f(1) by simp
  have n: "numValidTargets t \<noteq> 0" by (rule confirmed(2) [OF assms(5)])
  have tgts: "vs \<noteq> []" if "ty \<in> {T_ping, T_tcpping, T_traceroute}"
    using n that f(3) vs by (auto simp: numValidTargets_def)
  show ?thesis
  proof (cases ty)
    case T_traceroute
    then have "length vs = 1" using confirmed(3) [OF assms(5)] f(3) vs tgts by (cases vs) auto
    then have "take 1 vs = vs" by simp
    with ping_url_lists [of "trace_request resolver t" api] T_traceroute \<open>length vs = 1\<close> assms(1,3) srcs tgts
    show ?thesis by (simp add: trace_request_def f(1) vs)
  next
    case T_http
    have h: "nullish (httpProbeTargets t) [] = map (make_http_target env (filled_in ty vs srcs t0)) vs"
      unfolding assms(4) filled_in_http csv_values_join [OF assms(1,2)] ..
    with n f(3) T_http vs have "vs \<noteq> []" by (auto simp: numValidTargets_def split: if_splits)
    moreover have "map (\<lambda>x. ht_url (parse (stringify x))) (nullish (httpProbeTargets t) []) = vs"
    proof -
      have "map ht_url (map (make_http_target e p) vs) = vs" for e p
        by (induction vs) (simp_all add: make_http_target_def)
      moreover have "map (\<lambda>x. ht_url (parse (stringify x))) (nullish (httpProbeTargets t) [])
          = map ht_url (nullish (httpProbeTargets t) [])"
        using assms(6) by (intro map_cong) simp_all
      ultimately show ?thesis by (simp only: h)
    qed
    ultimately show ?thesis using T_http srcs h
      by (auto simp: http_query_def generateEventStream_def f(1) Let_def read_all_def parse_params_toString
          event_params_list filter_map comp_def
          intro!: exI read_list_joined [OF parse_params_toString _ srcs assms(3)])
  next
    case T_ip_query
    then show ?thesis using srcs
      by (auto simp: ip_display_url_def queryIPs_url_def f(1) vs read_all_def ipquery_request filter_map comp_def
          intro!: exI)
  qed (use ping_url_lists [of "launch_request resolver t" api] assms(1,3) srcs tgts in
      \<open>simp_all add: launch_request_def f(1) vs\<close>)
qed

lemma request_of_form_witness:
  "let t = expandTask None 0 (filled_in T_http [''http://a.b''] [''nyc''] initialPendingTask);
       tgt = hd (nullish (httpProbeTargets t) [])
   in \<exists>q. http_query None (\<lambda>_. ''x'') t = Some (getApiEndpoint None @ ''/ping?'' @ q)
        \<and> read_list ''from'' q = [''nyc''] \<and> map (\<lambda>s. ht_url tgt) (read_all ''httpTarget'' q) = [''http://a.b'']"
proof -
  define t where "t = expandTask None 0 (filled_in T_http [''http://a.b''] [''nyc''] initialPendingTask)"
  have c: "clean_values [''http://a.b'']" "clean_values [''nyc'']" "distinct [''http://a.b'']" by (simp_all add: clean_value_def js_trim_def is_ws_def)
  note f = filled_in_fields [OF c(2), of None 0 T_http "[''http://a.b'']" initialPendingTask, folded t_def]
  have h: "nullish (httpProbeTargets t) [] = [make_http_target None (filled_in T_http [''http://a.b''] [''nyc''] initialPendingTask) ''http://a.b'']"
    unfolding t_def filled_in_http csv_values_join [OF c(1,3)] by simp
  then have "httpProbeTargets t \<noteq> None" by (cases "httpProbeTargets t") simp_all
  then have "TaskConfirmDialog t = Confirm_details (confirm_lines t)"
    using h by (auto simp: TaskConfirmDialog_def numValidTargets_def f(1,3))
  from request_of_form [OF c(1,3,2) t_def this, of "\<lambda>_. hd (nullish (httpProbeTargets t) [])" "\<lambda>_. ''x''" None "[]" "[]"] h
  show ?thesis by (simp add: Let_def t_def [symmetric])
qed

text \<open>C27. The same for DNS: the request names the selected sources and carries one target per typed domain
  and resolver, domain by domain, with the transport and the query type chosen on the form.\<close>

theorem dns_request_of_form:
  assumes "clean_values ds" and "distinct ds" and "clean_values rs" and "distinct rs" and "clean_values srcs"
    and "t = expandTask env rnd (filled_in_dns ds rs srcs t0)" and "TaskConfirmDialog t = Confirm_details ls"
    and "\<forall>x\<in>set (nullish (dnsProbeTargets t) []). parse (stringify x) = x"
  shows "\<exists>q. dns_stream_url api stringify (nullish (dnsProbeTargets t) []) (sources t) = getApiEndpoint api @ ''/ping?'' @ q
     \<and> read_list ''from'' q = srcs
     \<and> map (\<lambda>s. (dt_target (parse s), dt_addrport (parse s))) (read_all ''dnsTarget'' q) = List.product ds rs
     \<and> (\<forall>s\<in>set (read_all ''dnsTarget'' q). dt_transport (parse s) = plan_transport (nullish (dnsProbePlan t0) empty_plan)
          \<and> dt_queryType (parse s) = nullish (plan_type (nullish (dnsProbePlan t0) empty_plan)) Q_a)"
proof -
  note f = filled_in_dns_fields [OF assms(1-5), of env rnd t0, folded assms(6)]
  note srcs = f(1)
  let ?plan = "dns_plan_of ds rs t0"
  obtain nm where tgts: "nullish (dnsProbeTargets t) [] = expand_spec ?plan nm" using f(3) by auto
  let ?ts = "expand_spec ?plan nm"
  have spec: "?ts = map (\<lambda>(n, d, r). make_dns_target ?plan nm n d r) (List.enumerate 0 (List.product ds rs))"
    by (simp add: expand_spec_def dns_plan_of_def)
  let ?q = "params_toString (dns_params stringify ?ts srcs)"
  have r: "map parse (read_all ''dnsTarget'' ?q) = ?ts"
    by (simp add: read_all_def parse_params_toString dns_params_list filter_map comp_def)
      (use assms(8) tgts in \<open>simp add: map_idI\<close>)
  show ?thesis
  proof (intro exI conjI)
    show "dns_stream_url api stringify (nullish (dnsProbeTargets t) []) (sources t) = getApiEndpoint api @ ''/ping?'' @ ?q"
      by (simp add: dns_stream_url_def tgts srcs)
    show "read_list ''from'' ?q = srcs"
      by (rule read_list_joined [OF parse_params_toString _ _ assms(5)])
        (use confirmed(1) [OF assms(7)] srcs in \<open>simp_all add: dns_params_list\<close>)
    have "map (\<lambda>s. (dt_target (parse s), dt_addrport (parse s))) (read_all ''dnsTarget'' ?q)
        = map (\<lambda>t. (dt_target t, dt_addrport t)) ?ts"
      by (subst r [symmetric]) simp
    also have "\<dots> = map snd (List.enumerate 0 (List.product ds rs))"
      unfolding spec by (simp add: case_prod_beta make_dns_target_def comp_def)
    finally show "map (\<lambda>s. (dt_target (parse s), dt_addrport (parse s))) (read_all ''dnsTarget'' ?q) = List.product ds rs"
      by simp
    have fields: "dt_transport x = plan_transport ?plan \<and> dt_queryType x = nullish (plan_type ?plan) Q_a" if "x \<in> set ?ts" for x
      using that unfolding spec by (auto simp: make_dns_target_def)
    show "\<forall>s\<in>set (read_all ''dnsTarget'' ?q). dt_transport (parse s) = plan_transport (nullish (dnsProbePlan t0) empty_plan)
          \<and> dt_queryType (parse s) = nullish (plan_type (nullish (dnsProbePlan t0) empty_plan)) Q_a"
    proof (intro ballI)
      fix s assume "s \<in> set (read_all ''dnsTarget'' ?q)"
      then have "parse s \<in> set ?ts" by (subst r [symmetric]) simp
      from fields [OF this] show "dt_transport (parse s) = plan_transport (nullish (dnsProbePlan t0) empty_plan)
          \<and> dt_queryType (parse s) = nullish (plan_type (nullish (dnsProbePlan t0) empty_plan)) Q_a" by (simp add: dns_plan_of_def)
    qed
  qed
qed

lemma dns_request_of_form_witness:
  "let t = expandTask None 0 (filled_in_dns [''a.b''] [''1.1.1.1''] [''nyc''] initialPendingTask);
       tgt = hd (nullish (dnsProbeTargets t) [])
   in \<exists>q. dns_stream_url None (\<lambda>_. ''x'') (nullish (dnsProbeTargets t) []) (sources t) = getApiEndpoint None @ ''/ping?'' @ q
        \<and> read_list ''from'' q = [''nyc''] \<and> map (\<lambda>s. (dt_target tgt, dt_addrport tgt)) (read_all ''dnsTarget'' q) = [(''a.b'', ''1.1.1.1'')]"
proof -
  define t where "t = expandTask None 0 (filled_in_dns [''a.b''] [''1.1.1.1''] [''nyc''] initialPendingTask)"
  have c: "clean_values [''a.b'']" "distinct [''a.b'']" "clean_values [''1.1.1.1'']" "distinct [''1.1.1.1'']"
    "clean_values [''nyc'']" by (simp_all add: clean_value_def js_trim_def is_ws_def)
  note f = filled_in_dns_fields [OF c, of None 0 initialPendingTask, folded t_def]
  have "length (expand_spec (dns_plan_of [''a.b''] [''1.1.1.1''] initialPendingTask) nm) = 1" for nm
    by (simp add: expand_spec_def dns_plan_of_def)
  with f have s: "sources t = [''nyc'']" "task_type t = T_dns" "length (the (dnsProbeTargets t)) = 1"
    "dnsProbeTargets t \<noteq> None" by auto
  then have "TaskConfirmDialog t = Confirm_details (confirm_lines t)"
    by (simp add: TaskConfirmDialog_def numValidTargets_def)
  moreover have "\<forall>x\<in>set (nullish (dnsProbeTargets t) []). hd (nullish (dnsProbeTargets t) []) = x"
    using s(3,4) by (auto simp: length_Suc_conv)
  ultimately show ?thesis
    using dns_request_of_form [OF c t_def, of "confirm_lines t" "\<lambda>_. hd (nullish (dnsProbeTargets t) [])" "\<lambda>_. ''x''" None]
    by (auto simp: Let_def t_def [symmetric])
qed

end
