(* ===== verification/Ping_View.thy ===== *)
theory Ping_View
  imports Ping_Display Task
begin

text \<open>
  What \<^verbatim>\<open>web/components/pingdisplay.tsx\<close> renders: the rows of both orientations, the map under a row with
  its legend, the buttons, and the preview of the report (\<^verbatim>\<open>traceroutereport.tsx\<close>). With it the small
  controls that displays share: \<^verbatim>\<open>playpause.tsx\<close>, the title of a task and its report's file. The state
  here is the component's own: the orientation, which maps are unfolded, the report that is shown.
\<close>

section \<open>Controls\<close>

datatype icon = PauseIcon | PlayArrowIcon | StopIcon

definition PlayPauseButton :: "bool \<Rightarrow> string \<times> icon" where
  "PlayPauseButton running = (if running then (''Running'', PauseIcon) else (''Stopped'', PlayArrowIcon))"

definition StopButton :: "bool \<Rightarrow> string \<times> icon" where
  "StopButton is_stopped = (if is_stopped then (''Re-Start'', PlayArrowIcon) else (''Stop'', StopIcon))"

text \<open>A legend is its colour and its label.\<close>

definition RenderLegends :: "ColorEncoding list \<Rightarrow> (string \<times> string) list" where
  "RenderLegends encs =
     map (\<lambda>e. (ce_color e, latencyColorEncodingToString e)) encs @ [(colorGrey, ''No Data'')]"

section \<open>Saving a report\<close>

text \<open>\<open>toBlob\<close> gives no blob when the canvas cannot be encoded. Without a canvas the call throws inside
  the promise; a missing blob is reported and becomes the text \<^verbatim>\<open>null\<close> in the file.\<close>

datatype file_content = Blob string | Text_null

datatype export_outcome = Export_rejected | Export_saved string file_content

definition exportCanvasBitmap :: "string option option \<Rightarrow> string \<Rightarrow> export_outcome" where
  "exportCanvasBitmap canvas fname =
     (let fname = map (\<lambda>c. if c = CHR '' '' then CHR ''_'' else c) fname
      in case canvas of
           None \<Rightarrow> Export_rejected
         | Some blob \<Rightarrow> Export_saved fname (case blob of Some b \<Rightarrow> Blob b | None \<Rightarrow> Text_null))"

record preview_dialog =
  pv_open :: bool
  pv_content :: "canvas_row list \<times> canvas_row list"
  pv_exporting :: bool

definition PingReportPreviewDialog :: "(int \<Rightarrow> string) \<Rightarrow> PingReport option \<Rightarrow> bool \<Rightarrow> bool \<Rightarrow> preview_dialog" where
  "PingReportPreviewDialog toISO report shown_open exporting =
     \<lparr>pv_open = shown_open, pv_content = ping_preview toISO report, pv_exporting = exporting\<rparr>"

text \<open>The save button: nothing without a date, otherwise the export under the name of the report.\<close>

definition save_click :: "(int \<Rightarrow> string) \<Rightarrow> string \<Rightarrow> string option option \<Rightarrow> int option \<Rightarrow> export_outcome option" where
  "save_click toISO kind canvas date =
     map_option (\<lambda>d. exportCanvasBitmap canvas (kind @ ''-'' @ toISO d @ ''.png'')) date"

section \<open>Rows\<close>

record map_view =
  mv_colSpan :: nat
  mv_markers :: "Marker list"
  mv_legends :: "(string \<times> string) list"
  mv_hint :: bool

record target_row =
  tw_first :: string
  tw_cells :: "ping_cell list"
  tw_tooltip :: string
  tw_map :: "map_view option"

definition PerTGTRowMap ::
  "(rat \<Rightarrow> string) \<Rightarrow> rat \<Rightarrow> Conns option \<Rightarrow> bool \<Rightarrow> bool \<Rightarrow> string \<Rightarrow> string list \<Rightarrow> nat
    \<Rightarrow> TableCellDataMap \<times> cell_store \<Rightarrow> target_row" where
  "PerTGTRowMap num ratio conns zoomEnabled expanded firstCol srcs rowLength s =
     \<lparr>tw_first = firstCol, tw_cells = map (ping_cell_view num s firstCol) srcs,
      tw_tooltip = (if \<not> expanded then ''See Overview in World Map'' else ''Hide World Map Overview''),
      tw_map = (if expanded then
          Some \<lparr>mv_colSpan = rowLength, mv_markers = target_markers ratio conns s firstCol srcs,
                mv_legends = RenderLegends encodings, mv_hint = (\<not> zoomEnabled)\<rparr>
        else None)\<rparr>"

definition PerSrcRowMap ::
  "(rat \<Rightarrow> string) \<Rightarrow> string \<Rightarrow> string list \<Rightarrow> TableCellDataMap \<times> cell_store \<Rightarrow> string \<times> ping_cell list" where
  "PerSrcRowMap num firstCol tgts s = (js_toUpperCase firstCol, map (\<lambda>t. ping_cell_view num s t firstCol) tgts)"

datatype ping_row = Target_row target_row | Source_row "string \<times> ping_cell list"

section \<open>The component\<close>

text \<open>Which maps are unfolded is state of the target rows, so it is lost with them when the table is
  turned round.\<close>

record ping_page =
  pp_orientation :: Orientation
  pp_expanded :: "nat set"
  pp_report :: "PingReport option"

definition ping_page_init :: ping_page where
  "ping_page_init = \<lparr>pp_orientation = TGT_SRC, pp_expanded = {}, pp_report = None\<rparr>"

datatype ping_page_move = PP_rotate | PP_map nat | PP_share int | PP_close

fun ping_page_step :: "PendingTask \<Rightarrow> TableCellDataMap \<times> cell_store \<Rightarrow> ping_page \<Rightarrow> ping_page_move \<Rightarrow> ping_page" where
  "ping_page_step task s p PP_rotate =
     p\<lparr>pp_orientation := rotate_orientation (pp_orientation p), pp_expanded := {}\<rparr>"
| "ping_page_step task s p (PP_map i) =
     (if pp_orientation p = TGT_SRC \<and> i < length (targets task)
      then p\<lparr>pp_expanded := (if i \<in> pp_expanded p then pp_expanded p - {i} else insert i (pp_expanded p))\<rparr> else p)"
| "ping_page_step task s p (PP_share now) =
     (case share_report now s task of None \<Rightarrow> p | Some r \<Rightarrow> p\<lparr>pp_report := Some r\<rparr>)"
| "ping_page_step task s p PP_close = p\<lparr>pp_report := None\<rparr>"

record ping_view =
  pw_title :: string
  pw_button :: "string \<times> icon"
  pw_head :: "string list"
  pw_body :: "ping_row list"
  pw_preview :: preview_dialog

definition PingResultDisplay ::
  "(rat \<Rightarrow> string) \<Rightarrow> (int \<Rightarrow> string) \<Rightarrow> rat \<Rightarrow> Conns option \<Rightarrow> bool \<Rightarrow> PendingTask \<Rightarrow> ping_page \<Rightarrow> ping_display \<Rightarrow> ping_view" where
  "PingResultDisplay num toISO ratio conns zoomEnabled task p d =
     \<lparr>pw_title = firstLetterCap (task_type_string (task_type task)) @ '' Task #'' @ taskId task,
      pw_button = PlayPauseButton (pd_running d),
      pw_head = table_head (pp_orientation p) task,
      pw_body = (case pp_orientation p of
          TGT_SRC \<Rightarrow> map (\<lambda>(i, t). Target_row (PerTGTRowMap num ratio conns zoomEnabled (i \<in> pp_expanded p) t
                             (sources task) (length (sources task) + 2) (pd_cells d)))
                       (List.enumerate 0 (targets task))
        | SRC_TGT \<Rightarrow> map (\<lambda>f. Source_row (PerSrcRowMap num f (targets task) (pd_cells d))) (sources task)),
      pw_preview = PingReportPreviewDialog toISO (pp_report p) (pp_report p \<noteq> None) False\<rparr>"

section \<open>Properties\<close>

fun row_width :: "ping_row \<Rightarrow> nat" where
  "row_width (Target_row r) = 1 + length (tw_cells r) + 1"
| "row_width (Source_row r) = 1 + length (snd r)"

fun row_cells :: "ping_row \<Rightarrow> ping_cell list" where
  "row_cells (Target_row r) = tw_cells r"
| "row_cells (Source_row r) = snd r"

fun map_span_ok :: "nat \<Rightarrow> ping_row \<Rightarrow> bool" where
  "map_span_ok n (Target_row r) \<longleftrightarrow> (case tw_map r of None \<Rightarrow> True | Some m \<Rightarrow> mv_colSpan m = n)"
| "map_span_ok n (Source_row r) \<longleftrightarrow> True"

definition legend_colours :: "string set" where
  "legend_colours = fst ` set (RenderLegends encodings)"

definition legible :: "Marker \<Rightarrow> bool" where
  "legible m \<longleftrightarrow> (case mk_fill m of Some c \<Rightarrow> c \<in> legend_colours | None \<Rightarrow> False)"

lemma legend_colours_eq: "legend_colours = {colorGreen, colorYellow, colorRed, colorGrey}"
  by (auto simp: legend_colours_def RenderLegends_def encodings_def)

lemma latency_colour_legible: "getLatencyColor (Some l) \<in> legend_colours"
  by (simp add: legend_colours_eq getLatencyColor_def encodings_def in_range_def)

lemma grey_legible: "colorGrey \<in> legend_colours"
  by (simp add: legend_colours_eq)

lemma group_marker_legible: "legible (group_marker ratio s target g)"
  using latency_colour_legible grey_legible by (auto simp: legible_def group_marker_def Let_def)

lemma update_markers_legible: "list_all legible ms \<Longrightarrow> list_all legible (updateMarkers ratio p ms)"
  by (auto simp: updateMarkers_def list_all_iff Let_def legible_def latency_colour_legible split: option.split)

lemma hop_markers_legible: "list_all legible (hop_markers ratio s target srcs)"
proof -
  have h: "list_all legible (foldl (\<lambda>ms p. updateMarkers ratio p ms) ms ps)" if "list_all legible ms" for ms ps
    using that by (induction ps arbitrary: ms) (simp_all add: update_markers_legible)
  have "list_all legible (foldl (\<lambda>ms src. foldl (\<lambda>ms p. updateMarkers ratio p ms) ms (f src)) ms srcs)"
    if "list_all legible ms" for ms f
    using that by (induction srcs arbitrary: ms) (simp_all add: h)
  then show ?thesis by (simp add: hop_markers_def)
qed

lemma target_markers_legible: "list_all legible (target_markers ratio conns s target srcs)"
  using hop_markers_legible [of ratio s target srcs]
  by (auto simp: target_markers_def extra_markers_def Let_def list_all_iff group_marker_legible dest: in_set_takeD)

lemma target_rows_map: "map (\<lambda>(i, t). Target_row (f i t)) (List.enumerate n ts)
    = map (\<lambda>k. Target_row (f (n + k) (ts ! k))) [0..<length ts]"
proof (induction ts arbitrary: n)
  case (Cons t ts)
  have "map g [0..<Suc (length ts)] = g 0 # map (\<lambda>k. g (Suc k)) [0..<length ts]" for g :: "nat \<Rightarrow> ping_row"
    by (simp only: upt_conv_Cons zero_less_Suc map_Suc_upt [symmetric]) simp
  from this [of "\<lambda>k. Target_row (f (n + k) ((t # ts) ! k))"] show ?case by (simp add: Cons.IH)
qed simp

text \<open>C16. The ping table, whatever was measured and whatever was clicked. Every row is as wide as the
  head, and a map under a row spans it; the two orientations show the same cells, transposed; turning
  the table twice gives the first table back with all maps folded; and the colour of every marker on
  a map is explained by the legend beside it, whose four labels are distinct.\<close>

theorem ping_table_fits_head:
  "let view = (\<lambda>p. PingResultDisplay num toISO ratio conns zoomEnabled task p d);
       turn = (\<lambda>p. ping_page_step task s p PP_rotate)
   in list_all (\<lambda>r. row_width r = length (pw_head (view p)) \<and> map_span_ok (length (pw_head (view p))) r) (pw_body (view p))
    \<and> map row_cells (pw_body (view (p\<lparr>pp_orientation := SRC_TGT\<rparr>)))
      = map (\<lambda>j. map (\<lambda>r. row_cells r ! j) (pw_body (view (p\<lparr>pp_orientation := TGT_SRC\<rparr>)))) [0..<length (sources task)]
    \<and> view (turn (turn p)) = view (p\<lparr>pp_expanded := {}\<rparr>)
    \<and> list_all legible (target_markers ratio conns (pd_cells d) target (sources task))
    \<and> map snd (RenderLegends encodings) = [''[0, 100ms)'', ''[100ms, 250ms)'', ''[250ms, Infinity)'', ''No Data'']"
proof -
  let ?view = "\<lambda>p. PingResultDisplay num toISO ratio conns zoomEnabled task p d"
  have w: "list_all (\<lambda>r. row_width r = length (pw_head (?view p)) \<and> map_span_ok (length (pw_head (?view p))) r) (pw_body (?view p))"
    by (cases "pp_orientation p")
      (auto simp: PingResultDisplay_def table_head_def PerTGTRowMap_def PerSrcRowMap_def list_all_iff split: option.split)
  have t: "map row_cells (pw_body (?view (p\<lparr>pp_orientation := SRC_TGT\<rparr>)))
      = map (\<lambda>j. map (\<lambda>r. row_cells r ! j) (pw_body (?view (p\<lparr>pp_orientation := TGT_SRC\<rparr>)))) [0..<length (sources task)]"
  proof -
    have "map (\<lambda>f. map (\<lambda>t. g t f) (targets task)) (sources task)
        = map (\<lambda>j. map (\<lambda>k. g (targets task ! k) (sources task ! j)) [0..<length (targets task)]) [0..<length (sources task)]"
      for g :: "string \<Rightarrow> string \<Rightarrow> ping_cell"
      by (intro nth_equalityI) simp_all
    then show ?thesis
      by (simp add: PingResultDisplay_def PerTGTRowMap_def PerSrcRowMap_def comp_def target_rows_map)
  qed
  have l: "map snd (RenderLegends encodings) = [''[0, 100ms)'', ''[100ms, 250ms)'', ''[250ms, Infinity)'', ''No Data'']"
    by code_simp
  have "?view (ping_page_step task s (ping_page_step task s p PP_rotate) PP_rotate) = ?view (p\<lparr>pp_expanded := {}\<rparr>)"
    by (cases "pp_orientation p") (simp_all add: PingResultDisplay_def rotate_orientation_def)
  with w t l show ?thesis by (simp add: Let_def target_markers_legible del: ping_page_step.simps)
qed

text \<open>A canvas that cannot be encoded does not stop the export: the file is saved under the report's
  name and holds the text \<^verbatim>\<open>null\<close>.\<close>

theorem export_without_blob:
  "save_click toISO kind (Some None) (Some d)
   = Some (Export_saved (map (\<lambda>c. if c = CHR '' '' then CHR ''_'' else c) (kind @ ''-'' @ toISO d @ ''.png'')) Text_null)"
  by (simp add: save_click_def exportCanvasBitmap_def)

end
