(* ===== verification/Trace_View.thy ===== *)
theory Trace_View
  imports Traceroute_Display Ping_View
begin

text \<open>
  What \<open>TracerouteResultDisplay\<close> (\<^verbatim>\<open>web/components/traceroutedisplay.tsx\<close>) renders around its table: tabs,
  the button that stops and resumes, the map, the preview of the report
  (\<open>TracerouteReportPreviewDialog\<close> of \<^verbatim>\<open>traceroutereport.tsx\<close>); and the state of these.
\<close>

section \<open>State and handlers\<close>

text \<open>\<open>tabValue\<close> starts as the first source, which need not exist.\<close>

record trace_page =
  tabValue :: "string option"
  tp_report :: "TracerouteReport option"
  showMap :: bool
  openPreview :: bool

definition trace_page_init :: "PendingTask \<Rightarrow> trace_page" where
  "trace_page_init task =
     \<lparr>tabValue = (case sources task of [] \<Rightarrow> None | s # ss \<Rightarrow> Some s), tp_report = None, showMap = False, openPreview = False\<rparr>"

definition tab_stats :: "trace_hook \<Rightarrow> trace_page \<Rightarrow> TraceStats option" where
  "tab_stats h p = Option.bind (tabValue p) (map_of (shown_stats h))"

definition tab_node :: "Conns option \<Rightarrow> trace_page \<Rightarrow> ConnEntry option" where
  "tab_node conns p = Option.bind (tabValue p) (current_node conns)"

datatype trace_page_move = TP_tab string | TP_map | TP_share int | TP_close

fun trace_page_step ::
  "PendingTask \<Rightarrow> Conns option \<Rightarrow> trace_hook \<Rightarrow> trace_page \<Rightarrow> trace_page_move \<Rightarrow> trace_page" where
  "trace_page_step task conns h p (TP_tab v) = (if v \<in> set (sources task) then p\<lparr>tabValue := Some v\<rparr> else p)"
| "trace_page_step task conns h p TP_map = p\<lparr>showMap := \<not> showMap p\<rparr>"
| "trace_page_step task conns h p (TP_share now) =
     (case share_traceroute now task (tab_node conns p) (tab_stats h p) of
        None \<Rightarrow> p
      | Some r \<Rightarrow> p\<lparr>tp_report := Some r, openPreview := True\<rparr>)"
| "trace_page_step task conns h p TP_close = p\<lparr>openPreview := False\<rparr>"

section \<open>The view\<close>

definition TracerouteReportPreviewDialog ::
  "(int \<Rightarrow> string) \<Rightarrow> TracerouteReport option \<Rightarrow> Table option \<Rightarrow> bool \<Rightarrow> bool \<Rightarrow> preview_dialog" where
  "TracerouteReportPreviewDialog toISO report tracerouteTable shown_open exporting =
     \<lparr>pv_open = shown_open, pv_content = traceroute_preview toISO report tracerouteTable, pv_exporting = exporting\<rparr>"

record run_button =
  rb_tooltip :: string
  rb_icon :: icon
  rb_disabled :: bool

definition trace_button :: "trace_hook \<Rightarrow> run_button" where
  "trace_button h =
     \<lparr>rb_tooltip = (if hook_running h then ''Stop'' else ''Resume''),
      rb_icon = (if hook_running h then StopIcon else PlayArrowIcon), rb_disabled = button_disabled h\<rparr>"

record trace_map =
  tm_markers :: "Marker list"
  tm_paths :: "Path list option"
  tm_caption :: string
  tm_hint :: bool

record trace_view =
  tx_title :: string
  tx_tabs :: "(string \<times> bool) list"
  tx_map_tooltip :: string
  tx_map_visible :: bool
  tx_button :: run_button
  tx_node :: "(string \<times> string) option"
  tx_map :: "trace_map option"
  tx_table :: "(string list list \<times> table_row_view list) option"
  tx_preview :: preview_dialog

definition TracerouteResultDisplay ::
  "(TraceStats option \<Rightarrow> Marker list \<Rightarrow> rat \<Rightarrow> Marker list \<times> Path list option) \<Rightarrow> (int \<Rightarrow> string) \<Rightarrow> rat \<Rightarrow> bool
    \<Rightarrow> Conns option \<Rightarrow> PendingTask \<Rightarrow> trace_page \<Rightarrow> trace_hook \<Rightarrow> trace_view" where
  "TracerouteResultDisplay markersAndPaths toISO ratio zoomEnabled conns task p h =
     (let sourceMarkers = (case tabValue p of None \<Rightarrow> [] | Some v \<Rightarrow> source_markers conns v);
          traceStats = tab_stats h p;
          tracerouteTable = map_option ToTable traceStats;
          (markers, extraPaths) = markersAndPaths traceStats sourceMarkers ratio
      in \<lparr>tx_title = firstLetterCap (task_type_string (task_type task)) @ '' Task #'' @ taskId task,
          tx_tabs = map (\<lambda>s. (s, tabValue p = Some s)) (sources task),
          tx_map_tooltip = (if showMap p then ''Hide Map'' else ''Show Map''),
          tx_map_visible = (length markers > 0),
          tx_button = trace_button h,
          tx_node = DisplayCurrentNode (tab_node conns p) (case targets task of [] \<Rightarrow> [] | t # ts \<Rightarrow> t),
          tx_map = (if showMap p then
              Some \<lparr>tm_markers = markers, tm_paths = extraPaths,
                    tm_caption = ''Traceroute to '' @ (case targets task of [] \<Rightarrow> [] | t # ts \<Rightarrow> t)
                      @ '', for informational purposes only.'',
                    tm_hint = (\<not> zoomEnabled)\<rparr>
            else None),
          tx_table = map_option table_view tracerouteTable,
          tx_preview = TracerouteReportPreviewDialog toISO (tp_report p) tracerouteTable
            (tp_report p \<noteq> None \<and> tracerouteTable \<noteq> None \<and> openPreview p) False\<rparr>)"

section \<open>Properties\<close>

text \<open>The states of the hook: a paused hook has stopped, reads nothing and shows its snapshot.\<close>

definition hook_ok :: "trace_hook \<Rightarrow> bool" where
  "hook_ok h \<longleftrightarrow> (if hook_paused h then \<not> hook_running h \<and> th_reader h = No_stream \<and> snapshop h \<noteq> None \<and> traceStatsMap h = [] else snapshop h = None)
     \<and> (th_reader h = Reading \<longrightarrow> hook_running h)"

lemma hook_ok_init: "hook_ok trace_init"
  by (simp add: hook_ok_def trace_init_def start_effect_def)

lemma hook_ok_step: "hook_ok h \<Longrightarrow> hook_ok (trace_step h m)"
  by (cases m) (auto simp: hook_ok_def start_effect_def trace_cleanup_def stopTick_def resumeTick_def button_disabled_def)

lemma hook_ok_steps: "hook_ok h \<Longrightarrow> hook_ok (foldl trace_step h ms)"
  by (induction ms arbitrary: h) (simp_all add: hook_ok_step del: trace_step.simps)

text \<open>C15. The button of the traceroute display in every state its hook can reach. It reads \<^verbatim>\<open>Stop\<close> exactly
  while the hook runs, and then it can be pressed: pressing it keeps the statistics that are shown
  and offers \<^verbatim>\<open>Resume\<close>. Pressing that drops them and fetches anew. A trace that ended by itself, or has
  not started, shows a disabled \<^verbatim>\<open>Resume\<close>: such a trace cannot be started again.\<close>

theorem traceroute_button:
  "let h = foldl trace_step trace_init ms
   in trace_button h =
        (if hook_running h then \<lparr>rb_tooltip = ''Stop'', rb_icon = StopIcon, rb_disabled = False\<rparr>
         else \<lparr>rb_tooltip = ''Resume'', rb_icon = PlayArrowIcon, rb_disabled = (\<not> hook_paused h)\<rparr>)
    \<and> (hook_running h \<longrightarrow> shown_stats (trace_step h T_stop) = shown_stats h
         \<and> trace_button (trace_step h T_stop) = \<lparr>rb_tooltip = ''Resume'', rb_icon = PlayArrowIcon, rb_disabled = False\<rparr>)
    \<and> (hook_paused h \<longrightarrow> th_reader (trace_step h T_resume) = Fetching
         \<and> shown_stats (trace_step h T_resume) = [] \<and> snapshop (trace_step h T_resume) = None)
    \<and> (rb_disabled (trace_button h) \<longrightarrow> trace_step h T_stop = h \<and> trace_step h T_resume = h)"
proof -
  have "hook_ok (foldl trace_step trace_init ms)" by (rule hook_ok_steps [OF hook_ok_init])
  then show ?thesis
    by (auto simp: Let_def hook_ok_def trace_button_def button_disabled_def stopTick_def resumeTick_def start_effect_def
        trace_cleanup_def shown_stats_def split: if_splits)
qed

lemma traceroute_button_witness:
  "let h = foldl trace_step trace_init [T_body True, T_stop]
   in hook_paused h \<and> trace_button h = \<lparr>rb_tooltip = ''Resume'', rb_icon = PlayArrowIcon, rb_disabled = False\<rparr>
      \<and> th_reader (trace_step h T_resume) = Fetching \<and> shown_stats (trace_step h T_resume) = []"
proof -
  have "hook_paused (foldl trace_step trace_init [T_body True, T_stop])"
    "\<not> hook_running (foldl trace_step trace_init [T_body True, T_stop])"
    by (simp_all add: trace_init_def start_effect_def stopTick_def trace_cleanup_def button_disabled_def)
  with traceroute_button [of "[T_body True, T_stop]"] show ?thesis
    by (simp add: Let_def del: trace_step.simps foldl.simps)
qed

end
