(* ===== verification/Query_View.thy ===== *)
theory Query_View
  imports Route_Display Ip_Display Events_Hook Source_Selector
begin

text \<open>
  What the query displays render around their tables and cards: \<^verbatim>\<open>SourceTabs.tsx\<close>, the headers of
  \<^verbatim>\<open>RouteQueryResultDisplay.tsx\<close>, \<^verbatim>\<open>IPQueryResultDisplay.tsx\<close> and \<^verbatim>\<open>httpprobedisplay.tsx\<close>, and the three
  selectors of \<^verbatim>\<open>sourceselector.tsx\<close> as they are shown.
\<close>

section \<open>Tabs and headers\<close>

definition SourceTabs :: "string list \<Rightarrow> string \<Rightarrow> (string \<times> bool) list" where
  "SourceTabs tabs active = map (\<lambda>source. (source, source = active)) tabs"

text \<open>The line under the tabs, piece by piece.\<close>

definition route_description :: "PendingTask \<Rightarrow> string \<Rightarrow> string list" where
  "route_description task validProvider =
     [''Query from'', validProvider, ''where'', getQueryTypeLabel (nullish (routeQueryType task) defaultRouteQueryType)]
     @ (if truthy_str (routeQueryTgt task) then [the (routeQueryTgt task)] else [])"

definition ip_description :: "PendingTask \<Rightarrow> string \<Rightarrow> string list" where
  "ip_description task validProvider =
     [''Query from'', validProvider] @ (if length (targets task) > 0 then [''for''] @ targets task else [])"

record route_view =
  rw_title :: string
  rw_spinner :: bool
  rw_tabs :: "(string \<times> bool) list"
  rw_description :: "string list"
  rw_stats :: "(string \<times> string) list"
  rw_messages :: "route_message list"
  rw_cards :: "entry_card list"
  rw_more :: bool

definition RouteQueryResultDisplay :: "PendingTask \<Rightarrow> route_display \<Rightarrow> route_view" where
  "RouteQueryResultDisplay task d =
     (let p = valid_provider (sources task) (rd_active d)
      in \<lparr>rw_title = firstLetterCap (task_type_string (task_type task)) @ '' Task #'' @ taskId task,
          rw_spinner = any_running d, rw_tabs = SourceTabs (sources task) p,
          rw_description = route_description task p, rw_stats = stats_texts (route_stats (all_entries d p)),
          rw_messages = route_messages d p, rw_cards = route_cards d p, rw_more = load_more_visible d p\<rparr>)"

text \<open>The rest of the IP display: its tabs, its description and the labelled counts.\<close>

record ip_header =
  ih_tabs :: "(string \<times> bool) list"
  ih_description :: "string list"
  ih_stats :: "(string \<times> string) list"

definition ip_header_of :: "PendingTask \<Rightarrow> ip_display \<Rightarrow> ProviderIPQueryMap \<Rightarrow> ip_header" where
  "ip_header_of task d m =
     (let v = IPQueryResultDisplay task d m
      in \<lparr>ih_tabs = SourceTabs (sources task) (vw_provider v), ih_description = ip_description task (vw_provider v),
          ih_stats = zip [''Results'', ''Unique ASNs'', ''Unique Countries'', ''Unique ISPs'']
                       (map nat_to_string (vw_counts v))\<rparr>)"

text \<open>The HTTP display's own state: the active filters, and a generation that makes the query run anew.\<close>

record http_page =
  hp_filter :: labels
  hp_gen :: nat

datatype http_move = HM_refresh | HM_filter string string

fun http_page_step :: "http_page \<Rightarrow> http_move \<Rightarrow> http_page" where
  "http_page_step p HM_refresh = p\<lparr>hp_gen := hp_gen p + 1\<rparr>"
| "http_page_step p (HM_filter key v) = p\<lparr>hp_filter := toggle_filter key v (hp_filter p)\<rparr>"

text \<open>What the query's result is cached under.\<close>

definition http_query_key :: "PendingTask \<Rightarrow> http_page \<Rightarrow> string \<times> string \<times> string list \<times> HTTPTarget list option \<times> nat" where
  "http_query_key task p =
     (task_type_string (task_type task), taskId task, sources task, httpProbeTargets task, hp_gen p)"

definition http_title :: "PendingTask \<Rightarrow> string" where
  "http_title task = firstLetterCap (task_type_string (task_type task)) @ '' Task #'' @ taskId task"

section \<open>Selectors\<close>

record 'l selector_view =
  sw_selected :: "string list"
  sw_open :: bool
  sw_options :: "'l list"
  sw_spinner :: bool
  sw_placeholder :: string

definition selector_view_of ::
  "('o \<Rightarrow> string) \<Rightarrow> ('o \<Rightarrow> 'l) \<Rightarrow> 'o selector \<Rightarrow> string list \<Rightarrow> 'l selector_view" where
  "selector_view_of key line s value =
     \<lparr>sw_selected = map key (options_selected key (ss_options s) value), sw_open = ss_isOpen s,
      sw_options = map line (ss_options s), sw_spinner = ss_isLoading s,
      sw_placeholder = selector_placeholder key s value\<rparr>"

definition SourcesSelector ::
  "SourceOption selector \<Rightarrow> string list \<Rightarrow> (int list \<times> string option \<times> string option) selector_view" where
  "SourcesSelector = selector_view_of so_key agent_option"

definition MRTSourceSelector ::
  "MRTEntriesProvider selector \<Rightarrow> string list \<Rightarrow> (string \<times> string \<times> string \<times> string) selector_view" where
  "MRTSourceSelector = selector_view_of mp_Name provider_option"

definition IPQuerySourceSelector :: "string selector \<Rightarrow> string list \<Rightarrow> string selector_view" where
  "IPQuerySourceSelector = selector_view_of (\<lambda>opt. opt) (\<lambda>opt. opt)"

section \<open>Properties\<close>

lemma community_chips:
  "concat (map snd (cd_communities (details_of e)))
     = map formatCommunity (nullish (Communities e) []) @ map formatLargeCommunity (nullish (LargeCommunities e) [])
       @ map formatExtendedCommunity (nullish (ExtendedCommunities e) [])"
  "list_all (\<lambda>r. snd r \<noteq> []) (cd_communities (details_of e))"
  by (auto simp: details_of_def hasCommunities_def community_rows_def nonempty_def split: option.splits)

lemma enumerate_cards: "map (\<lambda>c. (ec_number c, ec_prefix c)) (map (\<lambda>(i, e). MRTEntryCard e i True) (List.enumerate n es))
    = map (\<lambda>(i, e). (CHR ''#'' # nat_to_string (i + 1), Prefix e)) (List.enumerate n es)"
  by (simp add: MRTEntryCard_def case_prod_beta comp_def)

text \<open>The route display in any state: its cards are numbered from one and show the prefixes of the
  entries of the open tab in order; the count in the statistics is the number of cards; a card shows
  every community of its entry once, under no empty label; the message that nothing was found stands
  only over an empty list whose provider neither runs nor failed, and never together with an error or
  with \<^verbatim>\<open>Load More\<close> over a running provider.\<close>

theorem route_view_consistent:
  "let v = RouteQueryResultDisplay task d; p = valid_provider (sources task) (rd_active d); es = all_entries d p
   in map (\<lambda>c. (ec_number c, ec_prefix c)) (rw_cards v)
        = map (\<lambda>(i, e). (CHR ''#'' # nat_to_string (i + 1), Prefix e)) (List.enumerate 0 es)
    \<and> rw_stats v ! 0 = (''Entries'', nat_to_string (length (rw_cards v)))
    \<and> map (\<lambda>c. concat (map snd (cd_communities (the (ec_expanded c))))) (rw_cards v)
        = map (\<lambda>e. map formatCommunity (nullish (Communities e) []) @ map formatLargeCommunity (nullish (LargeCommunities e) [])
                 @ map formatExtendedCommunity (nullish (ExtendedCommunities e) [])) es
    \<and> (Route_nothing \<in> set (rw_messages v))
        = (rw_cards v = [] \<and> rw_messages v = [Route_nothing]
           \<and> (case provider_state d p of None \<Rightarrow> True | Some s \<Rightarrow> \<not> isRunning s \<and> \<not> truthy_str (st_error s)))
    \<and> length (rw_messages v) \<le> 1"
proof -
  let ?p = "valid_provider (sources task) (rd_active d)"
  have n: "length (route_cards d ?p) = length (all_entries d ?p)" by (simp add: route_cards_def)
  have s: "stats_texts (route_stats (all_entries d ?p)) ! 0 = (''Entries'', nat_to_string (length (route_cards d ?p)))"
    by (simp add: stats_texts_def route_stats_def Let_def n)
  have c: "map (\<lambda>c. concat (map snd (cd_communities (the (ec_expanded c))))) (map (\<lambda>(i, e). MRTEntryCard e i True) (List.enumerate k es))
      = map (\<lambda>e. concat (map snd (cd_communities (details_of e)))) es" for k and es :: "MRTEntry list"
    by (induction es arbitrary: k) (simp_all add: MRTEntryCard_def)
  have m: "(Route_nothing \<in> set (route_messages d ?p))
      = (route_cards d ?p = [] \<and> route_messages d ?p = [Route_nothing]
         \<and> (case provider_state d ?p of None \<Rightarrow> True | Some s \<Rightarrow> \<not> isRunning s \<and> \<not> truthy_str (st_error s)))"
    "length (route_messages d ?p) \<le> 1"
    using n by (auto simp: route_messages_def Let_def split: option.splits)
  show ?thesis
    using s m enumerate_cards [of 0 "all_entries d ?p"] c [of 0 "all_entries d ?p"]
    by (simp add: RouteQueryResultDisplay_def Let_def route_cards_def community_chips del: map_map)
qed

lemma map_of_dropNil:
  "distinct (map fst xs) \<Longrightarrow> map_of (dropNilValues xs) k = (case map_of xs k of Some v \<Rightarrow> if v = [] then None else Some v | None \<Rightarrow> None)"
proof (induction xs)
  case (Cons x xs)
  have "map_of xs (fst x) = None" using Cons.prems by (auto simp: map_of_eq_None_iff)
  with Cons show ?case by (cases x) (auto simp: dropNilValues_def)
qed (simp add: dropNilValues_def)

lemma toggle_filter_keys: "distinct (map fst xs) \<Longrightarrow> distinct (map fst (toggle_filter k v xs))"
  by (simp add: toggle_filter_def dropNilValues_def distinct_map_filter distinct_update)

text \<open>The filters of the HTTP display never make it fetch again and a refresh always does, with the
  filters kept; choosing an active filter once more takes it away.\<close>

theorem http_filters_and_refresh:
  "http_query_key task (http_page_step p (HM_filter k v)) = http_query_key task p
   \<and> http_query_key task (http_page_step p HM_refresh) \<noteq> http_query_key task p
   \<and> hp_filter (http_page_step p HM_refresh) = hp_filter p
   \<and> (v \<noteq> [] \<and> distinct (map fst (hp_filter p)) \<longrightarrow>
        distinct (map fst (hp_filter (http_page_step p (HM_filter k v))))
        \<and> map_of (hp_filter (http_page_step p (HM_filter k v)))
          = (map_of (dropNilValues (hp_filter p)))(k := if map_of (hp_filter p) k = Some v then None else Some v))"
proof (intro conjI impI)
  assume a: "v \<noteq> [] \<and> distinct (map fst (hp_filter p))"
  then show "distinct (map fst (hp_filter (http_page_step p (HM_filter k v))))" by (simp add: toggle_filter_keys)
  show "map_of (hp_filter (http_page_step p (HM_filter k v)))
          = (map_of (dropNilValues (hp_filter p)))(k := if map_of (hp_filter p) k = Some v then None else Some v)"
  proof
    fix k'
    show "map_of (hp_filter (http_page_step p (HM_filter k v))) k'
          = ((map_of (dropNilValues (hp_filter p)))(k := if map_of (hp_filter p) k = Some v then None else Some v)) k'"
      using a by (auto simp: toggle_filter_def map_of_dropNil distinct_update update_conv)
  qed
qed (simp_all add: http_query_key_def)

lemma http_filters_and_refresh_witness:
  "map_of (hp_filter (http_page_step \<lparr>hp_filter = [(''from'', ''nyc'')], hp_gen = 0\<rparr> (HM_filter ''from'' ''nyc''))) ''from'' = None"
  using http_filters_and_refresh [of initialPendingTask "\<lparr>hp_filter = [(''from'', ''nyc'')], hp_gen = 0\<rparr>" "''from''" "''nyc''"]
  by (simp del: http_page_step.simps)

end
