(* ===== verification/Page_Frame.thy ===== *)
theory Page_Frame
  imports Profile Ping_Events
begin

text \<open>
  The frame of the page: \<^verbatim>\<open>web/components/HeaderBar.tsx\<close>, \<^verbatim>\<open>GiveUsAStar.tsx\<close>, \<^verbatim>\<open>about.tsx\<close>,
  \<^verbatim>\<open>sitename.tsx\<close>, the menus of \<^verbatim>\<open>AvatarIconMenu.tsx\<close> and \<^verbatim>\<open>ModeSelector.tsx\<close>, and the buttons of
  \<^verbatim>\<open>app/login/page.tsx\<close>. A variable of the environment is \<open>None\<close> when it is not set.
\<close>

section \<open>The header\<close>

record header_bar =
  hb_project :: "string option option"
  hb_star :: "(string \<times> string) option"
  hb_about :: bool

text \<open>\<open>hb_project\<close>: whether the link to the project is shown, and its address.\<close>

definition HeaderBar :: "(string \<Rightarrow> string option) \<Rightarrow> bool \<Rightarrow> header_bar" where
  "HeaderBar env showAboutDialog =
     (let repoAddr = env ''NEXT_PUBLIC_GITHUB_REPO''; repoOwner = env ''NEXT_PUBLIC_REPO_OWNER'';
          repoName = env ''NEXT_PUBLIC_REPO_NAME''
      in \<lparr>hb_project = (if repoAddr \<noteq> Some [] then Some repoAddr else None),
          hb_star = (if truthy_str repoOwner \<and> truthy_str repoName then Some (the repoOwner, the repoName) else None),
          hb_about = showAboutDialog\<rparr>)"

record RepoDetails =
  stargazers_count :: "int option"
  html_url :: "string option"

definition GiveUsAStar :: "RepoDetails option \<Rightarrow> string \<times> int" where
  "GiveUsAStar repoDetails =
     (nullish (Option.bind repoDetails html_url) [], nullish (Option.bind repoDetails stargazers_count) 0)"

definition star_query :: "string \<Rightarrow> string \<Rightarrow> string option" where
  "star_query repoOwner repoName =
     (if repoOwner \<noteq> [] \<and> repoName \<noteq> [] then Some (getRepo_url repoOwner repoName) else None)"

definition SiteName :: "(string \<Rightarrow> string option) \<Rightarrow> string" where
  "SiteName env = nullish (env ''NEXT_PUBLIC_SITE_NAME'') []"

section \<open>About\<close>

text \<open>\<open>pretty v\<close> is the indented text of the JSON object \<open>v\<close> stands for, \<open>None\<close> if it is no object or does
  not parse. The loop keeps the versions and the names already seen.\<close>

definition node_version_step ::
  "(string \<Rightarrow> string option) \<Rightarrow> (string \<times> string) list \<times> string set \<Rightarrow> ConnEntry \<Rightarrow> (string \<times> string) list \<times> string set" where
  "node_version_step pretty acc entry =
     (let (nodeVersions, repeatSet) = acc;
          version = Option.bind (attributes entry) (\<lambda>a. map_of a ''Version'')
      in if \<not> truthy_str (node_name entry) then acc
         else (let nodeName = the (node_name entry) in
               if nodeName \<in> repeatSet then acc
               else if truthy_str version then
                 (case pretty (the version) of
                    None \<Rightarrow> acc
                  | Some ver \<Rightarrow> (nodeVersions @ [(nodeName, ver)], insert nodeName repeatSet))
               else acc))"

definition node_versions :: "(string \<Rightarrow> string option) \<Rightarrow> Conns option \<Rightarrow> (string \<times> string) list" where
  "node_versions pretty conns =
     (case conns of None \<Rightarrow> [] | Some c \<Rightarrow> fst (foldl (node_version_step pretty) ([], {}) (map snd c)))"

definition web_version_url :: "(string \<Rightarrow> string option) \<Rightarrow> string" where
  "web_version_url env = str_or (env ''NEXT_PUBLIC_WEB_VERSION_TXT'') ''/version.ver''"

definition hub_version_url :: "(string \<Rightarrow> string option) \<Rightarrow> string" where
  "hub_version_url env = str_or (env ''NEXT_PUBLIC_API_ENDPOINT'') [] @ ''/version''"

text \<open>The dialog: the text of the web version, the printed hub version, one paragraph per node.\<close>

definition About ::
  "(string \<Rightarrow> string option) \<Rightarrow> string option \<Rightarrow> string option \<Rightarrow> Conns option \<Rightarrow> (string \<times> string) list" where
  "About pretty webVersion hubVersion conns =
     [(''Web Version'', nullish webVersion []), (''Hub Version'', nullish hubVersion ''{}'')]
     @ map (\<lambda>(n, v). (''Version of Node '' @ n, v)) (node_versions pretty conns)"

section \<open>Menus and login\<close>

text \<open>The menu of the avatar: whether it is open, how often it logged out.\<close>

datatype avatar_move = Av_click | Av_close | Av_logout

fun avatar_step :: "BasicProfile option \<Rightarrow> bool \<times> nat \<Rightarrow> avatar_move \<Rightarrow> bool \<times> nat" where
  "avatar_step profile (menu_open, n) Av_click = (True, n)"
| "avatar_step profile (menu_open, n) Av_close = (False, n)"
| "avatar_step profile (menu_open, n) Av_logout =
     (if menu_open \<and> profile \<noteq> None then (False, n + 1) else (menu_open, n))"

fun mode_name :: "DarkModePreference \<Rightarrow> string" where
  "mode_name PreferSystem = ''system''"
| "mode_name PreferDark = ''dark''"
| "mode_name PreferLight = ''light''"

datatype mode_icon = LightModeIcon | DarkModeIcon | ContrastIcon

definition ModeSelector :: "DarkModePreference option \<Rightarrow> (string \<times> mode_icon) option" where
  "ModeSelector md =
     map_option (\<lambda>m. (''Mode: '' @ firstLetterCap (mode_name m),
       if m = PreferLight then LightModeIcon else if m = PreferDark then DarkModeIcon else ContrastIcon)) md"

text \<open>The variant of the login icon: dark unless the scheme says light.\<close>

definition KioubitLoginIcon :: "DarkModePreference option \<Rightarrow> bool \<Rightarrow> string" where
  "KioubitLoginIcon md prefersDarkMode =
     (case md of
        Some PreferDark \<Rightarrow> ''dark''
      | Some PreferLight \<Rightarrow> ''light''
      | Some PreferSystem \<Rightarrow> if prefersDarkMode then ''dark'' else ''light''
      | None \<Rightarrow> ''dark'')"

datatype login_page = Login_buttons "(string \<times> login_effect) list" | Login_none

definition LoginPage :: "(string \<Rightarrow> string option) \<Rightarrow> login_page" where
  "LoginPage env =
     (if length (activeLoginOptions env) > 0
      then Login_buttons (map (\<lambda>opt. (login_button opt, handleLogin (lo_loginURL opt))) (activeLoginOptions env))
      else Login_none)"

section \<open>Properties\<close>

text \<open>The version an entry contributes for the node \<open>n\<close>.\<close>

definition version_of :: "(string \<Rightarrow> string option) \<Rightarrow> string \<Rightarrow> ConnEntry \<Rightarrow> string option" where
  "version_of pretty n entry =
     (let version = Option.bind (attributes entry) (\<lambda>a. map_of a ''Version'')
      in if n \<noteq> [] \<and> node_name entry = Some n \<and> truthy_str version then pretty (the version) else None)"

definition first_version :: "(string \<Rightarrow> string option) \<Rightarrow> string \<Rightarrow> ConnEntry list \<Rightarrow> string option" where
  "first_version pretty n es = (case List.map_filter (version_of pretty n) es of [] \<Rightarrow> None | v # vs \<Rightarrow> Some v)"

definition versions_ok :: "(string \<Rightarrow> string option) \<Rightarrow> ConnEntry list \<Rightarrow> (string \<times> string) list \<times> string set \<Rightarrow> bool" where
  "versions_ok pretty es acc \<longleftrightarrow> snd acc = fst ` set (fst acc) \<and> distinct (map fst (fst acc))
     \<and> (\<forall>n. map_of (fst acc) n = first_version pretty n es)"

lemma first_version_snoc:
  "first_version pretty n (es @ [e]) = (case first_version pretty n es of Some v \<Rightarrow> Some v | None \<Rightarrow> version_of pretty n e)"
  by (cases "List.map_filter (version_of pretty n) es"; cases "version_of pretty n e")
    (simp_all add: first_version_def map_filter_def)

lemma map_of_snoc: "map_of (xs @ [(k, v)]) n = (case map_of xs n of Some w \<Rightarrow> Some w | None \<Rightarrow> if n = k then Some v else None)"
  by (simp add: map_add_def split: option.split)

lemma versions_ok_step:
  assumes "versions_ok pretty es acc"
  shows "versions_ok pretty (es @ [e]) (node_version_step pretty acc e)"
proof -
  obtain vs seen where acc: "acc = (vs, seen)" by (cases acc)
  have seen: "seen = fst ` set vs" and d: "distinct (map fst vs)" and m: "\<And>n. map_of vs n = first_version pretty n es"
    using assms by (simp_all add: versions_ok_def acc)
  have known: "n \<in> seen \<longleftrightarrow> first_version pretty n es \<noteq> None" for n
    unfolding m [symmetric] seen by (auto simp: map_of_eq_None_iff)
  let ?version = "Option.bind (attributes e) (\<lambda>a. map_of a ''Version'')"
  show ?thesis
  proof (cases "\<exists>n ver. n \<notin> seen \<and> version_of pretty n e = Some ver")
    case True
    then obtain n ver where n: "n \<notin> seen" "version_of pretty n e = Some ver" by auto
    then have e: "n \<noteq> []" "node_name e = Some n" "truthy_str ?version" "pretty (the ?version) = Some ver"
      by (auto simp: version_of_def Let_def split: if_splits)
    have step: "node_version_step pretty acc e = (vs @ [(n, ver)], insert n seen)"
      using n(1) e by (simp add: node_version_step_def acc Let_def truthy_str_def)
    have other: "version_of pretty n' e = None" if "n' \<noteq> n" for n' using that e(2) by (simp add: version_of_def Let_def)
    have fresh: "first_version pretty n es = None" using n(1) known by simp
    have "map_of (vs @ [(n, ver)]) n' = first_version pretty n' (es @ [e])" for n'
      using n(2) other [of n'] fresh
      by (cases "n' = n") (simp_all add: map_of_snoc first_version_snoc m del: map_of_append split: option.split)
    then show ?thesis
      using d seen n(1) by (simp add: versions_ok_def step del: map_of_append)
  next
    case False
    then have step: "node_version_step pretty acc e = acc"
      by (auto simp: node_version_step_def acc Let_def version_of_def truthy_str_def split: option.splits if_splits)
    have "first_version pretty n (es @ [e]) = first_version pretty n es" for n
      using False known [of n] by (auto simp: first_version_snoc split: option.split)
    then show ?thesis using assms by (simp add: versions_ok_def step)
  qed
qed

lemma versions_ok_all: "versions_ok pretty es (foldl (node_version_step pretty) ([], {}) es)"
  by (induction es rule: rev_induct) (simp_all add: versions_ok_step, simp add: versions_ok_def first_version_def map_filter_def)

text \<open>The versions in the about dialog: each node is listed once, with the version of its first
  connection that reports one that can be read; a node none of whose connections does is not listed.\<close>

theorem node_versions_listed:
  "distinct (map fst (node_versions pretty (Some conns)))
   \<and> map_of (node_versions pretty (Some conns)) n = first_version pretty n (map snd conns)"
  using versions_ok_all [of pretty "map snd conns"] by (simp add: node_versions_def versions_ok_def)

text \<open>A header whose project address is not set still shows the link to the project, with no address;
  only an address that is set to nothing takes it away.\<close>

theorem project_link_without_address:
  "hb_project (HeaderBar env b) = None \<longleftrightarrow> env ''NEXT_PUBLIC_GITHUB_REPO'' = Some []"
  by (simp add: HeaderBar_def Let_def)

end
