(* ===== verification/Spec2Isabelle.thy ===== *)
theory Spec2Isabelle
  imports Router Line_Stream Api_Types Trace Url_Params Ping_Events Node_Directory Ping_Display World_Map Canvas_Table
    Report Stream_Consumer Mrt_Providers Ip_Query Task Http_Probe Display Dns_Display Traceroute_Display
    Address_Class Route_Display Ip_Display Profile Email_Worker Source_Selector Events_Hook Dns_Hook Task_Form
    Docking Requests Ping_View Trace_View Query_View Page_Frame
begin

text \<open>
  A model of the web client of this repository (\<^verbatim>\<open>src/web\<close>, TypeScript) and of its e-mail worker
  (\<^verbatim>\<open>src/workers/email\<close>), with the theorems that make its parts correct.

  \<^bold>\<open>The program.\<close> The page lets a user put together a measuring task (ping, traceroute, TCP ping, DNS,
  HTTP, route or IP query), confirms it, and opens a display for it. A display asks a service for
  a stream of JSON lines, decodes it line by line, folds the events into a state of its own and
  renders it as tables, a world map and reports painted on a canvas. Around this stand the
  classification of the typed target (a prefix trie of known networks, zones of known domains),
  the directory of measuring agents, and the request builders. The agents, the hub and the
  services behind the requests are written in another language and are not modelled: their
  responses are arguments of the model.

  \<^bold>\<open>Theories and code.\<close>
  \<^item> \<open>Prelude\<close>: what the language's library does and several parts use (decimal printing,
    \<open>parseInt\<close>, \<open>trim\<close>, \<open>split\<close>, \<open>join\<close>, the stable \<open>sort\<close>, insertion-ordered maps as association
    lists, \<open>??\<close> and truthiness), with the shared lemmas.
  \<^item> \<open>Ip_Addr\<close> (\<^verbatim>\<open>utls/ipaddr.ts\<close>), \<open>Router\<close> (\<^verbatim>\<open>utls/router.ts\<close>), \<open>Address_Class\<close> (\<^verbatim>\<open>apis/nwdesc.ts\<close>,
    \<^verbatim>\<open>apis/useAddressClassify.ts\<close>): addresses as byte words, the multibit trie and its lookup, zone
    matching and the label shown for a target. The locale \<open>ip_addr_like\<close> states what the trie needs of
    an address and is interpreted on the addresses of \<open>Ip_Addr\<close>.
  \<^item> \<open>Streams\<close> (\<^verbatim>\<open>utls/streams.ts\<close>), \<open>Line_Stream\<close> (\<open>LineTokenizer\<close> and \<open>JSONLineDecoder\<close> of
    \<^verbatim>\<open>apis/globalping.ts\<close>): transform streams as a step function and a flush, piped over a list of
    chunks. The locale \<open>chunked_transform\<close> states what makes a transform independent of the
    chunks; both are interpretations.
  \<^item> \<open>Api_Types\<close> (\<^verbatim>\<open>apis/types.ts\<close>), \<open>Task\<close> (\<^verbatim>\<open>components/TaskCreatorPanel.tsx\<close> and the option panels,
    \<^verbatim>\<open>taskconfirm.tsx\<close>, \<^verbatim>\<open>app/page.tsx\<close>): the data of a task, the edits of the form, its expansion, its
    validation, and the page as a step relation with its reachable states; \<open>Source_Selector\<close>
    (\<^verbatim>\<open>sourceselector.tsx\<close>): the selectors of sources; \<open>Task_Form\<close>: every control of the form with what it
    shows, offers and does; \<open>Requests\<close>: from the form to the URL a display fetches.
  \<^item> \<open>Trace\<close> (\<^verbatim>\<open>apis/trace.ts\<close>), \<open>Traceroute_Display\<close> (\<^verbatim>\<open>components/traceroutedisplay.tsx\<close>): events, the
    statistics per hop and peer, their table; the reading hook with stop and resume, the coloured
    cells, markers and paths; \<open>Trace_View\<close>: what is rendered around them.
  \<^item> \<open>Ping_Events\<close> (the rest of \<^verbatim>\<open>apis/globalping.ts\<close>), \<open>Url_Params\<close> (\<open>URLSearchParams\<close>, with a decoder
    for the server's side), \<open>Node_Directory\<close> (\<^verbatim>\<open>apis/utils.ts\<close>), \<open>Ping_Display\<close>
    (\<^verbatim>\<open>components/pingdisplay.tsx\<close>): samples, requests, agents, and the ping display with its table.
    The table is an explicit store of objects, because the code mutates objects that two versions
    of the state share. \<open>Ping_View\<close>: its rows, maps, legends and buttons, and saving a report.
  \<^item> \<open>Stream_Consumer\<close>: the life of a fetched stream in an effect, with a locale that says what a
    consumer must guarantee; \<open>Mrt_Providers\<close> (\<^verbatim>\<open>apis/mrtProviders.ts\<close>) and \<open>Ip_Query\<close>
    (\<^verbatim>\<open>apis/ip-query.ts\<close>) interpret it; \<open>Route_Display\<close> (\<^verbatim>\<open>RouteQueryResultDisplay.tsx\<close>,
    \<^verbatim>\<open>RouteQueryStats.tsx\<close>, \<^verbatim>\<open>MRTEntryCard.tsx\<close>, \<^verbatim>\<open>ASPathChip.tsx\<close>) and \<open>Ip_Display\<close>
    (\<^verbatim>\<open>IPQueryResultDisplay.tsx\<close>) are their displays.
  \<^item> \<open>Http_Probe\<close> (\<^verbatim>\<open>apis/httpprobe.ts\<close>, filters of \<^verbatim>\<open>EventsBrowser.tsx\<close>), \<open>Events_Hook\<close> (its reading loops,
    \<^verbatim>\<open>httpprobedisplay.tsx\<close>), \<open>Docking\<close> (\<^verbatim>\<open>apis/useDockingMode.ts\<close>); \<open>Dns_Display\<close> and \<open>Dns_Hook\<close> (\<^verbatim>\<open>dnsprobedisplay.tsx\<close>): the
    answers, and the runs of the effect that deliver them.
  \<^item> \<open>Query_View\<close> (the headers and tabs of the query displays, \<^verbatim>\<open>SourceTabs.tsx\<close>, the selectors as shown),
    \<open>Page_Frame\<close> (\<^verbatim>\<open>HeaderBar.tsx\<close>, \<^verbatim>\<open>about.tsx\<close>, the menus and the login page).
  \<^item> \<open>World_Map\<close> (\<^verbatim>\<open>worldmap.tsx\<close>), \<open>Canvas_Table\<close> (\<^verbatim>\<open>canvastable.tsx\<close>), \<open>Report\<close>
    (\<^verbatim>\<open>traceroutereport.tsx\<close>), \<open>Display\<close> (\<^verbatim>\<open>colorfunc.tsx\<close>, \<^verbatim>\<open>strings.tsx\<close>).
  \<^item> \<open>Profile\<close> (\<^verbatim>\<open>AvatarIconMenu.tsx\<close>, \<^verbatim>\<open>login/page.tsx\<close> and small controls), \<open>Email_Worker\<close>.

  \<^bold>\<open>How code becomes a definition.\<close> A function is a function, a class its record with one function per
  method, a component its state record with one function per handler and a view function. A
  component with effects is a machine over moves of its environment (what the network delivers, a
  timer, a click), in any order; a running request is a slot of the state, and an abort marks the
  slot. A \<open>throw\<close> is the \<open>Inl\<close> of a sum. Numbers that only count are \<open>nat\<close> or \<open>int\<close>; bit operations
  are on words of their width; times and coordinates are rationals, or reals where the code uses
  trigonometric functions, so rounding is not modelled, nor the negative zero (the size attributes of a canvas are whole
  numbers, as the browser reads them). Strings are lists of 8-bit characters.

  \<^bold>\<open>What is proved.\<close>
  \<^item> Functional behaviour: a lookup finds the longest prefix the table keeps, which is the longest
    prefix if the prefix lengths are level boundaries (those of the shipped table are not, and a theorem
    shows an address it then labels wrongly); statistics are exact sums over the events; pages, cells and grids hold what the stream said, nothing else.
  \<^item> Independence of chunking, from the two transforms up to the displays (the properties of this
    theory), and of the interleaving of several streams.
  \<^item> Invariants over all reachable states: validated tasks, exclusive options, one open reader, a
    grabbed map point that stays under the pointer, a canvas that holds the content it repaints, events of distinct ids, pages that only grow.
  \<^item> Refinements: the trie of a route list, the traceroute hook as two lists of events.
  \<^item> Views: every control of the form, the selector of sources included, shows what was put in, and what else an input
    changes is stated; tables have the
    shape of their heads; buttons offer what the state allows.
  \<^item> Round trips from the typed form to the request a service reads, of what is printed, requested or projected, and the error cases of the inputs.
  \<^item> Where the code does something its authors can hardly have meant, a theorem states what it does.

  \<^bold>\<open>Termination.\<close> No definition uses fuel. Loops are structural or have a measure: the tokenizer by
  the length of its buffer, the trie by the list of remaining segments, the parser of words by the
  bytes left. A stream that may never end is a list of moves, and what holds after it is stated for
  every list.

  \<^bold>\<open>Parameters.\<close> \<open>JSON.parse\<close> and \<open>JSON.stringify\<close>, the packages \<open>ipaddr.js\<close> and \<open>three\<close>, the canvas'
  \<open>measureText\<close>, the clock and random numbers are arguments, and so
  are the engine's messages and what the widget of the source selector reports. Only the quaternions come with
  hypotheses (the half-angle and rotation formulas), and a witness instantiates them.

  \<^bold>\<open>Not modelled.\<close> Styling, icons and the layout, the widgets of the component library, the stream of
  invented DNS answers that the code never reaches, the mock data and demo pages, generated declarations; the agents and services in the
  other language.
\<close>

section \<open>From the text of a response to what is shown\<close>

text \<open>C19. The text of a page of routes decides what is shown, not the way the network cut it: if the
  body consists of the serialised events, one per line, then under every chunking the provider ends
  with exactly these events appended, and idle.\<close>

theorem route_page_of_text:
  assumes "\<forall>e\<in>set evs. newline \<notin> set (stringify e) \<and> (stringify e = [] \<or> last (stringify e) \<noteq> carriage_return)
      \<and> parse (stringify e) = Some e"
    and "concat cs = concat (map (\<lambda>e. stringify e @ [newline]) evs)"
    and "map_of m p = Some st"
  shows "map_of (c_state (processMRTStream p m (body_moves parse cs))) p = Some ((after_events evs st)\<lparr>isRunning := False\<rparr>)"
  using assms(3)
  by (simp add: body_moves_def ndjson_pipe_written [OF assms(1,2)] processMRTStream_def consume_complete mrt_ops
      map_of_fold_item add_events)

lemma route_page_of_text_witness:
  "map_of (c_state (processMRTStream ''A'' [(''A'', initial_provider_state)]
      (body_moves (\<lambda>s. if s = ''a1'' then Some (cursor_event ''a1'') else None) [''a'', ''1'' @ [newline]]))) ''A''
   = Some ((after_events [cursor_event ''a1''] initial_provider_state)\<lparr>isRunning := False\<rparr>)"
  using route_page_of_text [of "[cursor_event ''a1'']" "\<lambda>e. ''a1''" "\<lambda>s. if s = ''a1'' then Some (cursor_event ''a1'') else None"
      "[''a'', ''1'' @ [newline]]" "[(''A'', initial_provider_state)]" "''A''" initial_provider_state]
  by (simp add: newline_def carriage_return_def)

text \<open>The same for a traceroute: what the statistics of a source are computed from, once the whole body
  was read by a view that nobody touched.\<close>

definition trace_moves :: "(string \<Rightarrow> RawPingEventData RawPingEvent option) \<Rightarrow> string list \<Rightarrow> trace_move list" where
  "trace_moves parse cs =
     T_body True # (case ndjson_pipe parse cs of
                      Inl e \<Rightarrow> [T_error] | Inr raws \<Rightarrow> map T_event (TraceEventAdapter raws) @ [T_done])"

lemma trace_events_read:
  "foldl spec_step \<lparr>sp_events = es, sp_frozen = None, sp_running = True, sp_paused = False, sp_reader = Traceroute_Display.Reading\<rparr>
      (map T_event vs)
   = \<lparr>sp_events = es @ vs, sp_frozen = None, sp_running = True, sp_paused = False, sp_reader = Traceroute_Display.Reading\<rparr>"
  by (induction vs arbitrary: es) simp_all

text \<open>C7. Text to traceroute table. However the response is chunked, lines that do not parse and raw
  events that are no trace event are skipped, and for every source the view ends, idle, with the
  statistics of exactly that source's events in the order of their lines; a source none of whose
  events arrived has no statistics and no table.\<close>

theorem traceroute_of_text:
  "let h = foldl trace_step trace_init (trace_moves parse cs);
       vs = TraceEventAdapter (List.map_filter parse (lines_of (concat cs)));
       evs = map snd (filter (\<lambda>v. value_source v = c # src) vs)
   in \<not> hook_running h
      \<and> map_option ToTable (map_of (shown_stats h) (c # src)) = (if evs = [] then None else Some (ToTable (trace_run evs)))"
proof -
  define vs where "vs = TraceEventAdapter (List.map_filter parse (lines_of (concat cs)))"
  have m: "trace_moves parse cs = T_body True # map T_event vs @ [T_done]"
    by (simp add: trace_moves_def ndjson_pipe_lines vs_def)
  have "foldl spec_step spec_init (trace_moves parse cs) =
      \<lparr>sp_events = vs, sp_frozen = None, sp_running = False, sp_paused = False, sp_reader = No_stream\<rparr>"
    by (simp add: m spec_init_def trace_events_read)
  then show ?thesis
    by (simp add: Let_def hook_run_spec hook_of_def shown_stats_def stats_of_lookup flip: vs_def)
qed

end
